(* ===== verification/Prelude.thy ===== *)
theory Prelude
  imports Main
begin

text \<open>
  What every other theory shares: the collections of simplification and elimination facts
  the components add to, the type of an action (a piece of a request handler that may stop
  early, having answered) with its sequencing, and a few facts on lists and maps.

  An action takes the state and answers a refusal (\<open>Inl\<close>, the Go code has written the
  answer and returned) or a value (\<open>Inr\<close>, the code goes on), with the state after it. The
  state changes made before a refusal stay, as in the code.
\<close>

named_theorems act_simps \<open>how the actions of the handlers run\<close>
named_theorems wf_intros \<open>what keeps the well-formedness of a component's state\<close>

section \<open>Actions that may answer early\<close>

type_synonym ('s, 'e, 'a) act = "'s \<Rightarrow> ('e + 'a) \<times> 's"

definition ret :: "'a \<Rightarrow> ('s, 'e, 'a) act" where
  "ret x s = (Inr x, s)"

definition stop :: "'e \<Rightarrow> ('s, 'e, 'a) act" where
  "stop e s = (Inl e, s)"

definition andthen :: "('s, 'e, 'a) act \<Rightarrow> ('a \<Rightarrow> ('s, 'e, 'b) act) \<Rightarrow> ('s, 'e, 'b) act" where
  "andthen m f s = (case m s of (Inl e, s') \<Rightarrow> (Inl e, s') | (Inr x, s') \<Rightarrow> f x s')"

definition require :: "bool \<Rightarrow> 'e \<Rightarrow> ('s, 'e, unit) act" where
  "require b e s = (if b then (Inr (), s) else (Inl e, s))"

definition change :: "('s \<Rightarrow> 's) \<Rightarrow> ('s, 'e, unit) act" where
  "change f s = (Inr (), f s)"

definition reading :: "('s \<Rightarrow> 'a) \<Rightarrow> ('s, 'e, 'a) act" where
  "reading f s = (Inr (f s), s)"

text \<open>Handling a result without stopping: the code looks at the error itself.\<close>

definition attempt :: "('s, 'e, 'a) act \<Rightarrow> ('s, 'f, 'e + 'a) act" where
  "attempt m s = (case m s of (r, s') \<Rightarrow> (Inr r, s'))"

lemma ret_run [simp]: "ret x s = (Inr x, s)"
  by (simp add: ret_def)

lemma stop_run [simp]: "stop e s = (Inl e, s)"
  by (simp add: stop_def)

lemma change_run [simp]: "change f s = (Inr (), f s)"
  by (simp add: change_def)

lemma reading_run [simp]: "reading f s = (Inr (f s), s)"
  by (simp add: reading_def)

lemma attempt_run: "attempt m s = (Inr (fst (m s)), snd (m s))"
  by (simp add: attempt_def split: prod.splits)

lemma andthen_run [simp]:
  "m s = (Inl e, s') \<Longrightarrow> andthen m f s = (Inl e, s')"
  "m s = (Inr x, s') \<Longrightarrow> andthen m f s = f x s'"
  by (simp_all add: andthen_def)

lemma andthen_ret [simp]:
  "andthen (ret x) f = f x"
  "andthen (stop e) f = stop e"
  by (simp_all add: andthen_def fun_eq_iff)

lemma andthen_assoc: "andthen (andthen m f) g = andthen m (\<lambda>x. andthen (f x) g)"
  by (simp add: andthen_def fun_eq_iff split: prod.splits sum.splits)

text \<open>The two inversions every handler proof uses: what a value, or a refusal, came from.\<close>

lemma andthen_Inr [act_simps]:
  "andthen m f s = (Inr y, t) \<longleftrightarrow> (\<exists>x s'. m s = (Inr x, s') \<and> f x s' = (Inr y, t))"
  by (auto simp: andthen_def split: prod.splits sum.splits)

lemma andthen_Inl:
  "andthen m f s = (Inl e, t) \<longleftrightarrow>
     m s = (Inl e, t) \<or> (\<exists>x s'. m s = (Inr x, s') \<and> f x s' = (Inl e, t))"
  by (auto simp: andthen_def split: prod.splits sum.splits)

lemma require_Inr [act_simps]: "require b e s = (Inr u, t) \<longleftrightarrow> b \<and> t = s"
  by (auto simp: require_def)

lemma require_Inl: "require b e s = (Inl f, t) \<longleftrightarrow> \<not> b \<and> f = e \<and> t = s"
  by (auto simp: require_def)

lemma attempt_Inr [act_simps]: "attempt m s = (Inr r, t) \<longleftrightarrow> m s = (r, t)"
  by (auto simp: attempt_def split: prod.splits)

lemma attempt_never_stops [simp]: "attempt m s \<noteq> (Inl e, t)"
  by (auto simp: attempt_def split: prod.splits)

text \<open>Trying an action and going on another way when it stops.\<close>

definition recover :: "('s, 'e, 'a) act \<Rightarrow> ('e \<Rightarrow> ('s, 'f, 'a) act) \<Rightarrow> ('s, 'f, 'a) act" where
  "recover m h s = (case m s of (Inl e, s') \<Rightarrow> h e s' | (Inr x, s') \<Rightarrow> (Inr x, s'))"

lemma recover_run [simp]:
  "m s = (Inl e, s') \<Longrightarrow> recover m h s = h e s'"
  "m s = (Inr x, s') \<Longrightarrow> recover m h s = (Inr x, s')"
  by (simp_all add: recover_def)

lemma recover_Inr [act_simps]:
  "recover m h s = (Inr y, t) \<longleftrightarrow> m s = (Inr y, t) \<or> (\<exists>e s'. m s = (Inl e, s') \<and> h e s' = (Inr y, t))"
  by (auto simp: recover_def split: prod.splits sum.splits)

lemma recover_Inl:
  "recover m h s = (Inl e, t) \<longleftrightarrow> (\<exists>f s'. m s = (Inl f, s') \<and> h f s' = (Inl e, t))"
  by (auto simp: recover_def split: prod.splits sum.splits)

lemma keeps_recover_raw:
  assumes "\<And>s r t. m s = (r, t) \<Longrightarrow> R s t" "\<And>e s r t. h e s = (r, t) \<Longrightarrow> R s t" "transp R"
  shows "recover m h s = (r, t) \<Longrightarrow> R s t"
  using assms(1)[of s] assms(2) transpD[OF assms(3)]
  by (auto simp: recover_def split: prod.splits sum.splits)

text \<open>A result already there, going on with its value or another way on its error.\<close>

definition from_sum :: "'f + 'a \<Rightarrow> ('f \<Rightarrow> ('s, 'e, 'a) act) \<Rightarrow> ('s, 'e, 'a) act" where
  "from_sum r h = (case r of Inl e \<Rightarrow> h e | Inr x \<Rightarrow> ret x)"

definition from_option :: "'a option \<Rightarrow> ('s, 'e, 'a) act \<Rightarrow> ('s, 'e, 'a) act" where
  "from_option m h = (case m of None \<Rightarrow> h | Some x \<Rightarrow> ret x)"

lemma from_sum_Inr [act_simps]:
  "from_sum r h s = (Inr x, t) \<longleftrightarrow> r = Inr x \<and> t = s \<or> (\<exists>e. r = Inl e \<and> h e s = (Inr x, t))"
  by (cases r) (auto simp: from_sum_def)

lemma from_option_Inr [act_simps]:
  "from_option m h s = (Inr x, t) \<longleftrightarrow> m = Some x \<and> t = s \<or> m = None \<and> h s = (Inr x, t)"
  by (cases m) (auto simp: from_option_def)

lemma if_Inr: "(if b then m else n) s = (Inr x, t) \<longleftrightarrow> (if b then m s = (Inr x, t) else n s = (Inr x, t))"
  by simp

text \<open>An action keeps a relation between the state before and the state after, whatever it answers.\<close>

definition keeps :: "('s \<Rightarrow> 's \<Rightarrow> bool) \<Rightarrow> ('s, 'e, 'a) act \<Rightarrow> bool" where
  "keeps R m \<longleftrightarrow> (\<forall>s. R s (snd (m s)))"

lemma keepsI: "(\<And>s r t. m s = (r, t) \<Longrightarrow> R s t) \<Longrightarrow> keeps R m"
  unfolding keeps_def by (metis surjective_pairing)

lemma keepsD: "keeps R m \<Longrightarrow> m s = (r, t) \<Longrightarrow> R s t"
  unfolding keeps_def by (metis snd_conv)

named_theorems keeps_intros \<open>actions that keep a relation\<close>

lemma keeps_ret: "reflp R \<Longrightarrow> keeps R (ret x)"
  by (auto simp: keeps_def reflp_def)

lemma keeps_stop: "reflp R \<Longrightarrow> keeps R (stop x)"
  by (auto simp: keeps_def reflp_def)

lemma keeps_require: "reflp R \<Longrightarrow> keeps R (require b e)"
  by (auto simp: keeps_def reflp_def require_def)

lemma keeps_reading: "reflp R \<Longrightarrow> keeps R (reading f)"
  by (auto simp: keeps_def reflp_def)

lemma keeps_andthen:
  assumes "transp R" "keeps R m" "\<And>x. keeps R (f x)"
  shows "keeps R (andthen m f)"
proof (rule keepsI)
  fix s r t assume run: "andthen m f s = (r, t)"
  obtain q s' where m: "m s = (q, s')" by fastforce
  with assms(2) have "R s s'" by (rule keepsD)
  show "R s t"
  proof (cases q)
    case (Inl e)
    with m run \<open>R s s'\<close> show ?thesis by simp
  next
    case (Inr x)
    with m run have "f x s' = (r, t)" by simp
    with assms(3) have "R s' t" by (rule keepsD)
    with assms(1) \<open>R s s'\<close> show ?thesis by (rule transpD)
  qed
qed

lemma keeps_attempt: "keeps R m \<Longrightarrow> keeps R (attempt m)"
  by (auto simp: keeps_def attempt_run)

lemma keeps_from_sum: "reflp R \<Longrightarrow> (\<And>e. keeps R (h e)) \<Longrightarrow> keeps R (from_sum r h)"
  by (cases r) (simp_all add: from_sum_def keeps_ret)

lemma keeps_from_option: "reflp R \<Longrightarrow> keeps R h \<Longrightarrow> keeps R (from_option r h)"
  by (cases r) (simp_all add: from_option_def keeps_ret)

lemma keeps_recover: "transp R \<Longrightarrow> keeps R m \<Longrightarrow> (\<And>e. keeps R (h e)) \<Longrightarrow> keeps R (recover m h)"
  by (rule keepsI) (blast intro: keeps_recover_raw dest: keepsD)

section \<open>Lists and maps\<close>

text \<open>The first entry that satisfies a condition, and keeping one of each value in order.\<close>

definition first :: "('a \<Rightarrow> bool) \<Rightarrow> 'a list \<Rightarrow> 'a option" where
  "first P xs = (case filter P xs of [] \<Rightarrow> None | x # _ \<Rightarrow> Some x)"

lemma first_simps [simp]:
  "first P [] = None"
  "first P (x # xs) = (if P x then Some x else first P xs)"
  by (simp_all add: first_def)

lemma first_None [simp]: "first P xs = None \<longleftrightarrow> (\<forall>x\<in>set xs. \<not> P x)"
  by (induction xs) auto

lemma first_SomeD: "first P xs = Some x \<Longrightarrow> x \<in> set xs \<and> P x"
  by (induction xs) (auto split: if_splits)

lemma first_Some_ex: "x \<in> set xs \<Longrightarrow> P x \<Longrightarrow> \<exists>y. first P xs = Some y"
  by (induction xs) auto

fun dedup_onto :: "'a list \<Rightarrow> 'a list \<Rightarrow> 'a list" where
  "dedup_onto out [] = out"
| "dedup_onto out (x # xs) = dedup_onto (if x \<in> set out then out else out @ [x]) xs"

lemma set_dedup_onto [simp]: "set (dedup_onto out xs) = set out \<union> set xs"
  by (induction xs arbitrary: out) auto

lemma distinct_dedup_onto: "distinct out \<Longrightarrow> distinct (dedup_onto out xs)"
  by (induction xs arbitrary: out) auto

lemma distinct_dedup [simp]: "distinct (dedup_onto [] xs)"
  by (simp add: distinct_dedup_onto)

lemma map_of_Some_in: "map_of xs k = Some v \<Longrightarrow> k \<in> fst ` set xs"
  by (force dest: map_of_SomeD)

section \<open>Errors as optional values\<close>

text \<open>Go's \<open>error\<close> results: \<open>None\<close> is \<open>nil\<close>. One check after another, and a loop that returns the
  first error of its body.\<close>

definition or_err :: "'e option \<Rightarrow> 'e option \<Rightarrow> 'e option" where
  "or_err a b = (case a of None \<Rightarrow> b | Some e \<Rightarrow> Some e)"

definition fail_if :: "bool \<Rightarrow> 'e \<Rightarrow> 'e option" where
  "fail_if b e = (if b then Some e else None)"

fun first_err :: "('a \<Rightarrow> 'e option) \<Rightarrow> 'a list \<Rightarrow> 'e option" where
  "first_err f [] = None"
| "first_err f (x # xs) = or_err (f x) (first_err f xs)"

lemma or_err_None [simp]: "or_err a b = None \<longleftrightarrow> a = None \<and> b = None"
  by (simp add: or_err_def split: option.splits)

lemma fail_if_None [simp]: "fail_if b e = None \<longleftrightarrow> \<not> b"
  by (simp add: fail_if_def)

lemma first_err_None [simp]: "first_err f xs = None \<longleftrightarrow> (\<forall>x\<in>set xs. f x = None)"
  by (induction xs) auto

text \<open>A Go map as the list of its entries in the order they were put there.\<close>

definition put_new :: "'k \<Rightarrow> 'v \<Rightarrow> ('k \<times> 'v) list \<Rightarrow> ('k \<times> 'v) list" where
  "put_new k v m = m @ [(k, v)]"

lemma map_of_put_new [simp]:
  "map_of m k = None \<Longrightarrow> map_of (put_new k v m) = (map_of m)(k \<mapsto> v)"
  by (auto simp: put_new_def map_add_def fun_eq_iff split: option.splits)

lemma keys_put_new [simp]: "map fst (put_new k v m) = map fst m @ [k]"
  by (simp add: put_new_def)

lemma set_put_new [simp]: "set (put_new k v m) = insert (k, v) (set m)"
  by (simp add: put_new_def)

end
