(* ===== verification/Go_Lib.thy ===== *)
theory Go_Lib
  imports Prelude "HOL-Library.Word" "HOL-Library.Char_ord" "HOL-Library.List_Lexorder"
begin

text \<open>
  What the source uses of Go's standard library, on Go strings as lists of bytes
  (\<open>string\<close>, each \<open>char\<close> one byte): \<open>strings.Cut\<close>, \<open>Fields\<close>, \<open>TrimSpace\<close>, \<open>Split\<close>,
  \<open>Contains\<close>, \<open>HasPrefix\<close>, \<open>TrimPrefix\<close>, \<open>TrimSuffix\<close>, \<open>Join\<close>, \<open>ToLower\<close>, \<open>EqualFold\<close>,
  \<open>unicode.IsSpace\<close>, base64 and the \<open>time\<close> arithmetic.

  White space is Unicode's as Go's \<open>unicode.IsSpace\<close> has it, read off the UTF-8 bytes: a
  white-space rune begins with a byte no other rune contains, so scanning bytes finds exactly
  the runes. Letter case is folded for ASCII and for the two non-ASCII runes whose fold is an
  ASCII letter (U+017F and U+212A, and U+0130 for \<open>ToLower\<close>); other letters are left as they
  are, which every comparison with the code's ASCII words reads the same.
\<close>

unbundle bit_operations_syntax

section \<open>Strings\<close>

text \<open>The number of bytes of the white-space rune a string begins with, or 0.\<close>

fun space_len :: "string \<Rightarrow> nat" where
  "space_len [] = 0"
| "space_len (c # s) =
     (if c \<in> {CHR 0x09, CHR 0x0A, CHR 0x0B, CHR 0x0C, CHR 0x0D, CHR 0x20} then 1
      else if c = CHR 0xC2 then (case s of d # _ \<Rightarrow> if d \<in> {CHR 0x85, CHR 0xA0} then 2 else 0 | [] \<Rightarrow> 0)
      else if c = CHR 0xE1 then (case s of d # e # _ \<Rightarrow> if d = CHR 0x9A \<and> e = CHR 0x80 then 3 else 0 | _ \<Rightarrow> 0)
      else if c = CHR 0xE2 then
        (case s of d # e # _ \<Rightarrow>
           if d = CHR 0x80 \<and> e \<in> {CHR 0x80, CHR 0x81, CHR 0x82, CHR 0x83, CHR 0x84, CHR 0x85, CHR 0x86,
                CHR 0x87, CHR 0x88, CHR 0x89, CHR 0x8A, CHR 0xA8, CHR 0xA9, CHR 0xAF}
              \<or> d = CHR 0x81 \<and> e = CHR 0x9F then 3 else 0 | _ \<Rightarrow> 0)
      else if c = CHR 0xE3 then (case s of d # e # _ \<Rightarrow> if d = CHR 0x80 \<and> e = CHR 0x80 then 3 else 0 | _ \<Rightarrow> 0)
      else 0)"

fun has_space :: "string \<Rightarrow> bool" where
  "has_space [] = False"
| "has_space (c # s) = (0 < space_len (c # s) \<or> has_space s)"

text \<open>\<open>strings.Fields\<close>: the maximal runs of bytes that lie in no white-space rune. \<open>skip\<close>
  counts the bytes of the current white-space rune still to pass over.\<close>

fun space_fields_from :: "nat \<Rightarrow> string \<Rightarrow> string \<Rightarrow> string list" where
  "space_fields_from k cur [] = (if cur = [] then [] else [rev cur])"
| "space_fields_from (Suc k) cur (c # s) = space_fields_from k cur s"
| "space_fields_from 0 cur (c # s) =
     (if 0 < space_len (c # s)
      then (if cur = [] then [] else [rev cur]) @ space_fields_from (space_len (c # s) - 1) [] s
      else space_fields_from 0 (c # cur) s)"

definition space_fields :: "string \<Rightarrow> string list" where
  "space_fields s = space_fields_from 0 [] s"

lemma space_len_pos: "0 < space_len s \<Longrightarrow> s \<noteq> []"
  by auto

function trim_left :: "string \<Rightarrow> string" where
  "trim_left s = (if 0 < space_len s then trim_left (drop (space_len s) s) else s)"
  by pat_completeness auto
termination
  by (relation "measure length")
    (simp_all del: space_len.simps, metis space_len_pos diff_less length_greater_0_conv)

declare trim_left.simps [simp del]

text \<open>\<open>strings.TrimSpace\<close>: a trailing white-space rune is one that some suffix of the string
  consists of.\<close>

definition tail_space :: "string \<Rightarrow> nat" where
  "tail_space s =
     (case first (\<lambda>n. n \<le> length s \<and> space_len (drop (length s - n) s) = n) [1, 2, 3] of
        Some n \<Rightarrow> n | None \<Rightarrow> 0)"

function trim_right :: "string \<Rightarrow> string" where
  "trim_right s = (if 0 < tail_space s then trim_right (take (length s - tail_space s) s) else s)"
  by pat_completeness auto
termination
  by (relation "measure length") (auto simp: tail_space_def split: option.splits if_splits)

declare trim_right.simps [simp del]

definition trim_space :: "string \<Rightarrow> string" where
  "trim_space s = trim_right (trim_left s)"

fun has_prefix :: "string \<Rightarrow> string \<Rightarrow> bool" where
  "has_prefix s [] = True"
| "has_prefix [] (p # ps) = False"
| "has_prefix (c # s) (p # ps) = (c = p \<and> has_prefix s ps)"

definition has_suffix :: "string \<Rightarrow> string \<Rightarrow> bool" where
  "has_suffix s p = has_prefix (rev s) (rev p)"

fun contains :: "string \<Rightarrow> string \<Rightarrow> bool" where
  "contains [] p = (p = [])"
| "contains (c # s) p = (has_prefix (c # s) p \<or> contains s p)"

definition trim_prefix :: "string \<Rightarrow> string \<Rightarrow> string" where
  "trim_prefix s p = (if has_prefix s p then drop (length p) s else s)"

definition trim_suffix :: "string \<Rightarrow> string \<Rightarrow> string" where
  "trim_suffix s p = (if has_suffix s p then take (length s - length p) s else s)"

definition cut_prefix :: "string \<Rightarrow> string \<Rightarrow> string option" where
  "cut_prefix s p = (if has_prefix s p then Some (drop (length p) s) else None)"

text \<open>\<open>strings.Cut\<close> at a one-byte separator: what is before it, what is after, and whether it
  was there at all.\<close>

fun cut :: "char \<Rightarrow> string \<Rightarrow> string \<times> string \<times> bool" where
  "cut sep [] = ([], [], False)"
| "cut sep (c # s) =
     (if c = sep then ([], s, True)
      else (case cut sep s of (a, b, ok) \<Rightarrow> (c # a, b, ok)))"

fun split_on :: "char \<Rightarrow> string \<Rightarrow> string list" where
  "split_on sep [] = [[]]"
| "split_on sep (c # s) =
     (if c = sep then [] # split_on sep s
      else (case split_on sep s of [] \<Rightarrow> [[c]] | x # xs \<Rightarrow> (c # x) # xs))"

fun join :: "string \<Rightarrow> string list \<Rightarrow> string" where
  "join sep [] = []"
| "join sep [x] = x"
| "join sep (x # y # xs) = x @ sep @ join sep (y # xs)"

definition lower_char :: "char \<Rightarrow> char" where
  "lower_char c = (if CHR ''A'' \<le> c \<and> c \<le> CHR ''Z'' then char_of (of_char c + 32 :: nat) else c)"

fun to_lower :: "string \<Rightarrow> string" where
  "to_lower (c # d # s) =
     (if c = CHR 0xC4 \<and> d = CHR 0xB0 then CHR ''i'' # to_lower s
      else if c = CHR 0xE2 \<and> d = CHR 0x84 \<and> (case s of e # _ \<Rightarrow> e = CHR 0xAA | [] \<Rightarrow> False)
        then CHR ''k'' # to_lower (tl s)
      else lower_char c # to_lower (d # s))"
| "to_lower [c] = [lower_char c]"
| "to_lower [] = []"

fun fold_case :: "string \<Rightarrow> string" where
  "fold_case (c # d # s) =
     (if c = CHR 0xC5 \<and> d = CHR 0xBF then CHR ''s'' # fold_case s
      else if c = CHR 0xE2 \<and> d = CHR 0x84 \<and> (case s of e # _ \<Rightarrow> e = CHR 0xAA | [] \<Rightarrow> False)
        then CHR ''k'' # fold_case (tl s)
      else lower_char c # fold_case (d # s))"
| "fold_case [c] = [lower_char c]"
| "fold_case [] = []"

definition equal_fold :: "string \<Rightarrow> string \<Rightarrow> bool" where
  "equal_fold a b = (fold_case a = fold_case b)"

lemma equal_fold_equiv [simp]:
  "equal_fold a a"
  "equal_fold a b = equal_fold b a \<longleftrightarrow> True"
  by (auto simp: equal_fold_def)

lemma equal_fold_trans: "equal_fold a b \<Longrightarrow> equal_fold b c \<Longrightarrow> equal_fold a c"
  by (simp add: equal_fold_def)

subsection \<open>Facts on strings\<close>

lemma has_prefix_append [simp]: "has_prefix (p @ s) p"
  by (induction p) auto

lemma has_prefix_iff: "has_prefix s p \<longleftrightarrow> (\<exists>r. s = p @ r)"
  by (induction s p rule: has_prefix.induct) auto

lemma has_prefix_contains: "has_prefix s p \<Longrightarrow> contains s p"
  by (cases s; cases p) auto

lemma contains_prefix: "contains (p @ b) p"
  by (simp add: has_prefix_contains)

lemma contains_after: "contains b p \<Longrightarrow> contains (a @ b) p"
  by (induction a) auto

lemma contains_split: "contains s p \<Longrightarrow> \<exists>a b. s = a @ p @ b"
proof (induction s)
  case Nil
  then show ?case by auto
next
  case (Cons c s)
  then consider r where "c # s = p @ r" | a b where "s = a @ p @ b"
    by (auto simp: has_prefix_iff)
  then show ?case
    by cases (metis append_Nil, metis append_Cons)
qed

lemma contains_iff: "contains s p \<longleftrightarrow> (\<exists>a b. s = a @ p @ b)"
  by (auto dest: contains_split intro: contains_after contains_prefix)

lemma contains_char: "contains s [c] \<longleftrightarrow> c \<in> set s"
  by (induction s) auto

lemma trim_prefix_append [simp]: "trim_prefix (p @ s) p = s"
  by (simp add: trim_prefix_def)

lemma cut_prefix_append [simp]: "cut_prefix (p @ s) p = Some s"
  by (simp add: cut_prefix_def)

lemma cut_prefix_Some: "cut_prefix s p = Some r \<longleftrightarrow> s = p @ r"
  by (auto simp: cut_prefix_def has_prefix_iff)

lemma cut_spec:
  "cut sep s = (if sep \<in> set s
     then (takeWhile (\<lambda>c. c \<noteq> sep) s, tl (dropWhile (\<lambda>c. c \<noteq> sep) s), True) else (s, [], False))"
  by (induction s) auto

lemma cut_found: "cut sep s = (a, b, True) \<longleftrightarrow> s = a @ sep # b \<and> sep \<notin> set a"
proof
  assume "cut sep s = (a, b, True)"
  then have *: "sep \<in> set s" "a = takeWhile (\<lambda>c. c \<noteq> sep) s" "b = tl (dropWhile (\<lambda>c. c \<noteq> sep) s)"
    by (auto simp: cut_spec split: if_splits)
  then obtain d ds where d: "dropWhile (\<lambda>c. c \<noteq> sep) s = d # ds"
    by (cases "dropWhile (\<lambda>c. c \<noteq> sep) s") auto
  then have "d = sep" by (simp add: dropWhile_eq_Cons_conv)
  with * d show "s = a @ sep # b \<and> sep \<notin> set a"
    by (metis (mono_tags, lifting) list.sel(3) set_takeWhileD takeWhile_dropWhile_id)
next
  assume "s = a @ sep # b \<and> sep \<notin> set a"
  then have "s = a @ sep # b" "\<And>x. x \<in> set a \<Longrightarrow> x \<noteq> sep" by auto
  then show "cut sep s = (a, b, True)"
    by (simp add: cut_spec takeWhile_append2 dropWhile_append2)
qed

lemma cut_not_found: "cut sep s = (a, b, False) \<longleftrightarrow> sep \<notin> set s \<and> a = s \<and> b = []"
  by (auto simp: cut_spec)

lemma cut_append [simp]: "sep \<notin> set a \<Longrightarrow> cut sep (a @ sep # b) = (a, b, True)"
  by (simp add: cut_found)

lemma split_on_nonempty [simp]: "split_on sep s \<noteq> []"
  by (induction s) (auto split: list.splits)

section \<open>Base64\<close>

text \<open>\<open>base64.RawURLEncoding\<close> (no padding, the URL alphabet) to write, \<open>base64.StdEncoding\<close> and
  \<open>RawURLEncoding\<close> to read. Reading passes over carriage returns and line feeds, as Go does.\<close>

definition std_alphabet :: string where
  "std_alphabet = ''ABCDEFGHIJKLMNOPQRSTUVWXYZabcdefghijklmnopqrstuvwxyz0123456789+/''"

definition url_alphabet :: string where
  "url_alphabet = ''ABCDEFGHIJKLMNOPQRSTUVWXYZabcdefghijklmnopqrstuvwxyz0123456789-_''"

fun b64_encode :: "string \<Rightarrow> nat list \<Rightarrow> string" where
  "b64_encode al (a # b # c # r) =
     [al ! (a div 4), al ! (a mod 4 * 16 + b div 16), al ! (b mod 16 * 4 + c div 64), al ! (c mod 64)] @ b64_encode al r"
| "b64_encode al [a, b] = [al ! (a div 4), al ! (a mod 4 * 16 + b div 16), al ! (b mod 16 * 4)]"
| "b64_encode al [a] = [al ! (a div 4), al ! (a mod 4 * 16)]"
| "b64_encode al [] = []"

definition raw_url_encode :: "string \<Rightarrow> string" where
  "raw_url_encode s = b64_encode url_alphabet (map of_char s)"

text \<open>\<open>StdEncoding\<close>: the other alphabet, padded to whole groups.\<close>

definition std_encode :: "string \<Rightarrow> string" where
  "std_encode s = (let t = b64_encode std_alphabet (map of_char s) in t @ replicate ((4 - length t mod 4) mod 4) (CHR ''=''))"

text \<open>\<open>RawURLEncoding.EncodedLen\<close>.\<close>

definition raw_url_len :: "nat \<Rightarrow> nat" where
  "raw_url_len n = n div 3 * 4 + (n mod 3 * 8 + 5) div 6"

definition digit_of :: "string \<Rightarrow> char \<Rightarrow> nat option" where
  "digit_of al c = (if c \<in> set al then Some (length (takeWhile (\<lambda>d. d \<noteq> c) al)) else None)"

fun b64_groups :: "nat list \<Rightarrow> string option" where
  "b64_groups (a # b # c # d # r) =
     map_option (\<lambda>t. map char_of [a * 4 + b div 16, b mod 16 * 16 + c div 4, c mod 4 * 64 + d] @ t) (b64_groups r)"
| "b64_groups [a, b, c] = Some (map char_of [a * 4 + b div 16, b mod 16 * 16 + c div 4])"
| "b64_groups [a, b] = Some [char_of (a * 4 + b div 16)]"
| "b64_groups [a] = None"
| "b64_groups [] = Some []"

definition b64_digits :: "string \<Rightarrow> string \<Rightarrow> nat list option" where
  "b64_digits al s =
     (let ds = map (digit_of al) s in if None \<in> set ds then None else Some (map the ds))"

definition no_line_ends :: "string \<Rightarrow> string" where
  "no_line_ends s = filter (\<lambda>c. c \<noteq> CHR 0x0A \<and> c \<noteq> CHR 0x0D) s"

definition raw_url_decode :: "string \<Rightarrow> string option" where
  "raw_url_decode s = Option.bind (b64_digits url_alphabet (no_line_ends s)) b64_groups"

definition std_decode :: "string \<Rightarrow> string option" where
  "std_decode s =
     (let t = no_line_ends s; d = takeWhile (\<lambda>c. c \<noteq> CHR ''='') t; p = drop (length d) t in
      if length t mod 4 \<noteq> 0 \<or> 2 < length p \<or> list_ex (\<lambda>c. c \<noteq> CHR ''='') p then None
      else Option.bind (b64_digits std_alphabet d) b64_groups)"

lemma length_b64_encode: "length (b64_encode al bs) = raw_url_len (length bs)"
proof (induction al bs rule: b64_encode.induct)
  case (1 al a b c r)
  have "raw_url_len (n + 3) = 4 + raw_url_len n" for n
    using div_add_self2[of 3 n] by (simp add: raw_url_len_def)
  from this[of "length r"] have "raw_url_len (Suc (Suc (Suc (length r)))) = 4 + raw_url_len (length r)"
    by (simp add: numeral_3_eq_3)
  with 1 show ?case by simp
qed (simp_all add: raw_url_len_def)

lemma length_raw_url_encode [simp]: "length (raw_url_encode s) = raw_url_len (length s)"
  by (simp add: raw_url_encode_def length_b64_encode)


text \<open>What is written uses the alphabet alone; a random token holds no space.\<close>

lemma sextets:
  fixes a b c :: nat
  assumes "a < 256" "b < 256" "c < 256"
  shows "a div 4 < 64" "a mod 4 * 16 + b div 16 < 64" "b mod 16 * 4 + c div 64 < 64" "c mod 64 < 64"
    "a mod 4 * 16 < 64" "b mod 16 * 4 < 64"
proof -
  have "a div 4 \<le> 63" "b div 16 \<le> 15" "c div 64 \<le> 3"
    using assms div_le_mono[of a 255 4] div_le_mono[of b 255 16] div_le_mono[of c 255 64] by simp_all
  moreover have "a mod 4 < 4" "b mod 16 < 16" "c mod 64 < 64" by simp_all
  ultimately show "a div 4 < 64" "a mod 4 * 16 + b div 16 < 64" "b mod 16 * 4 + c div 64 < 64" "c mod 64 < 64"
    "a mod 4 * 16 < 64" "b mod 16 * 4 < 64"
    by linarith+
qed

lemma set_b64_encode:
  "length al = 64 \<Longrightarrow> \<forall>b\<in>set bs. b < 256 \<Longrightarrow> set (b64_encode al bs) \<subseteq> set al"
proof (induction al bs rule: b64_encode.induct)
  case (1 al a b c r)
  then show ?case using sextets[of a b c] by simp
next
  case (2 al a b)
  then show ?case using sextets[of a b b] by simp
next
  case (3 al a)
  then show ?case using sextets[of a a a] by simp
qed simp

lemma raw_url_encode_no_space: "CHR '' '' \<notin> set (raw_url_encode s)"
proof -
  have "set (raw_url_encode s) \<subseteq> set url_alphabet"
    unfolding raw_url_encode_def by (rule set_b64_encode) (auto simp: url_alphabet_def of_char_def)
  then show ?thesis by (auto simp: url_alphabet_def)
qed

end
