(* ===== verification/Go_Url.thy ===== *)
theory Go_Url
  imports Go_Lib
begin

text \<open>
  What the source uses of Go's \<open>net/url\<close> and of \<open>net.ParseIP\<close>: parsing an address into its
  parts, reading it back as text, the query escaping and \<open>url.Values\<close>, and which hosts are
  loopback addresses. An error is \<open>None\<close>: the source only passes it on.
\<close>

section \<open>Escaping\<close>

datatype url_mode = Path_Mode | Host_Mode | Zone_Mode | User_Mode | Query_Mode | Fragment_Mode

definition alnum :: "char \<Rightarrow> bool" where
  "alnum c = (let n = of_char c :: nat in 48 \<le> n \<and> n < 58 \<or> 65 \<le> n \<and> n < 91 \<or> 97 \<le> n \<and> n < 123)"

definition should_escape :: "url_mode \<Rightarrow> char \<Rightarrow> bool" where
  "should_escape m c =
     (if alnum c then False
      else if m \<in> {Host_Mode, Zone_Mode} \<and> c \<in> set ''!$&()*+,;=:[]<>'' \<union> {CHR 0x22, CHR 0x27} then False
      else if c \<in> set ''-_.~'' then False
      else if c \<in> set ''$&+,/:;=?@'' then
        (case m of Path_Mode \<Rightarrow> c = CHR ''?'' | User_Mode \<Rightarrow> c \<in> set ''@/?:'' | Query_Mode \<Rightarrow> True
         | Fragment_Mode \<Rightarrow> False | _ \<Rightarrow> True)
      else if m = Fragment_Mode \<and> c \<in> set ''!()*'' then False
      else True)"

definition unhex :: "char \<Rightarrow> nat option" where
  "unhex c =
     (if CHR ''0'' \<le> c \<and> c \<le> CHR ''9'' then Some (of_char c - 48)
      else if CHR ''a'' \<le> c \<and> c \<le> CHR ''f'' then Some (of_char c - 87)
      else if CHR ''A'' \<le> c \<and> c \<le> CHR ''F'' then Some (of_char c - 55) else None)"

definition hex_digit :: "nat \<Rightarrow> char" where
  "hex_digit n = ''0123456789ABCDEF'' ! n"

definition escape_char :: "url_mode \<Rightarrow> char \<Rightarrow> string" where
  "escape_char m c =
     (if m = Query_Mode \<and> c = CHR '' '' then ''+''
      else if should_escape m c then [CHR ''%'', hex_digit (of_char c div 16), hex_digit (of_char c mod 16)]
      else [c])"

definition escape :: "url_mode \<Rightarrow> string \<Rightarrow> string" where
  "escape m s = concat (map (escape_char m) s)"

text \<open>\<open>url.PathEscape\<close>.\<close>

definition path_segment :: "string \<Rightarrow> string" where
  "path_segment s = concat (map (\<lambda>c.
     if alnum c \<or> c \<in> set ''-_.~$&+:=@'' then [c]
     else [CHR ''%'', hex_digit (of_char c div 16), hex_digit (of_char c mod 16)]) s)"

text \<open>Whether a percent-escaped byte may stand in a host: only non-ASCII bytes and the percent
  sign may, and in an IPv6 zone also the space and what a host may hold.\<close>

definition escaped_ok :: "url_mode \<Rightarrow> nat \<Rightarrow> bool" where
  "escaped_ok m v =
     (case m of Host_Mode \<Rightarrow> 128 \<le> v \<or> v = 37
      | Zone_Mode \<Rightarrow> v = 37 \<or> v = 32 \<or> \<not> should_escape Host_Mode (char_of v)
      | _ \<Rightarrow> True)"

fun unescape :: "url_mode \<Rightarrow> string \<Rightarrow> string option" where
  "unescape m [] = Some []"
| "unescape m (c # s) =
     (if c = CHR ''%'' then
        (case s of
           x # y # r \<Rightarrow>
             (case (unhex x, unhex y) of
                (Some a, Some b) \<Rightarrow>
                  if escaped_ok m (16 * a + b)
                  then map_option (\<lambda>t. char_of (16 * a + b) # t) (unescape m r) else None
              | _ \<Rightarrow> None)
         | _ \<Rightarrow> None)
      else if m = Query_Mode \<and> c = CHR ''+'' then map_option (\<lambda>t. CHR '' '' # t) (unescape m s)
      else if m \<in> {Host_Mode, Zone_Mode} \<and> of_char c < (128::nat) \<and> should_escape m c then None
      else map_option (\<lambda>t. c # t) (unescape m s))"

definition valid_encoded :: "url_mode \<Rightarrow> string \<Rightarrow> bool" where
  "valid_encoded m s =
     list_all (\<lambda>c. c \<in> set ''!$&()*+,;=:@[]%'' \<union> {CHR 0x27} \<or> \<not> should_escape m c) s"

section \<open>IP addresses\<close>

definition dec_digit :: "char \<Rightarrow> bool" where
  "dec_digit c = (CHR ''0'' \<le> c \<and> c \<le> CHR ''9'')"

definition dec_value :: "string \<Rightarrow> nat" where
  "dec_value s = foldl (\<lambda>n c. 10 * n + (of_char c - 48)) 0 s"

definition ipv4_field :: "string \<Rightarrow> nat option" where
  "ipv4_field s =
     (if s \<noteq> [] \<and> list_all dec_digit s \<and> (length s = 1 \<or> hd s \<noteq> CHR ''0'') \<and> length s \<le> 3 \<and> dec_value s \<le> 255
      then Some (dec_value s) else None)"

definition parse_ipv4 :: "string \<Rightarrow> nat list option" where
  "parse_ipv4 s =
     (let fs = map ipv4_field (split_on (CHR ''.'') s)
      in if length fs = 4 \<and> None \<notin> set fs then Some (map the fs) else None)"

text \<open>The groups of an IPv6 address from byte \<open>i\<close> on: the bytes read so far, where the \<open>::\<close>
  stood, and the text left. Eight groups at most, so eight rounds are enough.\<close>

definition hex_run :: "string \<Rightarrow> string" where
  "hex_run s = takeWhile (\<lambda>c. unhex c \<noteq> None) s"

definition hex_value :: "string \<Rightarrow> nat" where
  "hex_value s = foldl (\<lambda>n c. 16 * n + the (unhex c)) 0 s"

fun ipv6_groups :: "nat \<Rightarrow> nat list \<Rightarrow> nat option \<Rightarrow> string \<Rightarrow> (nat list \<times> nat option) option" where
  "ipv6_groups 0 out ell s = (if s = [] then Some (out, ell) else None)"
| "ipv6_groups (Suc n) out ell s =
     (let h = hex_run s; r = drop (length h) s in
      if h = [] \<or> 4 < length h then None
      else if r \<noteq> [] \<and> hd r = CHR ''.'' then
        (if (ell = None \<and> length out \<noteq> 12) \<or> 12 < length out then None
         else map_option (\<lambda>v4. (out @ v4, ell)) (parse_ipv4 s))
      else
        (let out' = out @ [hex_value h div 256, hex_value h mod 256] in
         case r of
           [] \<Rightarrow> Some (out', ell)
         | c # r1 \<Rightarrow>
             if c \<noteq> CHR '':'' \<or> r1 = [] then None
             else if hd r1 = CHR '':'' then
               (if ell \<noteq> None then None
                else if tl r1 = [] then Some (out', Some (length out'))
                else ipv6_groups n out' (Some (length out')) (tl r1))
             else ipv6_groups n out' ell r1))"

definition ipv6_fill :: "nat list \<times> nat option \<Rightarrow> nat list option" where
  "ipv6_fill p =
     (case p of (out, ell) \<Rightarrow>
        if length out = 16 then (if ell = None then Some out else None)
        else (case ell of None \<Rightarrow> None
              | Some e \<Rightarrow> Some (take e out @ replicate (16 - length out) 0 @ drop e out)))"

definition parse_ipv6 :: "string \<Rightarrow> nat list option" where
  "parse_ipv6 s =
     (if has_prefix s ''::'' then
        (if s = ''::'' then Some (replicate 16 0)
         else Option.bind (ipv6_groups 8 [] (Some 0) (drop 2 s)) ipv6_fill)
      else Option.bind (ipv6_groups 8 [] None s) ipv6_fill)"

text \<open>\<open>netip.ParseAddr\<close>: the first of \<open>.\<close>, \<open>:\<close> and \<open>%\<close> decides the family. An address is its
  bytes, four or sixteen, with its zone.\<close>

definition parse_addr :: "string \<Rightarrow> (nat list \<times> string) option" where
  "parse_addr s =
     (case first (\<lambda>c. c \<in> set ''.:%'') s of
        None \<Rightarrow> None
      | Some c \<Rightarrow>
          if c = CHR ''.'' then map_option (\<lambda>b. (b, [])) (parse_ipv4 s)
          else if c = CHR '':'' then
            (case cut (CHR ''%'') s of (a, zone, ok) \<Rightarrow>
               if ok \<and> zone = [] then None else map_option (\<lambda>b. (b, zone)) (parse_ipv6 a))
          else None)"

definition parse_ip :: "string \<Rightarrow> nat list option" where
  "parse_ip s = (case parse_addr s of Some (b, []) \<Rightarrow> Some b | _ \<Rightarrow> None)"

definition ip_is_loopback :: "nat list \<Rightarrow> bool" where
  "ip_is_loopback b =
     (if length b = 4 then hd b = 127
      else if take 12 b = replicate 10 0 @ [255, 255] then b ! 12 = 127
      else b = replicate 15 0 @ [1])"

section \<open>Parsing an address\<close>

record url =
  u_scheme :: string
  u_opaque :: string
  u_user :: "(string \<times> string option) option"
  u_host :: string
  u_path :: string
  u_raw_path :: string
  u_omit_host :: bool
  u_force_query :: bool
  u_query :: string
  u_fragment :: string
  u_raw_fragment :: string

definition empty_url :: url where
  "empty_url = \<lparr>u_scheme = [], u_opaque = [], u_user = None, u_host = [], u_path = [], u_raw_path = [],
     u_omit_host = False, u_force_query = False, u_query = [], u_fragment = [], u_raw_fragment = []\<rparr>"

text \<open>The scheme and the rest; \<open>None\<close> when a colon stands first.\<close>

fun get_scheme_from :: "nat \<Rightarrow> string \<Rightarrow> string \<Rightarrow> (string \<times> string) option" where
  "get_scheme_from i raw s =
     (if length s \<le> i then Some ([], s)
      else let c = s ! i in
        if c = CHR '':'' then (if i = 0 then None else Some (take i s, drop (Suc i) s))
        else if (alnum c \<and> \<not> dec_digit c) \<or> (0 < i \<and> (dec_digit c \<or> c \<in> set ''+-.'')) then
          (case raw of [] \<Rightarrow> Some ([], s) | _ # r \<Rightarrow> get_scheme_from (Suc i) r s)
        else Some ([], s))"

definition get_scheme :: "string \<Rightarrow> (string \<times> string) option" where
  "get_scheme s = get_scheme_from 0 s s"

definition valid_optional_port :: "string \<Rightarrow> bool" where
  "valid_optional_port p = (p = [] \<or> hd p = CHR '':'' \<and> list_all dec_digit (tl p))"

text \<open>\<open>strings.LastIndex\<close> of one byte, as the text before it and after it.\<close>

definition last_cut :: "char \<Rightarrow> string \<Rightarrow> (string \<times> string) option" where
  "last_cut sep s =
     (case cut sep (rev s) of (b, a, ok) \<Rightarrow> if ok then Some (rev a, rev b) else None)"

fun index_of :: "string \<Rightarrow> string \<Rightarrow> nat option" where
  "index_of p [] = (if p = [] then Some 0 else None)"
| "index_of p (c # s) = (if has_prefix (c # s) p then Some 0 else map_option Suc (index_of p s))"

definition parse_literal_host :: "string \<Rightarrow> string option" where
  "parse_literal_host host =
     (case last_cut (CHR '']'') (tl host) of
        None \<Rightarrow> None
      | Some (name, port) \<Rightarrow>
          if \<not> valid_optional_port port then None
          else
            (let un = (case index_of ''%25'' name of
                Some z \<Rightarrow> (case (unescape Host_Mode (take z name), unescape Zone_Mode (drop z name)) of
                   (Some a, Some b) \<Rightarrow> Some (a @ b) | _ \<Rightarrow> None)
              | None \<Rightarrow> unescape Host_Mode name)
             in case un of
                  None \<Rightarrow> None
                | Some n \<Rightarrow>
                    (case parse_addr n of
                       Some (b, _) \<Rightarrow> if length b = 4 then None else Some (''['' @ n @ '']'' @ port)
                     | None \<Rightarrow> None)))"

definition parse_host :: "string \<Rightarrow> string option" where
  "parse_host host =
     (if has_prefix host ''['' then
        (if CHR ''['' \<in> set (tl host) then None else parse_literal_host host)
      else if CHR ''['' \<in> set host then None
      else
        (case cut (CHR '':'') host of (a, port, ok) \<Rightarrow>
           if ok \<and> \<not> list_all dec_digit port then None else unescape Host_Mode host))"

definition valid_userinfo :: "string \<Rightarrow> bool" where
  "valid_userinfo s = list_all (\<lambda>c. alnum c \<or> c \<in> set ''-._:~!$&()*+,;=%@'' \<union> {CHR 0x27}) s"

definition parse_user :: "string \<Rightarrow> (string \<times> string option) option" where
  "parse_user s =
     (if \<not> valid_userinfo s then None
      else (case cut (CHR '':'') s of (n, p, ok) \<Rightarrow>
        (case (unescape User_Mode n, unescape User_Mode p) of
           (Some n', Some p') \<Rightarrow> Some (n', if ok then Some p' else None)
         | _ \<Rightarrow> None)))"

definition with_authority :: "string \<Rightarrow> url \<Rightarrow> url option" where
  "with_authority a u =
     (case last_cut (CHR ''@'') a of
        None \<Rightarrow> map_option (\<lambda>h. u\<lparr>u_host := h\<rparr>) (parse_host a)
      | Some (user, host) \<Rightarrow>
          (case (parse_host host, parse_user user) of
             (Some h, Some p) \<Rightarrow> Some (u\<lparr>u_host := h, u_user := Some p\<rparr>)
           | _ \<Rightarrow> None))"

definition with_path :: "string \<Rightarrow> url \<Rightarrow> url option" where
  "with_path p u =
     map_option (\<lambda>q. u\<lparr>u_path := q, u_raw_path := (if escape Path_Mode q = p then [] else p)\<rparr>)
       (unescape Path_Mode p)"

definition parse_rest :: "string \<Rightarrow> url \<Rightarrow> url option" where
  "parse_rest rest u =
     (if \<not> has_prefix rest ''/'' \<and> u_scheme u \<noteq> [] then Some (u\<lparr>u_opaque := rest\<rparr>)
      else if \<not> has_prefix rest ''/'' \<and> CHR '':'' \<in> set (fst (cut (CHR ''/'') rest)) then None
      else if (u_scheme u \<noteq> [] \<or> \<not> has_prefix rest ''///'') \<and> has_prefix rest ''//'' then
        (let a = takeWhile (\<lambda>c. c \<noteq> CHR ''/'') (drop 2 rest); p = drop (length a + 2) rest
         in Option.bind (with_authority a u) (with_path p))
      else with_path rest (if u_scheme u \<noteq> [] \<and> has_prefix rest ''/'' then u\<lparr>u_omit_host := True\<rparr> else u))"

definition with_fragment :: "string \<Rightarrow> url \<Rightarrow> url option" where
  "with_fragment frag u =
     map_option (\<lambda>f. u\<lparr>u_fragment := f, u_raw_fragment := (if escape Fragment_Mode f = frag then [] else frag)\<rparr>)
       (unescape Fragment_Mode frag)"

definition parse_url :: "string \<Rightarrow> url option" where
  "parse_url raw =
     (case cut (CHR ''#'') raw of (s, frag, _) \<Rightarrow>
        if list_ex (\<lambda>c. of_char c < (32::nat) \<or> c = CHR 0x7F) s then None
        else if s = ''*'' then with_fragment frag (empty_url\<lparr>u_path := ''*''\<rparr>)
        else
          (case get_scheme s of
             None \<Rightarrow> None
           | Some (scheme, rest) \<Rightarrow>
               (case cut (CHR ''?'') rest of (r, q, ok) \<Rightarrow>
                  (case parse_rest r (empty_url\<lparr>u_scheme := to_lower scheme, u_query := q,
                      u_force_query := (ok \<and> q = [])\<rparr>) of
                     None \<Rightarrow> None
                   | Some u \<Rightarrow> with_fragment frag u))))"

text \<open>The scheme is present, the host's name without its port, and the path as it was written.\<close>

definition url_is_abs :: "url \<Rightarrow> bool" where
  "url_is_abs u = (u_scheme u \<noteq> [])"

definition url_hostname :: "url \<Rightarrow> string" where
  "url_hostname u =
     (let h = (case last_cut (CHR '':'') (u_host u) of
           Some (n, p) \<Rightarrow> if list_all dec_digit p then n else u_host u | None \<Rightarrow> u_host u)
      in if has_prefix h ''['' \<and> has_suffix h '']'' then butlast (tl h) else h)"

definition escaped_path :: "url \<Rightarrow> string" where
  "escaped_path u =
     (if u_raw_path u \<noteq> [] \<and> valid_encoded Path_Mode (u_raw_path u)
         \<and> unescape Path_Mode (u_raw_path u) = Some (u_path u) then u_raw_path u
      else if u_path u = ''*'' then ''*'' else escape Path_Mode (u_path u))"

section \<open>Queries\<close>

text \<open>\<open>url.Values\<close>: the values of each key, in the order the keys were first put there.\<close>

type_synonym url_values = "(string \<times> string list) list"

definition values_of :: "url_values \<Rightarrow> string \<Rightarrow> string list" where
  "values_of vs k = (case map_of vs k of Some xs \<Rightarrow> xs | None \<Rightarrow> [])"

definition values_get :: "url_values \<Rightarrow> string \<Rightarrow> string" where
  "values_get vs k = (case values_of vs k of x # _ \<Rightarrow> x | [] \<Rightarrow> [])"

fun values_put :: "string \<Rightarrow> (string list \<Rightarrow> string list) \<Rightarrow> url_values \<Rightarrow> url_values" where
  "values_put k f [] = [(k, f [])]"
| "values_put k f ((j, xs) # vs) = (if j = k then (k, f xs) # vs else (j, xs) # values_put k f vs)"

definition values_set :: "string \<Rightarrow> string \<Rightarrow> url_values \<Rightarrow> url_values" where
  "values_set k v = values_put k (\<lambda>_. [v])"

definition values_add :: "string \<Rightarrow> string \<Rightarrow> url_values \<Rightarrow> url_values" where
  "values_add k v = values_put k (\<lambda>xs. xs @ [v])"

text \<open>\<open>Values.Encode\<close>: the keys in order, each with its values.\<close>

definition encode_pairs :: "url_values \<Rightarrow> (string \<times> string) list" where
  "encode_pairs vs = concat (map (\<lambda>(k, xs). map (Pair k) xs) (sort_key fst vs))"

definition encode_pair :: "string \<times> string \<Rightarrow> string" where
  "encode_pair p = escape Query_Mode (fst p) @ ''='' @ escape Query_Mode (snd p)"

definition values_encode :: "url_values \<Rightarrow> string" where
  "values_encode vs = join ''&'' (map encode_pair (encode_pairs vs))"

text \<open>\<open>url.ParseQuery\<close> as \<open>URL.Query\<close> uses it: a pair that does not parse is left out.\<close>

definition parse_pair :: "string \<Rightarrow> (string \<times> string) option" where
  "parse_pair s =
     (if CHR '';'' \<in> set s \<or> s = [] then None
      else (case cut (CHR ''='') s of (k, v, _) \<Rightarrow>
        (case (unescape Query_Mode k, unescape Query_Mode v) of (Some k', Some v') \<Rightarrow> Some (k', v') | _ \<Rightarrow> None)))"

definition collect_values :: "(string \<times> string) list \<Rightarrow> url_values" where
  "collect_values ps = foldl (\<lambda>vs (k, v). values_add k v vs) [] ps"

definition query_pairs :: "string \<Rightarrow> (string \<times> string) list" where
  "query_pairs q = List.map_filter parse_pair (split_on (CHR ''&'') q)"

definition parse_query :: "string \<Rightarrow> url_values" where
  "parse_query q = collect_values (query_pairs q)"

text \<open>\<open>url.ParseQuery\<close> where its error is looked at.\<close>

definition query_ok :: "string \<Rightarrow> bool" where
  "query_ok q = list_all (\<lambda>s. s = [] \<or> parse_pair s \<noteq> None) (split_on (CHR ''&'') q)"

section \<open>An address as text\<close>

definition userinfo_string :: "string \<times> string option \<Rightarrow> string" where
  "userinfo_string u =
     escape User_Mode (fst u) @ (case snd u of Some p \<Rightarrow> '':'' @ escape User_Mode p | None \<Rightarrow> [])"

definition escaped_fragment :: "url \<Rightarrow> string" where
  "escaped_fragment u =
     (if u_raw_fragment u \<noteq> [] \<and> valid_encoded Fragment_Mode (u_raw_fragment u)
         \<and> unescape Fragment_Mode (u_raw_fragment u) = Some (u_fragment u) then u_raw_fragment u
      else escape Fragment_Mode (u_fragment u))"

definition url_string :: "url \<Rightarrow> string" where
  "url_string u =
     (let scheme = (if u_scheme u \<noteq> [] then u_scheme u @ '':'' else []);
          authority = (if (u_scheme u \<noteq> [] \<or> u_host u \<noteq> [] \<or> u_user u \<noteq> None)
              \<and> \<not> (u_omit_host u \<and> u_host u = [] \<and> u_user u = None)
            then (if u_host u \<noteq> [] \<or> u_path u \<noteq> [] \<or> u_user u \<noteq> None then ''//'' else [])
              @ (case u_user u of Some ui \<Rightarrow> userinfo_string ui @ ''@'' | None \<Rightarrow> [])
              @ (if u_host u \<noteq> [] then escape Host_Mode (u_host u) else [])
            else []);
          path = escaped_path u;
          front = scheme @ authority;
          slash = (if path \<noteq> [] \<and> hd path \<noteq> CHR ''/'' \<and> u_host u \<noteq> [] then ''/'' else []);
          dot = (if front @ slash = [] \<and> CHR '':'' \<in> set (fst (cut (CHR ''/'') path)) then ''./'' else []);
          body = (if u_opaque u \<noteq> [] then scheme @ u_opaque u else front @ slash @ dot @ path)
      in body @ (if u_force_query u \<or> u_query u \<noteq> [] then ''?'' @ u_query u else [])
           @ (if u_fragment u \<noteq> [] then ''#'' @ escaped_fragment u else []))"

section \<open>Facts on queries\<close>


lemma hex_digit_nat: "n < 16 \<Longrightarrow> unhex (hex_digit n) = Some n"
proof -
  assume "n < 16"
  then have "n \<in> {0,1,2,3,4,5,6,7,8,9,10,11,12,13,14,15}" by (simp, presburger)
  then show ?thesis by (elim insertE) (simp_all add: hex_digit_def unhex_def less_eq_char_def)
qed

lemma hex_digit_plain: "n < 16 \<Longrightarrow> alnum (hex_digit n)"
proof -
  assume "n < 16"
  then have "n \<in> {0,1,2,3,4,5,6,7,8,9,10,11,12,13,14,15}" by (simp, presburger)
  then show ?thesis by (elim insertE) (simp_all add: hex_digit_def alnum_def)
qed

lemma unescape_escape_char:
  "unescape Query_Mode (escape_char Query_Mode c @ s) = map_option (Cons c) (unescape Query_Mode s)"
proof -
  have b: "of_char c < (256::nat)" by (rule nat_of_char_less_256)
  then have "of_char c div 16 < (16::nat)" "of_char c mod 16 < (16::nat)" by (auto simp: less_mult_imp_div_less)
  then have h: "unhex (hex_digit (of_char c div 16)) = Some (of_char c div 16)"
    "unhex (hex_digit (of_char c mod 16)) = Some (of_char c mod 16)"
    by (simp_all add: hex_digit_nat)
  have c: "char_of (16 * (of_char c div 16) + of_char c mod 16 :: nat) = c" by simp
  have esc: "should_escape Query_Mode (CHR ''%'')" "should_escape Query_Mode (CHR ''+'')"
    by (simp_all add: should_escape_def alnum_def)
  show ?thesis
    using h c esc by (auto simp: escape_char_def escaped_ok_def)
qed

lemma unescape_escape [simp]: "unescape Query_Mode (escape Query_Mode s) = Some s"
  by (induction s) (simp_all add: escape_def unescape_escape_char)

text \<open>What is escaped holds none of the marks that part a query.\<close>

lemma escape_char_plain: "x \<in> set (escape_char Query_Mode c) \<Longrightarrow> x \<notin> {CHR ''&'', CHR ''='', CHR '';''}"
proof -
  assume x: "x \<in> set (escape_char Query_Mode c)"
  have "of_char c < (256::nat)" by (rule nat_of_char_less_256)
  then have "of_char c div 16 < (16::nat)" "of_char c mod 16 < (16::nat)" by (auto simp: less_mult_imp_div_less)
  note h = this[THEN hex_digit_plain]
  have bad: "\<not> alnum (CHR ''&'')" "\<not> alnum (CHR ''='')" "\<not> alnum (CHR '';'')" by (simp_all add: alnum_def)
  have esc: "should_escape Query_Mode (CHR ''&'')" "should_escape Query_Mode (CHR ''='')" "should_escape Query_Mode (CHR '';'')"
    by (simp_all add: should_escape_def alnum_def)
  consider "x = CHR ''+''" | "x = CHR ''%''" | "alnum x" | "\<not> should_escape Query_Mode x"
    using x h by (auto simp: escape_char_def split: if_splits)
  then show ?thesis using bad esc by cases auto
qed

lemma escape_plain: "x \<in> set (escape Query_Mode s) \<Longrightarrow> x \<notin> {CHR ''&'', CHR ''='', CHR '';''}"
proof -
  assume "x \<in> set (escape Query_Mode s)"
  then obtain c where "x \<in> set (escape_char Query_Mode c)" by (auto simp: escape_def)
  then show ?thesis by (rule escape_char_plain)
qed

lemma parse_encode_pair: "parse_pair (encode_pair p) = Some p"
proof -
  have "CHR '';'' \<notin> set (encode_pair p)" using escape_plain by (auto simp: encode_pair_def)
  moreover have "CHR ''='' \<notin> set (escape Query_Mode (fst p))" using escape_plain by blast
  ultimately show ?thesis by (simp add: parse_pair_def encode_pair_def)
qed

lemma split_on_append: "sep \<notin> set a \<Longrightarrow> split_on sep (a @ sep # s) = a # split_on sep s"
  by (induction a) auto

lemma split_on_join:
  "ps \<noteq> [] \<Longrightarrow> \<forall>p\<in>set ps. sep \<notin> set p \<Longrightarrow> split_on sep (join [sep] ps) = ps"
proof (induction ps rule: induct_list012)
  case (2 x)
  have "split_on sep x = [x]" if "sep \<notin> set x" for x
    using that by (induction x) auto
  with 2 show ?case by simp
qed (simp_all add: split_on_append)

lemma map_filter_all: "\<forall>x\<in>set xs. f (g x) = Some x \<Longrightarrow> List.map_filter f (map g xs) = xs"
  by (induction xs) (simp_all add: map_filter_simps)

lemma query_pairs_encode: "query_pairs (join ''&'' (map encode_pair ps)) = ps"
proof (cases "ps = []")
  case True
  then show ?thesis by (simp add: query_pairs_def map_filter_simps parse_pair_def)
next
  case False
  have "\<forall>p\<in>set (map encode_pair ps). CHR ''&'' \<notin> set p"
    using escape_plain by (fastforce simp: encode_pair_def)
  with False have "split_on (CHR ''&'') (join ''&'' (map encode_pair ps)) = map encode_pair ps"
    by (intro split_on_join) simp_all
  then show ?thesis by (simp add: query_pairs_def map_filter_all parse_encode_pair)
qed

text \<open>Values as a map: what setting one key and collecting pairs do to each key's values.\<close>

lemma values_of_put [simp]:
  "values_of (values_put k f vs) j = (if j = k then f (values_of vs k) else values_of vs j)"
  by (induction vs) (auto simp: values_of_def)

lemma values_of_set [simp]: "values_of (values_set k v vs) j = (if j = k then [v] else values_of vs j)"
  by (simp add: values_set_def)

lemma collect_from: "values_of (foldl (\<lambda>vs (k, v). values_add k v vs) vs ps) j = values_of vs j @ map snd (filter (\<lambda>p. fst p = j) ps)"
  by (induction ps arbitrary: vs) (auto simp: values_add_def)

lemma values_of_collect: "values_of (collect_values ps) j = map snd (filter (\<lambda>p. fst p = j) ps)"
  by (simp add: collect_values_def collect_from) (simp add: values_of_def)

lemma keys_put: "fst ` set (values_put k f vs) = insert k (fst ` set vs)"
proof (induction vs)
  case (Cons p vs)
  then show ?case by (cases p) (simp add: insert_commute)
qed simp

lemma distinct_put: "distinct (map fst vs) \<Longrightarrow> distinct (map fst (values_put k f vs))"
proof (induction vs)
  case (Cons p vs)
  then show ?case using keys_put[of k f vs] by (cases p) (auto simp: image_iff)
qed simp

lemma distinct_collect_from: "distinct (map fst vs) \<Longrightarrow> distinct (map fst (foldl (\<lambda>vs (k, v). values_add k v vs) vs ps))"
  by (induction ps arbitrary: vs) (auto simp: values_add_def distinct_put)

lemma distinct_collect [simp]: "distinct (map fst (collect_values ps))"
  unfolding collect_values_def by (rule distinct_collect_from) simp

lemma distinct_set_values [simp]: "distinct (map fst vs) \<Longrightarrow> distinct (map fst (values_set k v vs))"
  by (simp add: values_set_def distinct_put)

lemma values_of_pairs:
  "distinct (map fst vs) \<Longrightarrow> map snd (filter (\<lambda>p. fst p = j) (concat (map (\<lambda>(k, xs). map (Pair k) xs) vs))) = values_of vs j"
proof (induction vs)
  case Nil
  then show ?case by (simp add: values_of_def)
next
  case (Cons p vs)
  obtain k xs where p: "p = (k, xs)" by fastforce
  have other: "map snd (filter (\<lambda>p. fst p = j) (concat (map (\<lambda>(k, xs). map (Pair k) xs) vs))) = []" if "j \<notin> fst ` set vs"
    using that by (force simp: filter_empty_conv)
  have none: "values_of vs j = []" if "j \<notin> fst ` set vs"
    using that by (auto simp: values_of_def map_of_eq_None_iff[THEN iffD2])
  show ?case
    using Cons other none by (cases "j = k") (auto simp: p values_of_def filter_map comp_def)
qed

lemma values_of_sort: "distinct (map fst vs) \<Longrightarrow> values_of (sort_key fst vs) j = values_of vs j"
proof -
  assume "distinct (map fst vs)"
  then have "map_of (sort_key fst vs) = map_of vs"
    by (subst map_of_inject_set) (simp_all add: distinct_map)
  then show ?thesis by (simp add: values_of_def)
qed

text \<open>A query written by \<open>Encode\<close> reads back with the values of each key.\<close>

lemma parse_values_encode:
  "distinct (map fst vs) \<Longrightarrow> values_of (parse_query (values_encode vs)) j = values_of vs j"
  using values_of_pairs[of "sort_key fst vs" j]
  by (simp add: parse_query_def values_encode_def query_pairs_encode values_of_collect encode_pairs_def values_of_sort distinct_map)

lemma distinct_parse_query [simp]: "distinct (map fst (parse_query q))"
  by (simp add: parse_query_def)

end
