(* ===== verification/Registry.thy ===== *)
theory Registry
  imports Go_Url "HOL-Library.AList"
begin

text \<open>
  The client registry, \<open>src/registry/registry.go\<close>: the rows of the document, their validation at
  load, and what the rest of the service asks of the loaded registry (who a client is, which
  scopes it may have toward an audience, where a sign-in may return).

  A Go map is the list of its entries; a load refuses duplicate ids, so the keys are distinct and
  no answer but the wording of one load error depends on the order. Decoding YAML is outside the
  repository: \<open>load\<close> takes the decoder as an argument, and a secret_resolver that answers a secret.
\<close>

section \<open>Rows\<close>

definition client_confidential :: string where "client_confidential = ''confidential''"
definition client_public :: string where "client_public = ''public''"
definition kind_ai_app :: string where "kind_ai_app = ''ai_app''"

definition claim_name :: string where "claim_name = ''name''"
definition claim_given_name :: string where "claim_given_name = ''given_name''"
definition claim_family_name :: string where "claim_family_name = ''family_name''"
definition claim_serial_number :: string where "claim_serial_number = ''serial_number''"

definition known_claims :: "string list" where
  "known_claims = [claim_name, claim_given_name, claim_family_name, claim_serial_number]"

record grant =
  g_audience :: string
  g_scopes :: "string list"
  g_assistant_levels :: "string list"

record client =
  c_id :: string
  c_secret_ref :: string
  c_enabled :: bool
  c_grants :: "grant list"
  c_act_from :: "string list"

record sign_in_client =
  si_id :: string
  si_enabled :: bool
  si_kind :: string
  si_type :: string
  si_secret_ref :: string
  si_audience :: string
  si_scopes :: "string list"
  si_membership_required :: "bool option"
  si_baseline_scopes :: "string list"
  si_claims :: "string list"
  si_methods :: "string list"
  si_signing :: bool
  si_single_sign_on :: bool
  si_client_name :: string
  si_logo_uri :: string
  si_redirect_uris :: "string list"
  si_post_logout_uris :: "string list"
  si_backchannel_uri :: string

record document =
  service_clients :: "client list"
  sign_in_clients :: "sign_in_client list"

record registry =
  clients :: "(string \<times> client) list"
  sign_ins :: "(string \<times> sign_in_client) list"
  secrets :: "(string \<times> string) list"

section \<open>Errors\<close>

datatype addr_error =
    Bad_Address
  | Not_Absolute
  | Has_Fragment
  | Has_User
  | Has_Query
  | Http_Not_Loopback
  | Scheme_Not_Allowed string

datatype registry_error =
    Parse_Error
  | Empty_Id
  | No_Secret_Ref string
  | Empty_Grant_Audience string
  | Two_Grants string string
  | Bad_Grant_Scope string string string
  | Level_Not_Level string string string
  | Level_Not_Granted string string string
  | Empty_Act_From string
  | Duplicate_Client string
  | Unresolved_Secret string string
  | Empty_Sign_In_Id
  | Public_With_Secret string
  | Bad_Type string string
  | No_Audience string
  | No_Redirects string
  | Baseline_Never_Applies string
  | Signing_Single_Sign_On string
  | Unknown_Claim string string
  | Bad_Redirect string string addr_error
  | Bad_Post_Logout string string addr_error
  | Bad_Backchannel string string addr_error
  | Bad_Logo string string addr_error
  | Scopes_Not_Ai_App string
  | Bad_Kind string string
  | Ai_App_Not_Public string
  | Ai_App_Takes_None string
  | Ai_App_Bad_Audience string string addr_error
  | Ai_App_No_Scopes string
  | Ai_App_Bad_Scope string string
  | Duplicate_Sign_In string
  | Both_Sections string
  | Id_Is_Audience string
  | Unknown_Client
  | Bad_Secret
  | Grant_Denied string
  | Unknown_Sign_In_Client
  | Redirect_Not_Allowed string

section \<open>Boxes, levels and addresses\<close>

definition is_box :: "string \<Rightarrow> bool" where
  "is_box s =
     (case cut (CHR '':'') s of (grp, act, ok) \<Rightarrow>
        ok \<and> act \<noteq> [] \<and> contains grp ''/'' \<and> \<not> has_prefix grp ''/'' \<and> \<not> has_suffix grp ''/'' \<and> \<not> has_space s)"

definition is_level :: "string \<Rightarrow> bool" where
  "is_level s =
     (case cut (CHR '':'') s of (grp, level, ok) \<Rightarrow>
        ok \<and> grp \<noteq> [] \<and> level \<noteq> [] \<and> \<not> contains level '':'' \<and> \<not> contains s ''/'' \<and> \<not> has_space s)"

definition is_loopback :: "string \<Rightarrow> bool" where
  "is_loopback host =
     (if equal_fold host ''localhost'' then True
      else (case parse_ip host of Some ip \<Rightarrow> ip_is_loopback ip | None \<Rightarrow> False))"

definition check_loopback_or_https :: "string \<Rightarrow> addr_error option" where
  "check_loopback_or_https raw =
     (case parse_url raw of
        None \<Rightarrow> Some Bad_Address
      | Some u \<Rightarrow>
          if \<not> url_is_abs u \<or> u_host u = [] then Some Not_Absolute
          else if u_fragment u \<noteq> [] \<or> contains raw ''#'' then Some Has_Fragment
          else if u_user u \<noteq> None then Some Has_User
          else if u_scheme u = ''https'' then None
          else if u_scheme u = ''http'' then
            (if is_loopback (url_hostname u) then None else Some Http_Not_Loopback)
          else Some (Scheme_Not_Allowed (u_scheme u)))"

definition check_resource :: "string \<Rightarrow> addr_error option" where
  "check_resource raw =
     or_err (check_loopback_or_https raw)
       (case parse_url raw of Some u \<Rightarrow> fail_if (u_query u \<noteq> []) Has_Query | None \<Rightarrow> None)"

definition check_address :: "string \<Rightarrow> bool \<Rightarrow> addr_error option" where
  "check_address raw http_allowed =
     (case parse_url raw of
        None \<Rightarrow> Some Bad_Address
      | Some u \<Rightarrow>
          if \<not> url_is_abs u \<or> u_host u = [] then Some Not_Absolute
          else if u_fragment u \<noteq> [] \<or> contains raw ''#'' then Some Has_Fragment
          else if u_scheme u \<noteq> ''https'' \<and> (u_scheme u \<noteq> ''http'' \<or> \<not> http_allowed)
            then Some (Scheme_Not_Allowed (u_scheme u))
          else None)"

definition same_resource :: "string \<Rightarrow> string \<Rightarrow> bool" where
  "same_resource registered named =
     (case (parse_url registered, parse_url named) of
        (Some r, Some n) \<Rightarrow>
          \<not> (u_query n \<noteq> [] \<or> u_fragment n \<noteq> [] \<or> contains named ''#'' \<or> u_user n \<noteq> None)
          \<and> equal_fold (u_scheme r) (u_scheme n) \<and> equal_fold (u_host r) (u_host n)
          \<and> escaped_path r = escaped_path n \<and> u_user r = None
      | _ \<Rightarrow> False)"

section \<open>Validation of one row\<close>

fun validate_grants :: "string \<Rightarrow> grant list \<Rightarrow> grant list \<Rightarrow> registry_error option" where
  "validate_grants cid seen [] = None"
| "validate_grants cid seen (g # gs) =
     (let aud = g_audience g in
      or_err (fail_if (aud = []) (Empty_Grant_Audience cid))
     (or_err (fail_if (\<exists>o'\<in>set seen. g_audience o' = aud) (Two_Grants cid aud))
     (or_err (first_err (\<lambda>s. fail_if (\<not> is_box s \<and> \<not> is_level s) (Bad_Grant_Scope cid aud s)) (g_scopes g))
     (or_err (first_err (\<lambda>s. or_err (fail_if (\<not> is_level s) (Level_Not_Level cid aud s))
                                   (fail_if (s \<notin> set (g_scopes g)) (Level_Not_Granted cid aud s)))
               (g_assistant_levels g))
       (validate_grants cid (seen @ [g]) gs)))))"

definition validate_client :: "client \<Rightarrow> registry_error option" where
  "validate_client c =
     or_err (fail_if (c_id c = []) Empty_Id)
    (or_err (fail_if (c_enabled c \<and> c_secret_ref c = []) (No_Secret_Ref (c_id c)))
    (or_err (validate_grants (c_id c) [] (c_grants c))
      (fail_if ([] \<in> set (c_act_from c)) (Empty_Act_From (c_id c)))))"

definition at_row :: "(addr_error \<Rightarrow> registry_error) \<Rightarrow> addr_error option \<Rightarrow> registry_error option" where
  "at_row f e = map_option f e"

definition validate_ai_app :: "sign_in_client \<Rightarrow> registry_error option" where
  "validate_ai_app c =
     (let i = si_id c in
      or_err (fail_if (si_type c \<noteq> client_public) (Ai_App_Not_Public i))
     (or_err (fail_if (si_claims c \<noteq> [] \<or> si_signing c \<or> si_single_sign_on c \<or> si_baseline_scopes c \<noteq> []
                 \<or> si_membership_required c = Some False) (Ai_App_Takes_None i))
     (or_err (at_row (Ai_App_Bad_Audience i (si_audience c)) (check_resource (si_audience c)))
     (or_err (first_err (\<lambda>u. at_row (Bad_Redirect i u) (check_loopback_or_https u)) (si_redirect_uris c))
     (or_err (fail_if (si_scopes c = []) (Ai_App_No_Scopes i))
       (first_err (\<lambda>s. fail_if (\<not> is_box s) (Ai_App_Bad_Scope i s)) (si_scopes c)))))))"

definition validate_type :: "sign_in_client \<Rightarrow> registry_error option" where
  "validate_type c =
     (if si_type c = client_confidential then
        fail_if (si_enabled c \<and> si_secret_ref c = []) (No_Secret_Ref (si_id c))
      else if si_type c = client_public then
        fail_if (si_secret_ref c \<noteq> []) (Public_With_Secret (si_id c))
      else Some (Bad_Type (si_id c) (si_type c)))"

definition validate_addresses :: "sign_in_client \<Rightarrow> registry_error option" where
  "validate_addresses c =
     (let i = si_id c; confidential = (si_type c = client_confidential) in
      or_err (first_err (\<lambda>u. at_row (Bad_Redirect i u) (check_address u True)) (si_redirect_uris c))
     (or_err (first_err (\<lambda>u. at_row (Bad_Post_Logout i u) (check_address u confidential)) (si_post_logout_uris c))
     (or_err (if si_backchannel_uri c \<noteq> []
              then at_row (Bad_Backchannel i (si_backchannel_uri c)) (check_address (si_backchannel_uri c) confidential)
              else None)
       (if si_logo_uri c \<noteq> [] then at_row (Bad_Logo i (si_logo_uri c)) (check_address (si_logo_uri c) False)
        else None))))"

definition validate_kind :: "sign_in_client \<Rightarrow> registry_error option" where
  "validate_kind c =
     (if si_kind c = [] then fail_if (si_scopes c \<noteq> []) (Scopes_Not_Ai_App (si_id c))
      else if si_kind c = kind_ai_app then validate_ai_app c
      else Some (Bad_Kind (si_id c) (si_kind c)))"

definition validate_sign_in_client :: "sign_in_client \<Rightarrow> registry_error option" where
  "validate_sign_in_client c =
     (let i = si_id c in
      or_err (fail_if (i = []) Empty_Sign_In_Id)
     (or_err (validate_type c)
     (or_err (fail_if (si_audience c = []) (No_Audience i))
     (or_err (fail_if (si_enabled c \<and> si_redirect_uris c = []) (No_Redirects i))
     (or_err (fail_if (si_baseline_scopes c \<noteq> [] \<and> si_membership_required c = Some True) (Baseline_Never_Applies i))
     (or_err (fail_if (si_signing c \<and> si_single_sign_on c) (Signing_Single_Sign_On i))
     (or_err (first_err (\<lambda>k. fail_if (k \<notin> set known_claims) (Unknown_Claim i k)) (si_claims c))
     (or_err (validate_addresses c)
       (validate_kind c)))))))))"


section \<open>Loading a document\<close>

type_synonym secret_resolver = "string \<Rightarrow> string \<Rightarrow> string + string"

definition empty_registry :: registry where
  "empty_registry = \<lparr>clients = [], sign_ins = [], secrets = []\<rparr>"

text \<open>Resolving a row's secret: nothing when the row needs none or no secret_resolver is given.\<close>

definition resolve_secret :: "secret_resolver option \<Rightarrow> bool \<Rightarrow> string \<Rightarrow> string \<Rightarrow> registry \<Rightarrow> registry_error + registry" where
  "resolve_secret resolve needed cid ref r =
     (case resolve of
        None \<Rightarrow> Inr r
      | Some f \<Rightarrow>
          if needed then
            (case f cid ref of
               Inl e \<Rightarrow> Inl (Unresolved_Secret cid e)
             | Inr s \<Rightarrow> Inr (r\<lparr>secrets := AList.update cid s (secrets r)\<rparr>))
          else Inr r)"

fun load_clients :: "secret_resolver option \<Rightarrow> client list \<Rightarrow> registry \<Rightarrow> registry_error + registry" where
  "load_clients resolve [] r = Inr r"
| "load_clients resolve (c # cs) r =
     (case validate_client c of
        Some e \<Rightarrow> Inl e
      | None \<Rightarrow>
          if map_of (clients r) (c_id c) \<noteq> None then Inl (Duplicate_Client (c_id c))
          else
            (case resolve_secret resolve (c_enabled c) (c_id c) (c_secret_ref c)
                (r\<lparr>clients := put_new (c_id c) c (clients r)\<rparr>) of
               Inl e \<Rightarrow> Inl e
             | Inr r' \<Rightarrow> load_clients resolve cs r'))"

fun load_sign_ins :: "secret_resolver option \<Rightarrow> sign_in_client list \<Rightarrow> registry \<Rightarrow> registry_error + registry" where
  "load_sign_ins resolve [] r = Inr r"
| "load_sign_ins resolve (c # cs) r =
     (case validate_sign_in_client c of
        Some e \<Rightarrow> Inl e
      | None \<Rightarrow>
          if map_of (sign_ins r) (si_id c) \<noteq> None then Inl (Duplicate_Sign_In (si_id c))
          else if map_of (clients r) (si_id c) \<noteq> None then Inl (Both_Sections (si_id c))
          else
            (case resolve_secret resolve (si_enabled c \<and> si_type c = client_confidential) (si_id c) (si_secret_ref c)
                (r\<lparr>sign_ins := put_new (si_id c) c (sign_ins r)\<rparr>) of
               Inl e \<Rightarrow> Inl e
             | Inr r' \<Rightarrow> load_sign_ins resolve cs r'))"

definition all_audiences :: "registry \<Rightarrow> string list" where
  "all_audiences r =
     map (si_audience \<circ> snd) (sign_ins r) @ concat (map (\<lambda>(i, c). map g_audience (c_grants c)) (clients r))"

definition check_audiences :: "registry \<Rightarrow> registry_error + registry" where
  "check_audiences r =
     (case first (\<lambda>(i, c). i \<in> set (all_audiences r)) (sign_ins r) of
        Some (i, c) \<Rightarrow> Inl (Id_Is_Audience i)
      | None \<Rightarrow> Inr r)"

text \<open>\<open>decode\<close> is the YAML decoder with unknown fields refused; an empty document decodes to no rows.\<close>

definition load :: "(string \<Rightarrow> document option) \<Rightarrow> string \<Rightarrow> secret_resolver option \<Rightarrow> registry_error + registry" where
  "load decode doc resolve =
     (case decode doc of
        None \<Rightarrow> Inl Parse_Error
      | Some d \<Rightarrow>
          (case load_clients resolve (service_clients d) empty_registry of
             Inl e \<Rightarrow> Inl e
           | Inr r \<Rightarrow>
               (case load_sign_ins resolve (sign_in_clients d) r of
                  Inl e \<Rightarrow> Inl e
                | Inr r' \<Rightarrow> check_audiences r')))"

section \<open>Questions about the loaded registry\<close>

definition ai_app :: "registry \<Rightarrow> string \<Rightarrow> sign_in_client option" where
  "ai_app r cid =
     (case map_of (sign_ins r) cid of
        None \<Rightarrow> None
      | Some c \<Rightarrow> if \<not> si_enabled c \<or> si_kind c \<noteq> kind_ai_app then None else Some c)"

definition set_secret :: "string \<Rightarrow> string \<Rightarrow> registry \<Rightarrow> registry" where
  "set_secret cid s r = r\<lparr>secrets := AList.update cid s (secrets r)\<rparr>"

text \<open>The constant-time comparison: the bytes differ when the accumulated exclusive-or does.\<close>

definition byte :: "char \<Rightarrow> 8 word" where
  "byte c = word_of_nat (of_char c)"

definition subtle_mismatch :: "string \<Rightarrow> string \<Rightarrow> bool" where
  "subtle_mismatch a b =
     (if length a \<noteq> length b then True
      else foldl (\<lambda>diff (x, y). diff OR (byte x XOR byte y)) 0 (zip a b) \<noteq> 0)"

definition authenticate :: "registry \<Rightarrow> string \<Rightarrow> string \<Rightarrow> registry_error + client" where
  "authenticate r cid secret =
     (case map_of (clients r) cid of
        None \<Rightarrow> Inl Unknown_Client
      | Some c \<Rightarrow>
          if \<not> c_enabled c then Inl Unknown_Client
          else
            (case map_of (secrets r) cid of
               None \<Rightarrow> Inl Bad_Secret
             | Some expected \<Rightarrow>
                 if expected = [] \<or> subtle_mismatch expected secret then Inl Bad_Secret else Inr c))"

definition enabled_client :: "registry \<Rightarrow> string \<Rightarrow> client option" where
  "enabled_client r cid =
     (case map_of (clients r) cid of Some c \<Rightarrow> if c_enabled c then Some c else None | None \<Rightarrow> None)"

definition grant_to :: "client \<Rightarrow> string \<Rightarrow> grant option" where
  "grant_to c audience = first (\<lambda>g. g_audience g = audience) (c_grants c)"

fun take_allowed :: "string list \<Rightarrow> string list \<Rightarrow> string list \<Rightarrow> registry_error + string list" where
  "take_allowed allowed out [] = Inr out"
| "take_allowed allowed out (s # ss) =
     (if s \<notin> set allowed then Inl (Grant_Denied s) else take_allowed allowed (out @ [s]) ss)"

definition allowed_scopes :: "registry \<Rightarrow> string \<Rightarrow> string \<Rightarrow> string list \<Rightarrow> registry_error + string list" where
  "allowed_scopes r cid audience requested =
     (case enabled_client r cid of
        None \<Rightarrow> Inl Unknown_Client
      | Some c \<Rightarrow>
          (case grant_to c audience of
             None \<Rightarrow> Inl (Grant_Denied audience)
           | Some g \<Rightarrow>
               if requested = [] then Inr (g_scopes g) else take_allowed (g_scopes g) [] requested))"

definition assistant_levels :: "registry \<Rightarrow> string \<Rightarrow> string \<Rightarrow> string list" where
  "assistant_levels r cid audience =
     (case enabled_client r cid of
        None \<Rightarrow> []
      | Some c \<Rightarrow> (case grant_to c audience of Some g \<Rightarrow> g_assistant_levels g | None \<Rightarrow> []))"

definition may_act_from :: "registry \<Rightarrow> string \<Rightarrow> string list \<Rightarrow> bool" where
  "may_act_from r cid audiences =
     (case enabled_client r cid of
        None \<Rightarrow> False
      | Some c \<Rightarrow> list_ex (\<lambda>aud. aud \<noteq> [] \<and> (aud = c_id c \<or> aud \<in> set (c_act_from c))) audiences)"

definition membership_required :: "registry \<Rightarrow> string \<Rightarrow> bool \<Rightarrow> bool" where
  "membership_required r cid register_wired =
     (case map_of (sign_ins r) cid of
        Some c \<Rightarrow> (case si_membership_required c of Some b \<Rightarrow> b | None \<Rightarrow> register_wired)
      | None \<Rightarrow> register_wired)"

definition requires_membership_somewhere :: "registry \<Rightarrow> bool" where
  "requires_membership_somewhere r =
     list_ex (\<lambda>(i, c). si_enabled c \<and> si_membership_required c = Some True) (sign_ins r)"

definition sign_in_client_of :: "registry \<Rightarrow> string \<Rightarrow> sign_in_client option" where
  "sign_in_client_of r cid =
     (case map_of (sign_ins r) cid of
        None \<Rightarrow> None
      | Some c \<Rightarrow> if si_enabled c then Some c else None)"

definition enabled_sign_ins :: "registry \<Rightarrow> sign_in_client list" where
  "enabled_sign_ins r = sort_key si_id (filter si_enabled (map snd (sign_ins r)))"

definition baselines_never_minted :: "registry \<Rightarrow> bool \<Rightarrow> string list" where
  "baselines_never_minted r register_wired =
     map si_id (filter (\<lambda>c. si_baseline_scopes c \<noteq> [] \<and> membership_required r (si_id c) register_wired)
       (enabled_sign_ins r))"

definition authenticate_sign_in :: "registry \<Rightarrow> string \<Rightarrow> string \<Rightarrow> bool \<Rightarrow> registry_error + sign_in_client" where
  "authenticate_sign_in r cid secret presented =
     (case sign_in_client_of r cid of
        None \<Rightarrow> Inl Unknown_Sign_In_Client
      | Some c \<Rightarrow>
          if si_type c = client_public then (if presented then Inl Bad_Secret else Inr c)
          else
            (case map_of (secrets r) cid of
               None \<Rightarrow> Inl Bad_Secret
             | Some expected \<Rightarrow>
                 if \<not> presented \<or> expected = [] \<or> subtle_mismatch expected secret then Inl Bad_Secret else Inr c))"

definition audiences :: "registry \<Rightarrow> string list" where
  "audiences r = sort (dedup_onto [] (map si_audience (filter si_enabled (map snd (sign_ins r)))))"

definition validate_redirect_uri :: "registry \<Rightarrow> string \<Rightarrow> string \<Rightarrow> registry_error option" where
  "validate_redirect_uri r cid uri =
     (case sign_in_client_of r cid of
        None \<Rightarrow> Some Unknown_Sign_In_Client
      | Some c \<Rightarrow> fail_if (uri \<notin> set (si_redirect_uris c)) (Redirect_Not_Allowed uri))"

definition validate_post_logout_uri :: "registry \<Rightarrow> string \<Rightarrow> string \<Rightarrow> registry_error option" where
  "validate_post_logout_uri r cid uri =
     (case sign_in_client_of r cid of
        None \<Rightarrow> Some Unknown_Sign_In_Client
      | Some c \<Rightarrow> fail_if (uri \<notin> set (si_post_logout_uris c)) (Redirect_Not_Allowed uri))"

definition parse_scope_string :: "string \<Rightarrow> string list" where
  "parse_scope_string s = space_fields s"


section \<open>Facts\<close>

subsection \<open>Comparing secrets\<close>

lemma byte_eq_iff [simp]: "byte x = byte y \<longleftrightarrow> x = y"
proof
  assume "byte x = byte y"
  then have "of_char x mod (256::nat) = of_char y mod 256"
    by (simp add: byte_def unat_of_nat word_unat_eq_iff)
  then show "x = y" by simp
qed simp

lemma xor_zero_iff: "(a :: 8 word) XOR b = 0 \<longleftrightarrow> a = b"
  by (metis xor.assoc xor.left_neutral xor.right_neutral xor_self_eq)

lemma or_zero_iff: "(a :: 8 word) OR b = 0 \<longleftrightarrow> a = 0 \<and> b = 0"
  by (simp add: or_eq_0_iff)

lemma diff_accumulated:
  "foldl (\<lambda>diff (x, y). diff OR (byte x XOR byte y)) d ps = 0 \<longleftrightarrow> d = 0 \<and> (\<forall>(x, y)\<in>set ps. x = y)"
  by (induction ps arbitrary: d) (auto simp: or_zero_iff xor_zero_iff)

lemma subtle_mismatch_iff: "subtle_mismatch a b \<longleftrightarrow> a \<noteq> b"
proof (cases "length a = length b")
  case True
  then have "(\<forall>(x, y)\<in>set (zip a b). x = y) \<longleftrightarrow> a = b"
    by (induction a b rule: list_induct2) auto
  with True show ?thesis by (simp add: subtle_mismatch_def diff_accumulated)
qed (auto simp: subtle_mismatch_def)

subsection \<open>Boxes and levels\<close>

lemma is_level_no_slash: "is_level s \<Longrightarrow> CHR ''/'' \<notin> set s"
  by (auto simp: is_level_def contains_char)

lemma is_box_slash: "is_box s \<Longrightarrow> CHR ''/'' \<in> set s"
  by (auto simp: is_box_def contains_char cut_spec split: if_splits dest: set_takeWhileD)

lemma box_not_level: "is_box s \<Longrightarrow> \<not> is_level s"
  using is_level_no_slash is_box_slash by blast

lemma is_level_split:
  "is_level s \<longleftrightarrow> (\<exists>grp level. s = grp @ '':'' @ level \<and> grp \<noteq> [] \<and> level \<noteq> [] \<and> CHR '':'' \<notin> set grp
      \<and> CHR '':'' \<notin> set level \<and> CHR ''/'' \<notin> set s \<and> \<not> has_space s)"
proof
  assume "is_level s"
  moreover obtain grp level ok where "cut (CHR '':'') s = (grp, level, ok)" by (metis prod_cases3)
  ultimately show "\<exists>grp level. s = grp @ '':'' @ level \<and> grp \<noteq> [] \<and> level \<noteq> [] \<and> CHR '':'' \<notin> set grp
      \<and> CHR '':'' \<notin> set level \<and> CHR ''/'' \<notin> set s \<and> \<not> has_space s"
    by (intro exI[of _ grp] exI[of _ level]) (auto simp: is_level_def contains_char cut_found)
next
  assume "\<exists>grp level. s = grp @ '':'' @ level \<and> grp \<noteq> [] \<and> level \<noteq> [] \<and> CHR '':'' \<notin> set grp
      \<and> CHR '':'' \<notin> set level \<and> CHR ''/'' \<notin> set s \<and> \<not> has_space s"
  then show "is_level s" by (auto simp: is_level_def contains_char)
qed

subsection \<open>Lookups\<close>

lemma enabled_client_iff:
  "enabled_client r cid = Some c \<longleftrightarrow> map_of (clients r) cid = Some c \<and> c_enabled c"
  by (auto simp: enabled_client_def split: option.splits if_splits)

lemma sign_in_client_iff:
  "sign_in_client_of r cid = Some c \<longleftrightarrow> map_of (sign_ins r) cid = Some c \<and> si_enabled c"
  by (auto simp: sign_in_client_of_def split: option.splits if_splits)

lemma ai_app_iff:
  "ai_app r cid = Some c \<longleftrightarrow> sign_in_client_of r cid = Some c \<and> si_kind c = kind_ai_app"
  by (auto simp: ai_app_def sign_in_client_iff split: option.splits if_splits)

lemma authenticate_iff:
  "authenticate r cid secret = Inr c \<longleftrightarrow>
     enabled_client r cid = Some c \<and> map_of (secrets r) cid = Some secret \<and> secret \<noteq> []"
  by (auto simp: authenticate_def enabled_client_def subtle_mismatch_iff split: option.splits if_splits)

lemma authenticate_sign_in_iff:
  "authenticate_sign_in r cid secret presented = Inr c \<longleftrightarrow>
     sign_in_client_of r cid = Some c \<and>
     (if si_type c = client_public then \<not> presented
      else presented \<and> map_of (secrets r) cid = Some secret \<and> secret \<noteq> [])"
  by (auto simp: authenticate_sign_in_def subtle_mismatch_iff split: option.splits if_splits)

lemma take_allowed_iff:
  "take_allowed allowed out ss = Inr res \<longleftrightarrow> set ss \<subseteq> set allowed \<and> res = out @ ss"
  by (induction ss arbitrary: out) auto

lemma allowed_scopes_iff:
  "allowed_scopes r cid audience requested = Inr out \<longleftrightarrow>
     (\<exists>c g. enabled_client r cid = Some c \<and> grant_to c audience = Some g \<and>
        set requested \<subseteq> set (g_scopes g) \<and> out = (if requested = [] then g_scopes g else requested))"
  by (auto simp: allowed_scopes_def take_allowed_iff split: option.splits if_splits)

lemma assistant_levels_in:
  "s \<in> set (assistant_levels r cid audience) \<Longrightarrow>
     \<exists>c g. enabled_client r cid = Some c \<and> grant_to c audience = Some g \<and> s \<in> set (g_assistant_levels g)"
  by (cases "enabled_client r cid"; cases "grant_to (the (enabled_client r cid)) audience")
    (simp_all add: assistant_levels_def)

lemma membership_required_iff:
  "membership_required r cid wired \<longleftrightarrow>
     (case map_of (sign_ins r) cid of
        Some c \<Rightarrow> si_membership_required c = Some True \<or> si_membership_required c = None \<and> wired
      | None \<Rightarrow> wired)"
  by (auto simp: membership_required_def split: option.splits)

lemma validate_redirect_uri_iff:
  "validate_redirect_uri r cid uri = None \<longleftrightarrow>
     (\<exists>c. sign_in_client_of r cid = Some c \<and> uri \<in> set (si_redirect_uris c))"
  by (auto simp: validate_redirect_uri_def split: option.splits)

lemma set_audiences: "set (audiences r) = si_audience ` {c \<in> snd ` set (sign_ins r). si_enabled c}"
  by (auto simp: audiences_def)

lemma audiences_distinct: "distinct (audiences r)"
  by (simp add: audiences_def)


subsection \<open>What a load keeps\<close>

text \<open>What a loaded registry holds: the ids, one section each; a row that passed its checks; a
  secret only for a client that has one.\<close>

definition grant_ok :: "grant \<Rightarrow> bool" where
  "grant_ok g \<longleftrightarrow> g_audience g \<noteq> [] \<and> (\<forall>s\<in>set (g_scopes g). is_box s \<or> is_level s)
     \<and> (\<forall>s\<in>set (g_assistant_levels g). is_level s \<and> s \<in> set (g_scopes g))"

definition client_ok :: "client \<Rightarrow> bool" where
  "client_ok c \<longleftrightarrow> c_id c \<noteq> [] \<and> (c_enabled c \<longrightarrow> c_secret_ref c \<noteq> []) \<and> [] \<notin> set (c_act_from c)
     \<and> (\<forall>g\<in>set (c_grants c). grant_ok g) \<and> distinct (map g_audience (c_grants c))"

definition sign_in_ok :: "sign_in_client \<Rightarrow> bool" where
  "sign_in_ok c \<longleftrightarrow> si_id c \<noteq> [] \<and> si_audience c \<noteq> []
     \<and> (si_type c = client_public \<and> si_secret_ref c = []
        \<or> si_type c = client_confidential \<and> (si_enabled c \<longrightarrow> si_secret_ref c \<noteq> []))
     \<and> (si_enabled c \<longrightarrow> si_redirect_uris c \<noteq> [])
     \<and> \<not> (si_signing c \<and> si_single_sign_on c)
     \<and> set (si_claims c) \<subseteq> set known_claims
     \<and> (\<forall>u\<in>set (si_redirect_uris c). check_address u True = None)
     \<and> (\<forall>u\<in>set (si_post_logout_uris c). check_address u (si_type c = client_confidential) = None)
     \<and> (si_kind c = [] \<and> si_scopes c = []
        \<or> si_kind c = kind_ai_app \<and> si_type c = client_public \<and> si_scopes c \<noteq> [] \<and> (\<forall>s\<in>set (si_scopes c). is_box s)
          \<and> check_resource (si_audience c) = None \<and> si_claims c = [] \<and> \<not> si_signing c \<and> \<not> si_single_sign_on c
          \<and> si_baseline_scopes c = [] \<and> si_membership_required c \<noteq> Some False
          \<and> (\<forall>u\<in>set (si_redirect_uris c). check_loopback_or_https u = None))"

lemma validate_grants_None:
  "validate_grants cid seen gs = None \<longleftrightarrow>
     (\<forall>g\<in>set gs. grant_ok g) \<and> distinct (map g_audience gs)
     \<and> g_audience ` set gs \<inter> g_audience ` set seen = {}"
proof (induction gs arbitrary: seen)
  case (Cons g gs)
  have "(\<exists>o'\<in>set seen. g_audience o' = g_audience g) \<longleftrightarrow> g_audience g \<in> g_audience ` set seen"
    by (metis imageE image_eqI)
  then show ?case by (auto simp: grant_ok_def Let_def Cons.IH)
qed simp

lemma validate_client_None: "validate_client c = None \<longleftrightarrow> client_ok c"
  by (auto simp: validate_client_def client_ok_def validate_grants_None)

lemma at_row_None [simp]: "at_row f e = None \<longleftrightarrow> e = None"
  by (simp add: at_row_def)

lemma validate_type_None:
  "validate_type c = None \<longleftrightarrow>
     si_type c = client_public \<and> si_secret_ref c = []
     \<or> si_type c = client_confidential \<and> (si_enabled c \<longrightarrow> si_secret_ref c \<noteq> [])"
  by (auto simp: validate_type_def client_public_def client_confidential_def)

lemma validate_sign_in_client_ok: "validate_sign_in_client c = None \<Longrightarrow> sign_in_ok c"
  by (auto simp: validate_sign_in_client_def sign_in_ok_def Let_def validate_type_None
      validate_addresses_def validate_kind_def validate_ai_app_def kind_ai_app_def split: if_splits)

lemma public_neq_confidential [simp]: "client_public \<noteq> client_confidential" "client_confidential \<noteq> client_public"
  by (simp_all add: client_public_def client_confidential_def)

definition has_own_secret :: "registry \<Rightarrow> string \<Rightarrow> bool" where
  "has_own_secret r i \<longleftrightarrow>
     (\<exists>c. map_of (clients r) i = Some c \<and> c_enabled c)
     \<or> (\<exists>c. map_of (sign_ins r) i = Some c \<and> si_enabled c \<and> si_type c = client_confidential)"

definition rows_ok :: "registry \<Rightarrow> bool" where
  "rows_ok r \<longleftrightarrow>
     distinct (map fst (clients r) @ map fst (sign_ins r))
     \<and> (\<forall>(i, c)\<in>set (clients r). i = c_id c \<and> client_ok c)
     \<and> (\<forall>(i, c)\<in>set (sign_ins r). i = si_id c \<and> sign_in_ok c)
     \<and> (\<forall>i. map_of (secrets r) i \<noteq> None \<longrightarrow> has_own_secret r i)"

definition registry_ok :: "registry \<Rightarrow> bool" where
  "registry_ok r \<longleftrightarrow> rows_ok r \<and> set (map fst (sign_ins r)) \<inter> set (all_audiences r) = {}"

text \<open>Resolving a secret touches no row.\<close>

lemma resolve_secret_rows:
  "resolve_secret f b i ref r = Inr r' \<Longrightarrow>
     clients r' = clients r \<and> sign_ins r' = sign_ins r \<and>
     (secrets r' = secrets r \<or> b \<and> (\<exists>s. secrets r' = AList.update i s (secrets r)))"
  by (auto simp: resolve_secret_def split: option.splits if_splits sum.splits)

lemma resolve_secret_source:
  "resolve_secret f b i ref r = Inr r' \<Longrightarrow> map_of (secrets r') j \<noteq> None \<Longrightarrow>
     map_of (secrets r) j \<noteq> None \<or> b \<and> j = i"
  by (auto simp: resolve_secret_def update_conv' split: option.splits if_splits sum.splits)

lemma rows_ok_secrets:
  assumes "resolve_secret f b i ref r = Inr r'" "b \<Longrightarrow> has_own_secret r i"
    and "\<And>j. map_of (secrets r) j \<noteq> None \<Longrightarrow> has_own_secret r j"
  shows "map_of (secrets r') j \<noteq> None \<Longrightarrow> has_own_secret r' j"
  using assms resolve_secret_rows[OF assms(1)] resolve_secret_source[OF assms(1), of j]
  by (auto simp: has_own_secret_def)

lemma own_secret_put:
  assumes "has_own_secret r i"
  shows "map_of (clients r) j = None \<Longrightarrow> has_own_secret (r\<lparr>clients := put_new j c (clients r)\<rparr>) i"
    and "map_of (sign_ins r) j = None \<Longrightarrow> has_own_secret (r\<lparr>sign_ins := put_new j d (sign_ins r)\<rparr>) i"
  using assms by (auto simp: has_own_secret_def)

lemma own_secret_new:
  "map_of (clients r) j = None \<Longrightarrow> c_enabled c \<Longrightarrow> has_own_secret (r\<lparr>clients := put_new j c (clients r)\<rparr>) j"
  "map_of (sign_ins r) j = None \<Longrightarrow> si_enabled d \<and> si_type d = client_confidential \<Longrightarrow>
     has_own_secret (r\<lparr>sign_ins := put_new j d (sign_ins r)\<rparr>) j"
  by (auto simp: has_own_secret_def)

lemma rows_ok_add_client:
  assumes ok: "rows_ok r" and v: "client_ok c" and new: "map_of (clients r) (c_id c) = None"
    and apart: "map_of (sign_ins r) (c_id c) = None"
    and res: "resolve_secret f (c_enabled c) (c_id c) ref (r\<lparr>clients := put_new (c_id c) c (clients r)\<rparr>) = Inr r'"
  shows "rows_ok r'"
proof -
  have own: "has_own_secret r j" if "map_of (secrets r) j \<noteq> None" for j
    using ok that by (simp add: rows_ok_def)
  have "has_own_secret r' i" if "map_of (secrets r') i \<noteq> None" for i
    using that by (rule rows_ok_secrets[OF res, rotated 2])
      (use new in \<open>simp_all add: own own_secret_put(1) own_secret_new(1)\<close>)
  then show ?thesis
    using ok v new apart resolve_secret_rows[OF res]
    by (simp add: rows_ok_def map_of_eq_None_iff)
qed

lemma rows_ok_add_sign_in:
  assumes ok: "rows_ok r" and v: "sign_in_ok c" and new: "map_of (clients r) (si_id c) = None"
    and apart: "map_of (sign_ins r) (si_id c) = None"
    and res: "resolve_secret f (si_enabled c \<and> si_type c = client_confidential) (si_id c) ref
       (r\<lparr>sign_ins := put_new (si_id c) c (sign_ins r)\<rparr>) = Inr r'"
  shows "rows_ok r'"
proof -
  have own: "has_own_secret r j" if "map_of (secrets r) j \<noteq> None" for j
    using ok that by (simp add: rows_ok_def)
  have "has_own_secret r' i" if "map_of (secrets r') i \<noteq> None" for i
    using that by (rule rows_ok_secrets[OF res, rotated 2])
      (use apart in \<open>simp_all add: own own_secret_put(2) own_secret_new(2)\<close>)
  then show ?thesis
    using ok v new apart resolve_secret_rows[OF res]
    by (simp add: rows_ok_def map_of_eq_None_iff)
qed

lemma load_clients_ok:
  "load_clients f cs r = Inr r' \<Longrightarrow> rows_ok r \<Longrightarrow> sign_ins r = [] \<Longrightarrow>
     rows_ok r' \<and> sign_ins r' = [] \<and> clients r' = clients r @ map (\<lambda>c. (c_id c, c)) cs"
proof (induction cs arbitrary: r)
  case (Cons c cs)
  from Cons.prems obtain q where v: "client_ok c" and n: "map_of (clients r) (c_id c) = None"
    and q: "resolve_secret f (c_enabled c) (c_id c) (c_secret_ref c) (r\<lparr>clients := put_new (c_id c) c (clients r)\<rparr>) = Inr q"
    and rest: "load_clients f cs q = Inr r'"
    by (auto simp: validate_client_None split: option.splits if_splits sum.splits)
  have "rows_ok q"
    using Cons.prems v n q by (intro rows_ok_add_client[OF _ v n _ q]) auto
  with Cons.IH[OF rest] Cons.prems resolve_secret_rows[OF q] show ?case
    by (simp add: put_new_def)
qed simp

lemma load_sign_ins_ok:
  "load_sign_ins f cs r = Inr r' \<Longrightarrow> rows_ok r \<Longrightarrow>
     rows_ok r' \<and> clients r' = clients r \<and> sign_ins r' = sign_ins r @ map (\<lambda>c. (si_id c, c)) cs"
proof (induction cs arbitrary: r)
  case (Cons c cs)
  from Cons.prems obtain q where v: "sign_in_ok c"
    and n: "map_of (sign_ins r) (si_id c) = None" "map_of (clients r) (si_id c) = None"
    and q: "resolve_secret f (si_enabled c \<and> si_type c = client_confidential) (si_id c) (si_secret_ref c)
       (r\<lparr>sign_ins := put_new (si_id c) c (sign_ins r)\<rparr>) = Inr q"
    and rest: "load_sign_ins f cs q = Inr r'"
    by (auto dest: validate_sign_in_client_ok split: option.splits if_splits sum.splits)
  have "rows_ok q"
    using Cons.prems by (intro rows_ok_add_sign_in[OF _ v n(2,1) q]) auto
  with Cons.IH[OF rest] resolve_secret_rows[OF q] show ?case
    by (simp add: put_new_def)
qed simp

lemma check_audiences_Inr:
  "check_audiences r = Inr r' \<longleftrightarrow> r' = r \<and> set (map fst (sign_ins r)) \<inter> set (all_audiences r) = {}"
  by (auto simp: check_audiences_def split: option.splits dest!: first_SomeD)

lemma load_inv:
  assumes "load decode doc resolve = Inr r"
  shows "registry_ok r"
    and "\<exists>d. decode doc = Some d \<and> map snd (clients r) = service_clients d \<and> map snd (sign_ins r) = sign_in_clients d"
proof -
  obtain d q where d: "decode doc = Some d" and q: "load_clients resolve (service_clients d) empty_registry = Inr q"
    and s: "load_sign_ins resolve (sign_in_clients d) q = Inr r"
    and a: "set (map fst (sign_ins r)) \<inter> set (all_audiences r) = {}"
    using assms by (auto simp: load_def check_audiences_Inr split: option.splits sum.splits)
  have "rows_ok empty_registry" by (simp add: rows_ok_def empty_registry_def)
  then have q': "rows_ok q" "sign_ins q = []" "clients q = map (\<lambda>c. (c_id c, c)) (service_clients d)"
    using load_clients_ok[OF q] by (simp_all add: empty_registry_def)
  with load_sign_ins_ok[OF s] have "rows_ok r" "clients r = clients q"
    "sign_ins r = map (\<lambda>c. (si_id c, c)) (sign_in_clients d)" by simp_all
  with d a q' show "registry_ok r"
    and "\<exists>d. decode doc = Some d \<and> map snd (clients r) = service_clients d \<and> map snd (sign_ins r) = sign_in_clients d"
    by (simp_all add: registry_ok_def o_def)
qed


subsection \<open>What the registry promises its callers\<close>

lemma registry_ok_client:
  "registry_ok r \<Longrightarrow> map_of (clients r) i = Some c \<Longrightarrow> c_id c = i \<and> client_ok c"
  by (force simp: registry_ok_def rows_ok_def dest: map_of_SomeD)

lemma registry_ok_sign_in:
  "registry_ok r \<Longrightarrow> map_of (sign_ins r) i = Some c \<Longrightarrow> si_id c = i \<and> sign_in_ok c"
  by (force simp: registry_ok_def rows_ok_def dest: map_of_SomeD)

lemma one_grant:
  "distinct (map g_audience gs) \<Longrightarrow> g \<in> set gs \<Longrightarrow> first (\<lambda>h. g_audience h = g_audience g) gs = Some g"
  by (induction gs) auto

lemma grant_to_iff:
  assumes "client_ok c"
  shows "grant_to c audience = Some g \<longleftrightarrow> g \<in> set (c_grants c) \<and> g_audience g = audience"
proof
  assume "grant_to c audience = Some g"
  then show "g \<in> set (c_grants c) \<and> g_audience g = audience"
    using first_SomeD by (force simp: grant_to_def)
next
  assume "g \<in> set (c_grants c) \<and> g_audience g = audience"
  with one_grant[of "c_grants c" g] assms show "grant_to c audience = Some g"
    by (simp add: grant_to_def client_ok_def)
qed

lemma loopback_or_https_address:
  "check_loopback_or_https raw = None \<Longrightarrow> \<exists>u. parse_url raw = Some u \<and> url_is_abs u \<and> u_host u \<noteq> []
     \<and> u_fragment u = [] \<and> CHR ''#'' \<notin> set raw \<and> u_user u = None
     \<and> (u_scheme u = ''https'' \<or> u_scheme u = ''http'' \<and> is_loopback (url_hostname u))"
  by (cases "parse_url raw")
    (auto simp: check_loopback_or_https_def contains_char simp del: not_None_eq split: if_splits)

lemma checked_address:
  "check_address raw h = None \<Longrightarrow> \<exists>u. parse_url raw = Some u \<and> url_is_abs u \<and> u_host u \<noteq> []
     \<and> u_fragment u = [] \<and> CHR ''#'' \<notin> set raw \<and> (u_scheme u = ''https'' \<or> h \<and> u_scheme u = ''http'')"
  by (auto simp: check_address_def contains_char split: option.splits if_splits)

text \<open>
  C17. A client is let in exactly when its row is enabled and it presented the very secret resolved
  for it, never an empty one; a public sign-in client exactly when it presented no secret at all.
\<close>

theorem clients_prove_themselves:
  "(authenticate r cid secret = Inr c \<longleftrightarrow>
      map_of (clients r) cid = Some c \<and> c_enabled c \<and> secret \<noteq> [] \<and> map_of (secrets r) cid = Some secret)
   \<and> (authenticate_sign_in r cid secret presented = Inr sc \<longleftrightarrow>
      map_of (sign_ins r) cid = Some sc \<and> si_enabled sc \<and>
      (if si_type sc = client_public then \<not> presented
       else presented \<and> secret \<noteq> [] \<and> map_of (secrets r) cid = Some secret))"
  unfolding authenticate_iff authenticate_sign_in_iff enabled_client_iff sign_in_client_iff by auto

text \<open>
  C18. In a loaded registry a service client is answered scopes toward an audience exactly when it
  is enabled, holds a grant to that audience, and asks for nothing outside it: what it asked for, or
  the whole grant when it asked for none. Everything it is answered is a box or a level.
\<close>

theorem scopes_within_grant:
  assumes "load decode doc resolve = Inr r"
  shows "(allowed_scopes r cid audience requested = Inr out \<longleftrightarrow>
      (\<exists>c g. map_of (clients r) cid = Some c \<and> c_enabled c \<and> g \<in> set (c_grants c) \<and> g_audience g = audience
         \<and> set requested \<subseteq> set (g_scopes g) \<and> out = (if requested = [] then g_scopes g else requested)))
    \<and> (allowed_scopes r cid audience requested = Inr out \<longrightarrow> (\<forall>s\<in>set out. is_box s \<or> is_level s))"
proof -
  have ok: "client_ok c" if "map_of (clients r) cid = Some c" for c
    using load_inv(1)[OF assms] registry_ok_client[OF _ that] by blast
  then have gs: "grant_to c audience = Some g \<longleftrightarrow> g \<in> set (c_grants c) \<and> g_audience g = audience"
    if "map_of (clients r) cid = Some c" for c g using that grant_to_iff by blast
  have "\<forall>s\<in>set (g_scopes g). is_box s \<or> is_level s"
    if "map_of (clients r) cid = Some c" "g \<in> set (c_grants c)" for c g
    using ok[OF that(1)] that(2) by (simp add: client_ok_def grant_ok_def)
  with gs show ?thesis
    unfolding allowed_scopes_iff enabled_client_iff by (auto split: if_splits) blast+
qed



section \<open>A registry that loads\<close>

text \<open>A product's service and its edge, the edge's sign-in client, an AI app and a public portal.\<close>

definition example_document :: document where
  "example_document = \<lparr>
     service_clients =
       [\<lparr>c_id = ''edge'', c_secret_ref = ''v/edge'', c_enabled = True,
          c_grants = [\<lparr>g_audience = ''orders'', g_scopes = [''orders/list:read'', ''orders/list:write'', ''staff:lead''],
                       g_assistant_levels = [''staff:lead'']\<rparr>],
          c_act_from = [''shop'']\<rparr>],
     sign_in_clients =
       [\<lparr>si_id = ''shop-app'', si_enabled = True, si_kind = [], si_type = ''confidential'', si_secret_ref = ''v/shop'',
          si_audience = ''shop'', si_scopes = [], si_membership_required = Some True, si_baseline_scopes = [],
          si_claims = [''name''], si_methods = [''eidScan'', ''eparakstsMobile''], si_signing = False, si_single_sign_on = True,
          si_client_name = ''Shop'', si_logo_uri = [], si_redirect_uris = [''https://shop.test/cb''],
          si_post_logout_uris = [''https://shop.test/''], si_backchannel_uri = []\<rparr>,
        \<lparr>si_id = ''assistant-app'', si_enabled = True, si_kind = ''ai_app'', si_type = ''public'', si_secret_ref = [],
          si_audience = ''https://mcp.test/orders'', si_scopes = [''orders/list:read''], si_membership_required = None,
          si_baseline_scopes = [], si_claims = [], si_methods = [''eidScan''], si_signing = False,
          si_single_sign_on = False, si_client_name = ''Assistant'', si_logo_uri = [],
          si_redirect_uris = [''http://127.0.0.1:8080/cb''], si_post_logout_uris = [], si_backchannel_uri = []\<rparr>,
        \<lparr>si_id = ''portal-app'', si_enabled = True, si_kind = [], si_type = ''public'', si_secret_ref = [],
          si_audience = ''portal'', si_scopes = [], si_membership_required = Some False,
          si_baseline_scopes = [''portal/self:read''], si_claims = [''name'', ''serial_number''], si_methods = [''eidScan'', ''webEid''],
          si_signing = False, si_single_sign_on = True, si_client_name = ''Portal'', si_logo_uri = [],
          si_redirect_uris = [''https://portal.test/cb''], si_post_logout_uris = [], si_backchannel_uri = []\<rparr>]\<rparr>"

definition example_resolver :: secret_resolver where
  "example_resolver cid ref = Inr (''secret of '' @ cid)"

definition example_decode :: "string \<Rightarrow> document option" where
  "example_decode doc = Some example_document"

definition example_registry :: registry where
  "example_registry =
     \<lparr>clients = map (\<lambda>c. (c_id c, c)) (service_clients example_document),
      sign_ins = map (\<lambda>c. (si_id c, c)) (sign_in_clients example_document),
      secrets = [(''edge'', ''secret of edge''), (''shop-app'', ''secret of shop-app'')]\<rparr>"

lemma example_loads: "load example_decode [] (Some example_resolver) = Inr example_registry"
  by code_simp


theorem scopes_within_grant_witness:
  "\<exists>c g. map_of (clients example_registry) ''edge'' = Some c \<and> g \<in> set (c_grants c) \<and> g_audience g = ''orders''
     \<and> ''orders/list:read'' \<in> set (g_scopes g)"
proof -
  have "allowed_scopes example_registry ''edge'' ''orders'' [''orders/list:read''] = Inr [''orders/list:read'']"
    by code_simp
  with scopes_within_grant[OF example_loads, of "''edge''" "''orders''" "[''orders/list:read'']" "[''orders/list:read'']"]
  obtain c g where "map_of (clients example_registry) ''edge'' = Some c" "g \<in> set (c_grants c)" "g_audience g = ''orders''"
    "set [''orders/list:read''] \<subseteq> set (g_scopes g)"
    by blast
  then show ?thesis by (intro exI[of _ c] exI[of _ g]) simp
qed


end
