(* ===== verification/Session_Types.thy ===== *)
theory Session_Types
  imports Go_Lib
begin

text \<open>
  The data a sign-in carries between requests, \<open>src/session/session.go\<close> and
  \<open>src/session/shared.go\<close>: login flows, application codes, sessions, refresh grants, connections
  and the browser's shared session, with the operations on one value.

  A time is a number of nanoseconds since Go's zero time, so \<open>IsZero\<close> is \<open>0\<close>; \<open>unix\<close> gives Unix
  seconds. A duration is a number of nanoseconds. A pointer that may be \<open>nil\<close> is an option.
\<close>

section \<open>Time\<close>

type_synonym time = int
type_synonym duration = int

definition second :: duration where "second = 1000000000"
definition millisecond :: duration where "millisecond = 1000000"

definition unix :: "time \<Rightarrow> int" where
  "unix t = t div second - 62135596800"

definition unix_milli :: "time \<Rightarrow> int" where
  "unix_milli t = t div millisecond - 62135596800000"

definition of_unix :: "int \<Rightarrow> time" where
  "of_unix n = (n + 62135596800) * second"

text \<open>\<open>time.Time.Sub\<close> stops at the ends of a 64-bit duration.\<close>

definition time_sub :: "time \<Rightarrow> time \<Rightarrow> duration" where
  "time_sub a b = max (- 9223372036854775808) (min 9223372036854775807 (a - b))"

text \<open>\<open>Format(time.RFC3339)\<close> in UTC: the Gregorian date of a day counted from 1 January of the year 1, and the
  second of the day. Days are counted from a 1 March, so that a leap day ends its year.\<close>

fun decimal :: "nat \<Rightarrow> string" where
  "decimal n = (if n < 10 then [char_of (48 + n)] else decimal (n div 10) @ [char_of (48 + n mod 10)])"

declare decimal.simps [simp del]

definition padded :: "nat \<Rightarrow> int \<Rightarrow> string" where
  "padded width n =
     (let d = decimal (nat (abs n)) in (if n < 0 then ''-'' else []) @ replicate (width - length d) (CHR ''0'') @ d)"

definition civil_date :: "int \<Rightarrow> int \<times> int \<times> int" where
  "civil_date days =
     (let z = days + 306; era = z div 146097; doe = z mod 146097;
          yoe = (doe - doe div 1460 + doe div 36524 - doe div 146096) div 365;
          doy = doe - (365 * yoe + yoe div 4 - yoe div 100);
          mp = (5 * doy + 2) div 153;
          m = (if mp < 10 then mp + 3 else mp - 9)
      in (yoe + era * 400 + (if m \<le> 2 then 1 else 0), m, doy - (153 * mp + 2) div 5 + 1))"

definition rfc3339 :: "time \<Rightarrow> string" where
  "rfc3339 t =
     (let secs = t div second; s = secs mod 86400 in
      case civil_date (secs div 86400) of (y, m, d) \<Rightarrow>
        padded 4 y @ ''-'' @ padded 2 m @ ''-'' @ padded 2 d @ ''T''
        @ padded 2 (s div 3600) @ '':'' @ padded 2 (s div 60 mod 60) @ '':'' @ padded 2 (s mod 60) @ ''Z'')"

lemma rfc3339_examples:
  "rfc3339 (of_unix 0) = ''1970-01-01T00:00:00Z''" "rfc3339 (of_unix 1709251199) = ''2024-02-29T23:59:59Z''"
  "rfc3339 0 = ''0001-01-01T00:00:00Z''"
  by code_simp+

lemma time_sub_nonpos [simp]: "time_sub a b \<le> 0 \<longleftrightarrow> a \<le> b"
  by (auto simp: time_sub_def)

lemma unix_of_unix [simp]: "unix (of_unix n) = n"
  by (simp add: unix_def of_unix_def second_def)

lemma unix_mono: "s \<le> t \<Longrightarrow> unix s \<le> unix t"
  by (simp add: unix_def second_def zdiv_mono1)

lemma unix_milli_mono: "s \<le> t \<Longrightarrow> unix_milli s \<le> unix_milli t"
  by (simp add: unix_milli_def millisecond_def zdiv_mono1)

lemma unix_milli_apart: "now + millisecond \<le> till \<Longrightarrow> unix_milli now < unix_milli till"
proof -
  assume "now + millisecond \<le> till"
  then have "(now + millisecond) div millisecond \<le> till div millisecond"
    by (intro zdiv_mono1) (simp_all add: millisecond_def)
  then show ?thesis by (simp add: unix_milli_def millisecond_def)
qed

section \<open>Values\<close>

record seal =
  seal_id :: string
  seal_label :: string
  seal_certificate :: string

record capabilities =
  cap_sign_identity :: string
  cap_signing_certificate :: string
  cap_auth_certificate :: string
  cap_seals :: "seal list"
  cap_seals_known :: bool

record flow =
  f_code_challenge :: string
  f_code_challenge_method :: string
  f_app_redirect_uri :: string
  f_spa_state :: string
  f_entrust_redirect_uri :: string
  f_upstream :: string
  f_requested_methods :: "string list"
  f_client_id :: string
  f_webeid_nonce :: string
  f_tenant :: string
  f_nonce :: string
  f_openid :: bool
  f_client_nonce :: string
  f_forced_login :: bool
  f_max_age :: "int option"
  f_started :: int
  f_binding :: string
  f_picker :: bool
  f_request :: string
  f_app_scopes :: "string list"
  f_session_id :: string

definition empty_flow :: flow where
  "empty_flow = \<lparr>f_code_challenge = [], f_code_challenge_method = [], f_app_redirect_uri = [], f_spa_state = [],
     f_entrust_redirect_uri = [], f_upstream = [], f_requested_methods = [], f_client_id = [], f_webeid_nonce = [],
     f_tenant = [], f_nonce = [], f_openid = False, f_client_nonce = [], f_forced_login = False, f_max_age = None,
     f_started = 0, f_binding = [], f_picker = False, f_request = [], f_app_scopes = [], f_session_id = []\<rparr>"

record app_code =
  ac_session_id :: string
  ac_code_challenge :: string
  ac_code_challenge_method :: string
  ac_client_id :: string
  ac_redirect_uri :: string
  ac_tenant :: string
  ac_openid :: bool
  ac_nonce :: string
  ac_assistant :: string
  ac_app_scopes :: "string list"

record session =
  s_subject :: string
  s_name :: string
  s_given_name :: string
  s_family_name :: string
  s_serial_number :: string
  s_loa :: string
  s_login_method :: string
  s_client_id :: string
  s_tenant :: string
  s_thumbprint :: string
  s_capabilities :: "capabilities option"
  s_directory_issuer :: string
  s_directory_guest :: bool
  s_expires_at :: time
  s_refresh_key :: string
  s_auth_time :: int
  s_amr :: "string list"
  s_sid :: string
  s_shared :: string
  s_assistant :: string
  s_app_scopes :: "string list"
  s_connected_at :: time
  s_last_used :: time

definition empty_session :: session where
  "empty_session = \<lparr>s_subject = [], s_name = [], s_given_name = [], s_family_name = [], s_serial_number = [],
     s_loa = [], s_login_method = [], s_client_id = [], s_tenant = [], s_thumbprint = [], s_capabilities = None,
     s_directory_issuer = [], s_directory_guest = False, s_expires_at = 0, s_refresh_key = [], s_auth_time = 0,
     s_amr = [], s_sid = [], s_shared = [], s_assistant = [], s_app_scopes = [], s_connected_at = 0, s_last_used = 0\<rparr>"

record connection =
  con_id :: string
  con_session :: string

record refresh_grant =
  rg_session :: string
  rg_client :: string
  rg_rotated :: bool

text \<open>A way is one sign-in kept by the browser's shared session.\<close>

record way =
  w_method :: string
  w_loa :: string
  w_auth_time :: int
  w_amr :: "string list"
  w_signed_in :: time
  w_ends :: time

record shared =
  sh_secret_hash :: string
  sh_subject :: string
  sh_name :: string
  sh_given_name :: string
  sh_family_name :: string
  sh_serial_number :: string
  sh_directory_issuer :: string
  sh_directory_guest :: bool
  sh_ways :: "way list"
  sh_expires_at :: time

definition empty_shared :: shared where
  "empty_shared = \<lparr>sh_secret_hash = [], sh_subject = [], sh_name = [], sh_given_name = [], sh_family_name = [],
     sh_serial_number = [], sh_directory_issuer = [], sh_directory_guest = False, sh_ways = [], sh_expires_at = 0\<rparr>"

section \<open>Operations on one value\<close>

definition session_expired :: "session \<Rightarrow> time \<Rightarrow> bool" where
  "session_expired s now \<longleftrightarrow> s_expires_at s = 0 \<or> \<not> now < s_expires_at s"

definition display_name :: "session \<Rightarrow> string" where
  "display_name s =
     (if s_name s \<noteq> [] then s_name s
      else let n = trim_space (s_given_name s @ '' '' @ s_family_name s) in
        if n \<noteq> [] then n else s_subject s)"

definition shared_expired :: "shared \<Rightarrow> time \<Rightarrow> bool" where
  "shared_expired s now \<longleftrightarrow> sh_expires_at s = 0 \<or> \<not> now < sh_expires_at s"

definition keep :: "way \<Rightarrow> shared \<Rightarrow> shared" where
  "keep w s =
     (let ws = filter (\<lambda>o'. w_method o' \<noteq> w_method w) (sh_ways s) @ [w] in
      s\<lparr>sh_ways := ws,
        sh_expires_at := foldl (\<lambda>e o'. if e < w_ends o' then w_ends o' else e) (sh_expires_at s) ws\<rparr>)"

subsection \<open>Facts\<close>

lemma session_expired_mono: "session_expired s t \<Longrightarrow> t \<le> u \<Longrightarrow> session_expired s u"
  by (auto simp: session_expired_def)

lemma live_session_ends: "\<not> session_expired s t \<Longrightarrow> t < s_expires_at s"
  by (simp add: session_expired_def)

lemma latest_end: "foldl (\<lambda>e o'. if e < w_ends o' then w_ends o' else e) e ws = fold max (map w_ends ws) e"
  by (induction ws arbitrary: e) (auto simp: max_def)

lemma latest_end_Max: "fold max xs (e::int) = Max (insert e (set xs))"
proof (induction xs arbitrary: e)
  case (Cons x xs)
  show ?case by (cases "xs = []") (simp_all add: Cons.IH max.assoc max.left_commute max.commute)
qed simp

text \<open>A shared session as sign-ins build it: one way per method, ending with the last of them.\<close>

definition shared_ok :: "shared \<Rightarrow> bool" where
  "shared_ok s \<longleftrightarrow> distinct (map w_method (sh_ways s))
     \<and> (sh_ways s = [] \<and> sh_expires_at s = 0 \<or> sh_ways s \<noteq> [] \<and> sh_expires_at s = Max (w_ends ` set (sh_ways s)))"

lemma shared_ok_empty: "shared_ok empty_shared"
  by (simp add: shared_ok_def empty_shared_def)

lemma keep_ways: "sh_ways (keep w s) = filter (\<lambda>o'. w_method o' \<noteq> w_method w) (sh_ways s) @ [w]"
  by (simp add: keep_def Let_def)

lemma keep_expires: "sh_expires_at (keep w s) = Max (insert (sh_expires_at s) (w_ends ` set (sh_ways (keep w s))))"
  by (simp add: keep_def Let_def latest_end latest_end_Max insert_commute)

lemma keep_fields [simp]:
  "sh_subject (keep w s) = sh_subject s" "sh_secret_hash (keep w s) = sh_secret_hash s"
  "sh_name (keep w s) = sh_name s" "sh_serial_number (keep w s) = sh_serial_number s"
  by (simp_all add: keep_def Let_def)

lemma keep_later:
  assumes "shared_ok s" "\<forall>o'\<in>set (sh_ways s). w_ends o' \<le> w_ends w" "0 < w_ends w"
  shows "shared_ok (keep w s)" "sh_expires_at (keep w s) = w_ends w"
proof -
  have le: "sh_expires_at s \<le> w_ends w"
    using assms by (auto simp: shared_ok_def)
  have "Max (insert (sh_expires_at s) (w_ends ` set (sh_ways (keep w s)))) = w_ends w"
    using le assms(2) by (intro Max_eqI) (auto simp: keep_ways)
  then show e: "sh_expires_at (keep w s) = w_ends w" by (simp add: keep_expires)
  have m: "Max (w_ends ` set (sh_ways (keep w s))) = w_ends w"
    using assms(2) by (intro Max_eqI) (auto simp: keep_ways)
  have "distinct (map w_method (sh_ways (keep w s)))"
    using assms(1) by (auto simp: shared_ok_def keep_ways distinct_map_filter)
  with e m show "shared_ok (keep w s)" by (simp add: shared_ok_def keep_ways)
qed

end
