(* ===== verification/Session_Spec.thy ===== *)
theory Session_Spec
  imports Session_Types
begin

text \<open>
  What the session store promises its callers, the interface \<open>SessionStore\<close> of \<open>src/app.go\<close>: its
  operations as a record of functions, the abstract state a store stands for (what is live in it,
  by kind), what each operation does to that state, and the locale of the stores that keep the
  promise. \<open>Memory_Store\<close> and \<open>Valkey_Store\<close> provide it; the request handlers rely on it alone.

  Each operation is given the time its store reads while it runs. A store that could not answer
  says \<open>Unavailable\<close>, and the write may or may not have happened.
\<close>

section \<open>The operations\<close>

datatype store_error = Not_Found | Already_Exists | Unavailable

type_synonym ('c, 'a) store_op = "time \<Rightarrow> ('c, store_error, 'a) act"

record 'c store_ops =
  op_save_flow :: "string \<Rightarrow> flow \<Rightarrow> duration \<Rightarrow> ('c, unit) store_op"
  op_consume_flow :: "string \<Rightarrow> ('c, flow) store_op"
  op_save_app_code :: "string \<Rightarrow> app_code \<Rightarrow> duration \<Rightarrow> ('c, unit) store_op"
  op_consume_app_code :: "string \<Rightarrow> ('c, app_code) store_op"
  op_create_session :: "string \<Rightarrow> session \<Rightarrow> duration \<Rightarrow> ('c, session) store_op"
  op_replace_session :: "string \<Rightarrow> session \<Rightarrow> ('c, unit) store_op"
  op_load_session :: "string \<Rightarrow> ('c, session) store_op"
  op_delete_session :: "string \<Rightarrow> ('c, unit) store_op"
  op_save_refresh :: "string \<Rightarrow> refresh_grant \<Rightarrow> time \<Rightarrow> ('c, unit) store_op"
  op_load_refresh :: "string \<Rightarrow> ('c, refresh_grant) store_op"
  op_take_refresh :: "string \<Rightarrow> ('c, refresh_grant) store_op"
  op_delete_refresh :: "string \<Rightarrow> ('c, unit) store_op"
  op_create_shared :: "string \<Rightarrow> shared \<Rightarrow> ('c, unit) store_op"
  op_replace_shared :: "string \<Rightarrow> shared \<Rightarrow> ('c, unit) store_op"
  op_load_shared :: "string \<Rightarrow> ('c, shared) store_op"
  op_put_shared_app :: "string \<Rightarrow> string \<Rightarrow> string \<Rightarrow> time \<Rightarrow> ('c, string) store_op"
  op_end_shared :: "string \<Rightarrow> ('c, (string \<times> string) list) store_op"
  op_add_connection :: "string \<Rightarrow> string \<Rightarrow> connection \<Rightarrow> time \<Rightarrow> ('c, unit) store_op"
  op_connections :: "string \<Rightarrow> string \<Rightarrow> ('c, connection list) store_op"
  op_remove_connection :: "string \<Rightarrow> string \<Rightarrow> connection \<Rightarrow> ('c, unit) store_op"

section \<open>What is live\<close>

record view =
  v_flows :: "string \<rightharpoonup> flow"
  v_codes :: "string \<rightharpoonup> app_code"
  v_sessions :: "string \<rightharpoonup> session"
  v_refresh :: "string \<rightharpoonup> refresh_grant"
  v_shared :: "string \<rightharpoonup> shared"
  v_apps :: "string \<Rightarrow> string \<rightharpoonup> string"
  v_conns :: "string \<Rightarrow> connection set"

text \<open>Time only takes entries away.\<close>

definition view_le :: "view \<Rightarrow> view \<Rightarrow> bool" where
  "view_le v w \<longleftrightarrow> v_flows v \<subseteq>\<^sub>m v_flows w \<and> v_codes v \<subseteq>\<^sub>m v_codes w \<and> v_sessions v \<subseteq>\<^sub>m v_sessions w
     \<and> v_refresh v \<subseteq>\<^sub>m v_refresh w \<and> v_shared v \<subseteq>\<^sub>m v_shared w
     \<and> (\<forall>i. v_apps v i \<subseteq>\<^sub>m v_apps w i) \<and> (\<forall>k. v_conns v k \<subseteq> v_conns w k)"

lemma view_le_refl [simp]: "view_le v v"
  by (simp add: view_le_def)

section \<open>What an operation does\<close>

type_synonym 'a outcome = "view \<Rightarrow> store_error + 'a \<Rightarrow> view \<Rightarrow> bool"

definition does :: "(view \<Rightarrow> (store_error + 'a) \<times> view) \<Rightarrow> 'a outcome" where
  "does f v r v' \<longleftrightarrow> (r, v') = f v"

definition spec_put :: "(view \<Rightarrow> view) \<Rightarrow> unit outcome" where
  "spec_put f = does (\<lambda>v. (Inr (), f v))"

definition spec_put_until :: "bool \<Rightarrow> (view \<Rightarrow> view) \<Rightarrow> unit outcome" where
  "spec_put_until ended f = does (\<lambda>v. if ended then (Inl Not_Found, v) else (Inr (), f v))"

definition spec_get :: "(view \<Rightarrow> 'a option) \<Rightarrow> 'a outcome" where
  "spec_get g = does (\<lambda>v. (case g v of Some x \<Rightarrow> Inr x | None \<Rightarrow> Inl Not_Found, v))"

definition spec_take :: "(view \<Rightarrow> 'a option) \<Rightarrow> (view \<Rightarrow> view) \<Rightarrow> 'a outcome" where
  "spec_take g d = does (\<lambda>v. case g v of Some x \<Rightarrow> (Inr x, d v) | None \<Rightarrow> (Inl Not_Found, v))"

definition spec_create_session :: "string \<Rightarrow> session \<Rightarrow> duration \<Rightarrow> time \<Rightarrow> session outcome" where
  "spec_create_session sid s lifetime now = does (\<lambda>v.
     let s' = s\<lparr>s_expires_at := now + lifetime\<rparr> in
     if v_sessions v sid \<noteq> None then (Inl Already_Exists, v)
     else (Inr s', v\<lparr>v_sessions := (v_sessions v)(sid \<mapsto> s')\<rparr>))"

definition spec_replace_session :: "string \<Rightarrow> session \<Rightarrow> time \<Rightarrow> unit outcome" where
  "spec_replace_session sid s now = does (\<lambda>v.
     if session_expired s now \<or> v_sessions v sid = None then (Inl Not_Found, v)
     else (Inr (), v\<lparr>v_sessions := (v_sessions v)(sid \<mapsto> s)\<rparr>))"

definition live_session :: "view \<Rightarrow> time \<Rightarrow> string \<Rightarrow> session option" where
  "live_session v now sid =
     (case v_sessions v sid of Some s \<Rightarrow> if session_expired s now then None else Some s | None \<Rightarrow> None)"

definition live_shared :: "view \<Rightarrow> time \<Rightarrow> string \<Rightarrow> shared option" where
  "live_shared v now i =
     (case v_shared v i of Some s \<Rightarrow> if shared_expired s now then None else Some s | None \<Rightarrow> None)"

definition spec_create_shared :: "string \<Rightarrow> shared \<Rightarrow> time \<Rightarrow> unit outcome" where
  "spec_create_shared i s now = does (\<lambda>v.
     if shared_expired s now then (Inl Not_Found, v)
     else if v_shared v i \<noteq> None then (Inl Already_Exists, v)
     else (Inr (), v\<lparr>v_shared := (v_shared v)(i \<mapsto> s)\<rparr>))"

definition spec_replace_shared :: "string \<Rightarrow> shared \<Rightarrow> time \<Rightarrow> unit outcome" where
  "spec_replace_shared i s now = does (\<lambda>v.
     if shared_expired s now \<or> v_shared v i = None then (Inl Not_Found, v)
     else (Inr (), v\<lparr>v_shared := (v_shared v)(i \<mapsto> s)\<rparr>))"

text \<open>A list lives for whole milliseconds: one that ends within the next may be gone at once.\<close>

definition spec_put_shared_app :: "string \<Rightarrow> string \<Rightarrow> string \<Rightarrow> time \<Rightarrow> time \<Rightarrow> string outcome" where
  "spec_put_shared_app i client sid till now v r v' \<longleftrightarrow>
     (if till \<le> now then r = Inl Not_Found \<and> v' = v
      else r = Inr (case v_apps v i client of Some old \<Rightarrow> old | None \<Rightarrow> []) \<and>
        (\<exists>M. M \<subseteq>\<^sub>m (v_apps v i)(client \<mapsto> sid) \<and> (now + millisecond \<le> till \<longrightarrow> M = (v_apps v i)(client \<mapsto> sid))
           \<and> v' = v\<lparr>v_apps := (v_apps v)(i := M)\<rparr>))"

text \<open>The record goes first and its list after it: a store that fails between leaves the list.\<close>

definition spec_end_shared :: "string \<Rightarrow> (string \<times> string) list outcome" where
  "spec_end_shared i v r v' \<longleftrightarrow>
     (if v_shared v i = None then r = Inl Not_Found \<and> v' = v
      else (\<exists>apps. r = Inr apps \<and> distinct (map fst apps) \<and> map_of apps = v_apps v i
              \<and> v' = v\<lparr>v_shared := (v_shared v)(i := None), v_apps := (v_apps v)(i := Map.empty)\<rparr>)
        \<or> r = Inl Unavailable \<and> v' = v\<lparr>v_shared := (v_shared v)(i := None)\<rparr>)"

definition conn_key :: "string \<Rightarrow> string \<Rightarrow> string" where
  "conn_key tenant assistant = tenant @ ''/'' @ assistant"

text \<open>An index counts milliseconds: a connection that ends within one may not show in it. A connection's
  name is a random token, which holds no space; of one that does, nothing is promised but that only the
  index named changes.\<close>

definition spec_add_connection :: "string \<Rightarrow> string \<Rightarrow> connection \<Rightarrow> time \<Rightarrow> time \<Rightarrow> unit outcome" where
  "spec_add_connection t a c till now v r v' \<longleftrightarrow>
     (if till \<le> now then r = Inl Not_Found \<and> v' = v
      else r = Inr () \<and>
        (\<exists>S. (CHR '' '' \<notin> set (con_id c) \<longrightarrow>
                S \<subseteq> insert c (v_conns v (conn_key t a))
                \<and> (now + millisecond \<le> till \<longrightarrow> S = insert c (v_conns v (conn_key t a))))
           \<and> v' = v\<lparr>v_conns := (v_conns v)(conn_key t a := S)\<rparr>))"

definition spec_connections :: "string \<Rightarrow> string \<Rightarrow> connection list outcome" where
  "spec_connections t a v r v' \<longleftrightarrow> (\<exists>cs. r = Inr cs \<and> set cs = v_conns v (conn_key t a) \<and> v' = v)"

definition spec_remove_connection :: "string \<Rightarrow> string \<Rightarrow> connection \<Rightarrow> unit outcome" where
  "spec_remove_connection t a c v r v' \<longleftrightarrow>
     r = Inr () \<and>
     (\<exists>S. (CHR '' '' \<notin> set (con_id c) \<longrightarrow> S = v_conns v (conn_key t a) - {c})
        \<and> v' = v\<lparr>v_conns := (v_conns v)(conn_key t a := S)\<rparr>)"

lemmas spec_defs = does_def spec_put_def spec_put_until_def spec_get_def spec_take_def spec_create_session_def
  spec_replace_session_def spec_create_shared_def spec_replace_shared_def spec_put_shared_app_def
  spec_end_shared_def spec_add_connection_def spec_connections_def spec_remove_connection_def

section \<open>The stores that keep the promise\<close>

text \<open>An operation does what its outcome says to what is live, or could not answer.\<close>

definition refines :: "('c \<Rightarrow> view) \<Rightarrow> ('c, store_error, 'a) act \<Rightarrow> 'a outcome \<Rightarrow> bool" where
  "refines V m S \<longleftrightarrow> (\<forall>c r c'. m c = (r, c') \<longrightarrow>
     S (V c) r (V c') \<or> r = Inl Unavailable \<and> (V c' = V c \<or> (\<exists>q. S (V c) q (V c'))))"

lemma refinesI: "(\<And>c r c'. m c = (r, c') \<Longrightarrow> S (V c) r (V c')) \<Longrightarrow> refines V m S"
  by (simp add: refines_def)

lemma refines_Inr: "refines V m S \<Longrightarrow> m c = (Inr x, c') \<Longrightarrow> S (V c) (Inr x) (V c')"
  by (force simp: refines_def)

lemma refines_Inl:
  "refines V m S \<Longrightarrow> m c = (Inl e, c') \<Longrightarrow> e \<noteq> Unavailable \<Longrightarrow> S (V c) (Inl e) (V c')"
  by (force simp: refines_def)

locale session_store =
  fixes ops :: "'c store_ops"
    and V :: "time \<Rightarrow> 'c \<Rightarrow> view"
  assumes later: "\<And>now now' c. now \<le> now' \<Longrightarrow> view_le (V now' c) (V now c)"
    and save_flow: "\<And>now k f ttl. 0 \<le> now \<Longrightarrow> 0 < ttl \<Longrightarrow>
      refines (V now) (op_save_flow ops k f ttl now) (spec_put (\<lambda>v. v\<lparr>v_flows := (v_flows v)(k \<mapsto> f)\<rparr>))"
    and consume_flow: "\<And>now k. 0 \<le> now \<Longrightarrow>
      refines (V now) (op_consume_flow ops k now) (spec_take (\<lambda>v. v_flows v k) (\<lambda>v. v\<lparr>v_flows := (v_flows v)(k := None)\<rparr>))"
    and save_app_code: "\<And>now k f ttl. 0 \<le> now \<Longrightarrow> 0 < ttl \<Longrightarrow>
      refines (V now) (op_save_app_code ops k f ttl now) (spec_put (\<lambda>v. v\<lparr>v_codes := (v_codes v)(k \<mapsto> f)\<rparr>))"
    and consume_app_code: "\<And>now k. 0 \<le> now \<Longrightarrow>
      refines (V now) (op_consume_app_code ops k now) (spec_take (\<lambda>v. v_codes v k) (\<lambda>v. v\<lparr>v_codes := (v_codes v)(k := None)\<rparr>))"
    and create_session: "\<And>now sid s lifetime. 0 \<le> now \<Longrightarrow> 0 < lifetime \<Longrightarrow>
      refines (V now) (op_create_session ops sid s lifetime now) (spec_create_session sid s lifetime now)"
    and replace_session: "\<And>now sid s. 0 \<le> now \<Longrightarrow>
      refines (V now) (op_replace_session ops sid s now) (spec_replace_session sid s now)"
    and load_session: "\<And>now sid. 0 \<le> now \<Longrightarrow>
      refines (V now) (op_load_session ops sid now) (spec_get (\<lambda>v. live_session v now sid))"
    and delete_session: "\<And>now sid. 0 \<le> now \<Longrightarrow>
      refines (V now) (op_delete_session ops sid now) (spec_put (\<lambda>v. v\<lparr>v_sessions := (v_sessions v)(sid := None)\<rparr>))"
    and save_refresh: "\<And>now k g till. 0 \<le> now \<Longrightarrow>
      refines (V now) (op_save_refresh ops k g till now) (spec_put_until (till \<le> now) (\<lambda>v. v\<lparr>v_refresh := (v_refresh v)(k \<mapsto> g)\<rparr>))"
    and load_refresh: "\<And>now k. 0 \<le> now \<Longrightarrow>
      refines (V now) (op_load_refresh ops k now) (spec_get (\<lambda>v. v_refresh v k))"
    and take_refresh: "\<And>now k. 0 \<le> now \<Longrightarrow>
      refines (V now) (op_take_refresh ops k now) (spec_take (\<lambda>v. v_refresh v k) (\<lambda>v. v\<lparr>v_refresh := (v_refresh v)(k := None)\<rparr>))"
    and delete_refresh: "\<And>now k. 0 \<le> now \<Longrightarrow>
      refines (V now) (op_delete_refresh ops k now) (spec_put (\<lambda>v. v\<lparr>v_refresh := (v_refresh v)(k := None)\<rparr>))"
    and create_shared: "\<And>now i s. 0 \<le> now \<Longrightarrow>
      refines (V now) (op_create_shared ops i s now) (spec_create_shared i s now)"
    and replace_shared: "\<And>now i s. 0 \<le> now \<Longrightarrow>
      refines (V now) (op_replace_shared ops i s now) (spec_replace_shared i s now)"
    and load_shared: "\<And>now i. 0 \<le> now \<Longrightarrow>
      refines (V now) (op_load_shared ops i now) (spec_get (\<lambda>v. live_shared v now i))"
    and put_shared_app: "\<And>now i client sid till. 0 \<le> now \<Longrightarrow>
      refines (V now) (op_put_shared_app ops i client sid till now) (spec_put_shared_app i client sid till now)"
    and end_shared: "\<And>now i. 0 \<le> now \<Longrightarrow>
      refines (V now) (op_end_shared ops i now) (spec_end_shared i)"
    and add_connection: "\<And>now t a c till. 0 \<le> now \<Longrightarrow>
      refines (V now) (op_add_connection ops t a c till now) (spec_add_connection t a c till now)"
    and connections: "\<And>now t a. 0 \<le> now \<Longrightarrow>
      refines (V now) (op_connections ops t a now) (spec_connections t a)"
    and remove_connection: "\<And>now t a c. 0 \<le> now \<Longrightarrow>
      refines (V now) (op_remove_connection ops t a c now) (spec_remove_connection t a c)"

section \<open>What a caller may rely on\<close>

context session_store begin

text \<open>A code, a flow or a refresh grant is taken at most once: once it was, taking it again at any
  later time answers nothing, unless it was saved again.\<close>

lemma code_taken:
  assumes "0 \<le> now" "op_consume_app_code ops k now c = (Inr x, c')" "now \<le> now'"
  shows "v_codes (V now c) k = Some x" "v_codes (V now' c') k = None"
proof -
  have *: "v_codes (V now c) k = Some x \<and> V now c' = (V now c)\<lparr>v_codes := (v_codes (V now c))(k := None)\<rparr>"
    using refines_Inr[OF consume_app_code[OF assms(1)] assms(2)] by (auto simp: spec_defs split: option.splits)
  then show "v_codes (V now c) k = Some x" by simp
  from * later[OF assms(3), of c'] show "v_codes (V now' c') k = None"
    by (auto simp: view_le_def map_le_def dom_def)
qed

lemma code_needed:
  assumes "0 \<le> now" "v_codes (V now c) k = None"
  shows "\<exists>e. fst (op_consume_app_code ops k now c) = Inl e"
  using assms(2) refines_Inr[OF consume_app_code[OF assms(1), of k], of c]
  by (cases "op_consume_app_code ops k now c"; cases "fst (op_consume_app_code ops k now c)")
    (auto simp: spec_defs)

lemma flow_taken:
  assumes "0 \<le> now" "op_consume_flow ops k now c = (Inr x, c')" "now \<le> now'"
  shows "v_flows (V now c) k = Some x" "v_flows (V now' c') k = None"
proof -
  have *: "v_flows (V now c) k = Some x \<and> V now c' = (V now c)\<lparr>v_flows := (v_flows (V now c))(k := None)\<rparr>"
    using refines_Inr[OF consume_flow[OF assms(1)] assms(2)] by (auto simp: spec_defs split: option.splits)
  then show "v_flows (V now c) k = Some x" by simp
  from * later[OF assms(3), of c'] show "v_flows (V now' c') k = None"
    by (auto simp: view_le_def map_le_def dom_def)
qed

text \<open>Only a live session is loaded, and a session that has ended is never written over.\<close>

lemma loaded_session:
  assumes "0 \<le> now" "op_load_session ops sid now c = (Inr s, c')"
  shows "v_sessions (V now c) sid = Some s" "\<not> session_expired s now" "V now c' = V now c"
  using refines_Inr[OF load_session[OF assms(1)] assms(2)]
  by (auto simp: spec_defs live_session_def split: option.splits if_splits)

lemma ended_session_stays_ended:
  assumes "0 \<le> now" "v_sessions (V now c) sid = None" "op_replace_session ops sid s now c = (r, c')"
  shows "v_sessions (V now c') sid = None \<and> (\<exists>e. r = Inl e)"
  using assms(2,3) replace_session[OF assms(1), of sid s]
  by (fastforce simp: refines_def spec_defs)

lemma ended_session_not_loaded:
  assumes "0 \<le> now" "v_sessions (V now c) sid = None" "now \<le> now'"
  shows "\<exists>e. fst (op_load_session ops sid now' c) = Inl e"
proof -
  have "v_sessions (V now' c) sid = None"
    using later[OF assms(3), of c] assms(2) by (auto simp: view_le_def map_le_def dom_def)
  moreover have "0 \<le> now'" using assms by simp
  ultimately show ?thesis
    using loaded_session(1)[of now' sid c] by (cases "op_load_session ops sid now' c"; cases "fst (op_load_session ops sid now' c)") auto
qed

text \<open>What each operation that answered a value did.\<close>

lemma saved_code:
  "0 \<le> now \<Longrightarrow> 0 < ttl \<Longrightarrow> op_save_app_code ops k x ttl now c = (Inr u, c') \<Longrightarrow>
     V now c' = (V now c)\<lparr>v_codes := (v_codes (V now c))(k \<mapsto> x)\<rparr>"
  using refines_Inr[OF save_app_code] by (auto simp: spec_defs)

lemma saved_flow:
  "0 \<le> now \<Longrightarrow> 0 < ttl \<Longrightarrow> op_save_flow ops k x ttl now c = (Inr u, c') \<Longrightarrow>
     V now c' = (V now c)\<lparr>v_flows := (v_flows (V now c))(k \<mapsto> x)\<rparr>"
  using refines_Inr[OF save_flow] by (auto simp: spec_defs)

lemma consumed_code:
  "0 \<le> now \<Longrightarrow> op_consume_app_code ops k now c = (Inr x, c') \<Longrightarrow>
     v_codes (V now c) k = Some x \<and> V now c' = (V now c)\<lparr>v_codes := (v_codes (V now c))(k := None)\<rparr>"
  using refines_Inr[OF consume_app_code] by (fastforce simp: spec_defs split: option.splits)

lemma consumed_flow:
  "0 \<le> now \<Longrightarrow> op_consume_flow ops k now c = (Inr x, c') \<Longrightarrow>
     v_flows (V now c) k = Some x \<and> V now c' = (V now c)\<lparr>v_flows := (v_flows (V now c))(k := None)\<rparr>"
  using refines_Inr[OF consume_flow] by (fastforce simp: spec_defs split: option.splits)

lemma created_session:
  "0 \<le> now \<Longrightarrow> 0 < life \<Longrightarrow> op_create_session ops sid s life now c = (Inr s', c') \<Longrightarrow>
     v_sessions (V now c) sid = None \<and> s' = s\<lparr>s_expires_at := now + life\<rparr>
     \<and> V now c' = (V now c)\<lparr>v_sessions := (v_sessions (V now c))(sid \<mapsto> s')\<rparr>"
  using refines_Inr[OF create_session] by (fastforce simp: spec_defs Let_def split: if_splits)

lemma replaced_session:
  "0 \<le> now \<Longrightarrow> op_replace_session ops sid s now c = (Inr u, c') \<Longrightarrow>
     v_sessions (V now c) sid \<noteq> None \<and> \<not> session_expired s now
     \<and> V now c' = (V now c)\<lparr>v_sessions := (v_sessions (V now c))(sid \<mapsto> s)\<rparr>"
  using refines_Inr[OF replace_session] by (fastforce simp: spec_defs split: if_splits)

lemma deleted_session:
  "0 \<le> now \<Longrightarrow> op_delete_session ops sid now c = (Inr u, c') \<Longrightarrow>
     V now c' = (V now c)\<lparr>v_sessions := (v_sessions (V now c))(sid := None)\<rparr>"
  using refines_Inr[OF delete_session] by (auto simp: spec_defs)

lemma saved_refresh:
  "0 \<le> now \<Longrightarrow> op_save_refresh ops k g till now c = (Inr u, c') \<Longrightarrow>
     now < till \<and> V now c' = (V now c)\<lparr>v_refresh := (v_refresh (V now c))(k \<mapsto> g)\<rparr>"
  using refines_Inr[OF save_refresh] by (fastforce simp: spec_defs split: if_splits)

lemma loaded_refresh:
  "0 \<le> now \<Longrightarrow> op_load_refresh ops k now c = (Inr g, c') \<Longrightarrow> v_refresh (V now c) k = Some g \<and> V now c' = V now c"
  using refines_Inr[OF load_refresh] by (fastforce simp: spec_defs split: option.splits)

lemma taken_refresh:
  "0 \<le> now \<Longrightarrow> op_take_refresh ops k now c = (Inr g, c') \<Longrightarrow>
     v_refresh (V now c) k = Some g \<and> V now c' = (V now c)\<lparr>v_refresh := (v_refresh (V now c))(k := None)\<rparr>"
  using refines_Inr[OF take_refresh] by (fastforce simp: spec_defs split: option.splits)

lemma deleted_refresh:
  "0 \<le> now \<Longrightarrow> op_delete_refresh ops k now c = (Inr u, c') \<Longrightarrow>
     V now c' = (V now c)\<lparr>v_refresh := (v_refresh (V now c))(k := None)\<rparr>"
  using refines_Inr[OF delete_refresh] by (auto simp: spec_defs)

lemma refresh_gone:
  "0 \<le> now \<Longrightarrow> op_load_refresh ops k now c = (Inl Not_Found, c') \<Longrightarrow> v_refresh (V now c) k = None \<and> V now c' = V now c"
  using refines_Inl[OF load_refresh] by (fastforce simp: spec_defs split: option.splits)

lemma session_gone:
  "0 \<le> now \<Longrightarrow> op_load_session ops sid now c = (Inl Not_Found, c') \<Longrightarrow> live_session (V now c) now sid = None \<and> V now c' = V now c"
  using refines_Inl[OF load_session] by (fastforce simp: spec_defs split: option.splits)

end

end
