(* ===== verification/Keys.thy ===== *)
theory Keys
  imports Session_Types "HOL-Library.AList"
begin

text \<open>
  The signing keys, \<open>src/keys/keys.go\<close>: the active key, the retired ones still trusted, signing with
  the active key and finding a key by its id.

  Keys, signatures and hashes are outside the repository and come as a record of functions: a
  private and a public key are the text of their encodings, a token is its compact text, and
  \<open>cr_open\<close> reads a token's header and claims without trusting them. The claims of every token this
  service signs are one record; a claim that is absent is empty.
\<close>

section \<open>Tokens and the functions that make them\<close>

record jose_header =
  jh_alg :: string
  jh_kid :: string
  jh_typ :: string

text \<open>The actor chain: who acts, and for whom they were acting.\<close>

datatype actor = Actor (act_subject: string) (act_prior: "actor option")

record claim_set =
  cl_issuer :: string
  cl_subject :: string
  cl_audience :: "string list"
  cl_issued_at :: int
  cl_not_before :: "int option"
  cl_expires_at :: "int option"
  cl_jti :: string
  cl_scope :: string
  cl_loa :: string
  cl_login_method :: string
  cl_name :: string
  cl_given_name :: string
  cl_family_name :: string
  cl_serial_number :: string
  cl_tenant :: string
  cl_client_id :: string
  cl_jkt :: string
  cl_act :: "actor option"
  cl_sid :: string
  cl_nonce :: string
  cl_auth_time :: int
  cl_acr :: string
  cl_amr :: "string list"

definition empty_claims :: claim_set where
  "empty_claims = \<lparr>cl_issuer = [], cl_subject = [], cl_audience = [], cl_issued_at = 0, cl_not_before = None,
     cl_expires_at = None, cl_jti = [], cl_scope = [], cl_loa = [], cl_login_method = [], cl_name = [],
     cl_given_name = [], cl_family_name = [], cl_serial_number = [], cl_tenant = [], cl_client_id = [],
     cl_jkt = [], cl_act = None, cl_sid = [], cl_nonce = [], cl_auth_time = 0, cl_acr = [], cl_amr = []\<rparr>"

record crypto =
  cr_parse_pem :: "string \<Rightarrow> string option"
  cr_public :: "string \<Rightarrow> string"
  cr_thumbprint :: "string \<Rightarrow> string option"
  cr_sign :: "string \<Rightarrow> jose_header \<Rightarrow> claim_set \<Rightarrow> string option"
  cr_open :: "string \<Rightarrow> (jose_header \<times> claim_set) option"
  cr_verify :: "string \<Rightarrow> string \<Rightarrow> bool"
  cr_sha256 :: "string \<Rightarrow> string"

text \<open>What signing promises [RFC 7515]: a signed token carries the header and the claims that were
  signed, and verifies under the signer's public key.\<close>

definition signs_faithfully :: "crypto \<Rightarrow> bool" where
  "signs_faithfully cr \<longleftrightarrow>
     (\<forall>k h c t. cr_sign cr k h c = Some t \<longrightarrow> cr_open cr t = Some (h, c) \<and> cr_verify cr (cr_public cr k) t)"

section \<open>The key manager\<close>

record signing_key =
  sk_kid :: string
  sk_key :: string

record manager =
  km_ephemeral :: bool
  km_active :: signing_key
  km_retired :: "signing_key list"

definition es256 :: string where "es256 = ''ES256''"

definition alg :: "manager \<Rightarrow> string" where
  "alg m = es256"

datatype key_error = Bad_Key | No_Thumbprint

text \<open>The key \<open>pem\<close> holds, named by its thumbprint.\<close>

definition named_key :: "crypto \<Rightarrow> string option \<Rightarrow> key_error + signing_key" where
  "named_key cr key =
     (case key of
        None \<Rightarrow> Inl Bad_Key
      | Some k \<Rightarrow>
          (case cr_thumbprint cr (cr_public cr k) of
             None \<Rightarrow> Inl No_Thumbprint
           | Some kid \<Rightarrow> Inr \<lparr>sk_kid = kid, sk_key = k\<rparr>))"

text \<open>\<open>generated\<close> is what generating a key would answer.\<close>

definition new_manager :: "crypto \<Rightarrow> string option \<Rightarrow> string \<Rightarrow> key_error + manager" where
  "new_manager cr generated pem =
     (case named_key cr (if pem = [] then generated else cr_parse_pem cr pem) of
        Inl e \<Rightarrow> Inl e
      | Inr k \<Rightarrow> Inr \<lparr>km_ephemeral = (pem = []), km_active = k, km_retired = []\<rparr>)"

definition sign_typed :: "crypto \<Rightarrow> manager \<Rightarrow> claim_set \<Rightarrow> string \<Rightarrow> string option" where
  "sign_typed cr m c typ =
     cr_sign cr (sk_key (km_active m))
       \<lparr>jh_alg = es256, jh_kid = sk_kid (km_active m), jh_typ = (if typ = [] then ''JWT'' else typ)\<rparr> c"

definition sign :: "crypto \<Rightarrow> manager \<Rightarrow> claim_set \<Rightarrow> string option" where
  "sign cr m c = sign_typed cr m c []"

text \<open>The published set: each key as its id and its public half.\<close>

definition jwks :: "crypto \<Rightarrow> manager \<Rightarrow> (string \<times> string) list" where
  "jwks cr m = map (\<lambda>k. (sk_kid k, cr_public cr (sk_key k))) (km_active m # km_retired m)"

definition maybe_rotate :: "crypto \<Rightarrow> string \<Rightarrow> manager \<Rightarrow> (key_error + bool) \<times> manager" where
  "maybe_rotate cr pem m =
     (if pem = [] then (Inr False, m)
      else
        (case named_key cr (cr_parse_pem cr pem) of
           Inl e \<Rightarrow> (Inl e, m)
         | Inr k \<Rightarrow>
             if sk_kid (km_active m) = sk_kid k then (Inr False, m)
             else (Inr True, m\<lparr>km_retired := km_retired m @ [km_active m], km_active := k, km_ephemeral := False\<rparr>)))"

definition rotate :: "crypto \<Rightarrow> string \<Rightarrow> manager \<Rightarrow> (key_error + unit) \<times> manager" where
  "rotate cr pem m = (case maybe_rotate cr pem m of (r, m') \<Rightarrow> (map_sum id (\<lambda>_. ()) r, m'))"

definition public_key_by_kid :: "crypto \<Rightarrow> manager \<Rightarrow> string \<Rightarrow> string option" where
  "public_key_by_kid cr m kid =
     (if sk_kid (km_active m) = kid then Some (cr_public cr (sk_key (km_active m)))
      else map_option (\<lambda>k. cr_public cr (sk_key k)) (first (\<lambda>k. sk_kid k = kid) (km_retired m)))"

definition active_kid :: "manager \<Rightarrow> string" where
  "active_kid m = sk_kid (km_active m)"

section \<open>Facts\<close>

text \<open>Every key is named by its own thumbprint, so one id never names two keys.\<close>

definition manager_ok :: "crypto \<Rightarrow> manager \<Rightarrow> bool" where
  "manager_ok cr m \<longleftrightarrow>
     (\<forall>k\<in>set (km_active m # km_retired m). cr_thumbprint cr (cr_public cr (sk_key k)) = Some (sk_kid k))"

definition thumbprints_apart :: "crypto \<Rightarrow> bool" where
  "thumbprints_apart cr \<longleftrightarrow> (\<forall>p q t. cr_thumbprint cr p = Some t \<longrightarrow> cr_thumbprint cr q = Some t \<longrightarrow> p = q)"

lemma named_key_ok: "named_key cr key = Inr k \<Longrightarrow> cr_thumbprint cr (cr_public cr (sk_key k)) = Some (sk_kid k)"
  by (auto simp: named_key_def split: option.splits)

lemma new_manager_ok [wf_intros]: "new_manager cr g pem = Inr m \<Longrightarrow> manager_ok cr m"
  by (auto simp: new_manager_def manager_ok_def named_key_ok split: sum.splits)

lemma maybe_rotate_ok [wf_intros]:
  "manager_ok cr m \<Longrightarrow> maybe_rotate cr pem m = (r, m') \<Longrightarrow> manager_ok cr m'"
  by (auto simp: maybe_rotate_def manager_ok_def named_key_ok split: sum.splits if_splits)

text \<open>A key once held is found by its id through every later rotation.\<close>

lemma public_key_mem:
  assumes "manager_ok cr m" "thumbprints_apart cr" "k \<in> set (km_active m # km_retired m)"
  shows "public_key_by_kid cr m (sk_kid k) = Some (cr_public cr (sk_key k))"
proof -
  have same: "cr_public cr (sk_key j) = cr_public cr (sk_key k)"
    if "j \<in> set (km_active m # km_retired m)" "sk_kid j = sk_kid k" for j
    using assms that unfolding manager_ok_def thumbprints_apart_def by metis
  show ?thesis
  proof (cases "sk_kid (km_active m) = sk_kid k")
    case False
    with assms(3) have "k \<in> set (km_retired m)" by auto
    then obtain j where "first (\<lambda>j. sk_kid j = sk_kid k) (km_retired m) = Some j"
      using first_Some_ex[of k "km_retired m" "\<lambda>j. sk_kid j = sk_kid k"] by blast
    with False same first_SomeD[OF this] show ?thesis by (simp add: public_key_by_kid_def)
  qed (use same in \<open>simp add: public_key_by_kid_def\<close>)
qed

lemma maybe_rotate_keeps:
  "maybe_rotate cr pem m = (r, m') \<Longrightarrow> set (km_active m # km_retired m) \<subseteq> set (km_active m' # km_retired m')"
  by (auto simp: maybe_rotate_def split: sum.splits if_splits)

text \<open>Any number of key reloads, in order.\<close>

fun reloads :: "crypto \<Rightarrow> string list \<Rightarrow> manager \<Rightarrow> manager" where
  "reloads cr [] m = m"
| "reloads cr (pem # pems) m = reloads cr pems (snd (maybe_rotate cr pem m))"

lemma reloads_ok: "manager_ok cr m \<Longrightarrow> manager_ok cr (reloads cr pems m)"
  by (induction pems arbitrary: m) (auto intro: maybe_rotate_ok prod.collapse[symmetric])

lemma reloads_keep: "k \<in> set (km_active m # km_retired m) \<Longrightarrow> k \<in> set (km_active (reloads cr pems m) # km_retired (reloads cr pems m))"
proof (induction pems arbitrary: m)
  case (Cons pem pems)
  let ?m = "snd (maybe_rotate cr pem m)"
  have "k \<in> set (km_active ?m # km_retired ?m)"
    using maybe_rotate_keeps[OF prod.collapse[symmetric]] Cons.prems by (rule subsetD)
  from Cons.IH[OF this] show ?case by simp
qed simp

text \<open>A retired key never leaves: nothing drops one when the tokens signed with it have expired.\<close>

lemma retired_never_dropped: "length (km_retired m) \<le> length (km_retired (reloads cr pems m))"
proof (induction pems arbitrary: m)
  case (Cons pem pems)
  have "length (km_retired m) \<le> length (km_retired (snd (maybe_rotate cr pem m)))"
    by (auto simp: maybe_rotate_def split: sum.splits)
  with Cons[of "snd (maybe_rotate cr pem m)"] show ?case by simp
qed simp

end
