(* ===== verification/Issuer.thy ===== *)
theory Issuer
  imports Keys
begin

text \<open>
  Minting tokens, \<open>src/issuer/issuer.go\<close>: user, service, AI-app, delegated and ID tokens, and reading
  a subject token back. The random token id is an argument; \<open>now\<close> is the issuer's clock.
\<close>

record issuer =
  is_keys :: manager
  is_url :: string
  is_user_ttl :: duration
  is_service_ttl :: duration

definition type_access_token :: string where "type_access_token = ''at+jwt''"
definition type_id_token :: string where "type_id_token = ''JWT''"

text \<open>A registered claim's time is in whole seconds; the registered claims of every access token.\<close>

definition base_claims :: "issuer \<Rightarrow> time \<Rightarrow> string \<Rightarrow> string \<Rightarrow> string \<Rightarrow> duration \<Rightarrow> claim_set" where
  "base_claims i now jti subject audience ttl =
     empty_claims\<lparr>cl_issuer := is_url i, cl_subject := subject, cl_audience := [audience],
       cl_issued_at := unix now, cl_not_before := Some (unix now), cl_expires_at := Some (unix (now + ttl)),
       cl_jti := jti\<rparr>"

definition sign_access :: "crypto \<Rightarrow> issuer \<Rightarrow> claim_set \<Rightarrow> duration \<Rightarrow> (string \<times> int) option" where
  "sign_access cr i c ttl =
     map_option (\<lambda>t. (t, ttl div second)) (sign_typed cr (is_keys i) c type_access_token)"

record user_token_input =
  ut_subject :: string
  ut_audience :: string
  ut_scopes :: "string list"
  ut_loa :: string
  ut_login_method :: string
  ut_name :: string
  ut_given_name :: string
  ut_family_name :: string
  ut_serial_number :: string
  ut_tenant :: string
  ut_thumbprint :: string
  ut_client_id :: string

definition user_claims :: "issuer \<Rightarrow> time \<Rightarrow> string \<Rightarrow> user_token_input \<Rightarrow> claim_set" where
  "user_claims i now jti u =
     (base_claims i now jti (ut_subject u) (ut_audience u) (is_user_ttl i))
       \<lparr>cl_scope := join '' '' (ut_scopes u), cl_loa := ut_loa u, cl_login_method := ut_login_method u,
        cl_name := ut_name u, cl_given_name := ut_given_name u, cl_family_name := ut_family_name u,
        cl_serial_number := ut_serial_number u, cl_tenant := ut_tenant u, cl_client_id := ut_client_id u,
        cl_jkt := ut_thumbprint u\<rparr>"

definition issue_user :: "crypto \<Rightarrow> issuer \<Rightarrow> time \<Rightarrow> string \<Rightarrow> user_token_input \<Rightarrow> (string \<times> int) option" where
  "issue_user cr i now jti u = sign_access cr i (user_claims i now jti u) (is_user_ttl i)"

record service_token_input =
  st_client_id :: string
  st_audience :: string
  st_scopes :: "string list"
  st_tenant :: string
  st_thumbprint :: string

definition service_claims :: "issuer \<Rightarrow> time \<Rightarrow> string \<Rightarrow> service_token_input \<Rightarrow> claim_set" where
  "service_claims i now jti s =
     (base_claims i now jti (st_client_id s) (st_audience s) (is_service_ttl i))
       \<lparr>cl_client_id := st_client_id s, cl_scope := join '' '' (st_scopes s), cl_tenant := st_tenant s,
        cl_jkt := st_thumbprint s\<rparr>"

definition issue_service :: "crypto \<Rightarrow> issuer \<Rightarrow> time \<Rightarrow> string \<Rightarrow> service_token_input \<Rightarrow> (string \<times> int) option" where
  "issue_service cr i now jti s = sign_access cr i (service_claims i now jti s) (is_service_ttl i)"

record app_token_input =
  at_subject :: string
  at_audience :: string
  at_client_id :: string
  at_scopes :: "string list"
  at_tenant :: string
  at_assistant :: string
  at_loa :: string
  at_login_method :: string
  at_connection :: string
  at_ttl :: duration

definition app_claims :: "issuer \<Rightarrow> time \<Rightarrow> string \<Rightarrow> app_token_input \<Rightarrow> claim_set" where
  "app_claims i now jti a =
     (base_claims i now jti (at_subject a) (at_audience a) (at_ttl a))
       \<lparr>cl_scope := join '' '' (at_scopes a), cl_loa := at_loa a, cl_login_method := at_login_method a,
        cl_tenant := at_tenant a, cl_client_id := at_client_id a, cl_act := Some (Actor (at_assistant a) None),
        cl_sid := at_connection a\<rparr>"

definition issue_app :: "crypto \<Rightarrow> issuer \<Rightarrow> time \<Rightarrow> string \<Rightarrow> app_token_input \<Rightarrow> (string \<times> int) option" where
  "issue_app cr i now jti a =
     (if at_assistant a = [] \<or> at_ttl a \<le> 0 then None else sign_access cr i (app_claims i now jti a) (at_ttl a))"

record delegated_token_input =
  dt_subject :: string
  dt_audience :: string
  dt_scopes :: "string list"
  dt_loa :: string
  dt_login_method :: string
  dt_serial_number :: string
  dt_tenant :: string
  dt_actor :: "actor option"
  dt_thumbprint :: string
  dt_ttl :: duration

definition delegated_ttl :: "issuer \<Rightarrow> delegated_token_input \<Rightarrow> duration" where
  "delegated_ttl i d = (if 0 < dt_ttl d \<and> dt_ttl d < is_service_ttl i then dt_ttl d else is_service_ttl i)"

definition delegated_claims :: "issuer \<Rightarrow> time \<Rightarrow> string \<Rightarrow> delegated_token_input \<Rightarrow> claim_set" where
  "delegated_claims i now jti d =
     (base_claims i now jti (dt_subject d) (dt_audience d) (delegated_ttl i d))
       \<lparr>cl_scope := join '' '' (dt_scopes d), cl_loa := dt_loa d, cl_login_method := dt_login_method d,
        cl_serial_number := dt_serial_number d, cl_tenant := dt_tenant d, cl_act := dt_actor d,
        cl_jkt := dt_thumbprint d\<rparr>"

definition issue_delegated :: "crypto \<Rightarrow> issuer \<Rightarrow> time \<Rightarrow> string \<Rightarrow> delegated_token_input \<Rightarrow> (string \<times> int) option" where
  "issue_delegated cr i now jti d = sign_access cr i (delegated_claims i now jti d) (delegated_ttl i d)"

record id_token_input =
  it_subject :: string
  it_client_id :: string
  it_nonce :: string
  it_auth_time :: int
  it_acr :: string
  it_amr :: "string list"
  it_sid :: string

definition id_claims :: "issuer \<Rightarrow> time \<Rightarrow> id_token_input \<Rightarrow> claim_set" where
  "id_claims i now t =
     empty_claims\<lparr>cl_issuer := is_url i, cl_subject := it_subject t, cl_audience := [it_client_id t],
       cl_issued_at := unix now, cl_expires_at := Some (unix (now + is_user_ttl i)), cl_auth_time := it_auth_time t,
       cl_nonce := it_nonce t, cl_acr := it_acr t, cl_amr := it_amr t, cl_sid := it_sid t\<rparr>"

definition issue_id :: "crypto \<Rightarrow> issuer \<Rightarrow> time \<Rightarrow> id_token_input \<Rightarrow> string option" where
  "issue_id cr i now t = sign_typed cr (is_keys i) (id_claims i now t) type_id_token"

text \<open>Reading a subject token: the algorithm, the type and the key its header names, the signature,
  and the claims the parser was asked to check. A token is expired from the second its end names.\<close>

definition claims_current :: "time \<Rightarrow> claim_set \<Rightarrow> bool" where
  "claims_current now c \<longleftrightarrow>
     (case cl_expires_at c of Some e \<Rightarrow> now < of_unix e | None \<Rightarrow> False)
     \<and> (case cl_not_before c of Some n \<Rightarrow> of_unix n \<le> now | None \<Rightarrow> True)"

definition parse_subject_token :: "crypto \<Rightarrow> issuer \<Rightarrow> time \<Rightarrow> string \<Rightarrow> (claim_set \<times> string) option" where
  "parse_subject_token cr i now raw =
     (case cr_open cr raw of
        None \<Rightarrow> None
      | Some (h, c) \<Rightarrow>
          if jh_alg h \<noteq> alg (is_keys i) then None
          else if jh_typ h \<noteq> type_access_token then None
          else
            (case public_key_by_kid cr (is_keys i) (jh_kid h) of
               None \<Rightarrow> None
             | Some pk \<Rightarrow>
                 if \<not> cr_verify cr pk raw \<or> cl_issuer c \<noteq> is_url i \<or> \<not> claims_current now c then None
                 else Some (c, cl_sid c)))"

section \<open>Facts\<close>

lemma of_unix_le: "of_unix (unix t) \<le> t"
  by (simp add: of_unix_def unix_def second_def)

lemma div_less_iff:
  assumes "0 < s"
  shows "(t::int) div s < m \<longleftrightarrow> t < m * s"
proof
  assume "t div s < m"
  then have "(t div s + 1) * s \<le> m * s" using assms by (intro mult_right_mono) auto
  then have "(t div s) * s + s \<le> m * s" by (simp add: distrib_right)
  moreover have "(t div s) * s + t mod s = t" "t mod s < s" using assms by simp_all
  ultimately show "t < m * s" by linarith
next
  assume t: "t < m * s"
  show "t div s < m"
  proof (rule ccontr)
    assume "\<not> t div s < m"
    then have "m * s \<le> (t div s) * s" using assms by (intro mult_right_mono) auto
    also have "\<dots> \<le> t" using assms by (simp add: minus_mod_eq_div_mult[symmetric])
    finally show False using t by simp
  qed
qed

lemma of_unix_less: "t < of_unix n \<longleftrightarrow> unix t < n"
  using div_less_iff[of second t "n + 62135596800"] by (auto simp: unix_def of_unix_def second_def)

lemma claims_current_base:
  "cl_expires_at c = Some (unix (t + ttl)) \<Longrightarrow> cl_not_before c = Some (unix t) \<Longrightarrow> t \<le> now \<Longrightarrow>
     claims_current now c \<longleftrightarrow> unix now < unix (t + ttl)"
  using of_unix_le[of t] by (simp add: claims_current_def of_unix_less)

text \<open>A token signed under any key the manager holds now reads back as the claims that were signed.\<close>

lemma parse_signed:
  assumes cr: "signs_faithfully cr" "thumbprints_apart cr"
    and ok: "manager_ok cr m" and keys: "is_keys i = reloads cr pems m"
    and tok: "sign_typed cr m c type_access_token = Some t"
    and iss: "cl_issuer c = is_url i"
  shows "parse_subject_token cr i now t = (if claims_current now c then Some (c, cl_sid c) else None)"
proof -
  let ?h = "\<lparr>jh_alg = es256, jh_kid = sk_kid (km_active m), jh_typ = type_access_token\<rparr>"
  have ty: "(if type_access_token = [] then ''JWT'' else type_access_token) = type_access_token"
    by (simp add: type_access_token_def)
  have o: "cr_open cr t = Some (?h, c)" and v: "cr_verify cr (cr_public cr (sk_key (km_active m))) t"
    using cr(1) tok unfolding sign_typed_def signs_faithfully_def ty by blast+
  have "public_key_by_kid cr (is_keys i) (sk_kid (km_active m)) = Some (cr_public cr (sk_key (km_active m)))"
    unfolding keys using reloads_ok[OF ok] cr(2) reloads_keep[of "km_active m"]
    by (intro public_key_mem) auto
  with o v iss show ?thesis by (simp add: parse_subject_token_def alg_def)
qed

lemma parse_id_token:
  assumes "signs_faithfully cr" "sign_typed cr m c type_id_token = Some t"
  shows "parse_subject_token cr i now t = None"
proof -
  have "\<exists>h. cr_open cr t = Some (h, c) \<and> jh_typ h = type_id_token"
    using assms unfolding sign_typed_def signs_faithfully_def type_id_token_def by fastforce
  then show ?thesis
    by (auto simp: parse_subject_token_def type_id_token_def type_access_token_def)
qed

lemma sign_access_Some:
  "sign_access cr i c ttl = Some (t, s) \<longleftrightarrow>
     sign_typed cr (is_keys i) c type_access_token = Some t \<and> s = ttl div second"
  by (auto simp: sign_access_def)

text \<open>The four kinds of access token, by what was minted: the claims and the lifetime.\<close>

definition minted :: "crypto \<Rightarrow> issuer \<Rightarrow> time \<Rightarrow> string \<Rightarrow> claim_set \<Rightarrow> duration \<Rightarrow> bool" where
  "minted cr i t tok c ttl \<longleftrightarrow> (\<exists>jti s.
     (\<exists>u. issue_user cr i t jti u = Some (tok, s) \<and> c = user_claims i t jti u \<and> ttl = is_user_ttl i)
     \<or> (\<exists>u. issue_service cr i t jti u = Some (tok, s) \<and> c = service_claims i t jti u \<and> ttl = is_service_ttl i)
     \<or> (\<exists>u. issue_app cr i t jti u = Some (tok, s) \<and> c = app_claims i t jti u \<and> ttl = at_ttl u)
     \<or> (\<exists>u. issue_delegated cr i t jti u = Some (tok, s) \<and> c = delegated_claims i t jti u \<and> ttl = delegated_ttl i u))"

lemma minted_signed:
  assumes "minted cr i t tok c ttl"
  shows "sign_typed cr (is_keys i) c type_access_token = Some tok" "cl_issuer c = is_url i"
    "cl_expires_at c = Some (unix (t + ttl))" "cl_not_before c = Some (unix t)"
  using assms
  by (auto simp: minted_def issue_user_def issue_service_def issue_app_def issue_delegated_def sign_access_Some
      user_claims_def service_claims_def app_claims_def delegated_claims_def base_claims_def split: if_splits)

text \<open>
  C14. Every access token this service mints is read back as exactly the claims that were signed,
  whatever key reloads happen in between, from the moment it was minted until the second its
  lifetime ends, and never after.
\<close>

theorem access_token_reads_back:
  assumes "signs_faithfully cr" "thumbprints_apart cr" "new_manager cr g pem = Inr m"
    and "is_keys i = reloads cr pems m" "minted cr i t tok c ttl"
    and "is_keys i' = reloads cr pems' (is_keys i)" "is_url i' = is_url i" "t \<le> now"
  shows "parse_subject_token cr i' now tok = (if unix now < unix (t + ttl) then Some (c, cl_sid c) else None)"
proof -
  note signed = minted_signed[OF assms(5)]
  have "manager_ok cr (is_keys i)"
    unfolding assms(4) using assms(3) by (intro reloads_ok) (rule new_manager_ok)
  from parse_signed[OF assms(1,2) this assms(6) signed(1)] show ?thesis
    using claims_current_base[OF signed(3,4) assms(8)] signed(2) assms(7) by simp
qed

text \<open>
  C15. An ID token is never taken for an access token, at any time and by any issuer that holds the
  same keys: its type refuses it before its signature is looked at.
\<close>

theorem id_token_never_exchanged:
  assumes "signs_faithfully cr" "issue_id cr i t tok_in = Some tok"
  shows "parse_subject_token cr i' now tok = None"
  using parse_id_token[OF assms(1)] assms(2) by (simp add: issue_id_def)

section \<open>A concrete signer\<close>

text \<open>A signer that knows a table of headers and claims, for the examples: the token of an entry is
  its place in the table.\<close>

fun place_of :: "'a \<Rightarrow> 'a list \<Rightarrow> string option" where
  "place_of x [] = None"
| "place_of x (y # ys) = (if x = y then Some ''t'' else map_option (\<lambda>s. CHR ''t'' # s) (place_of x ys))"

definition table_crypto :: "(jose_header \<times> claim_set) list \<Rightarrow> crypto" where
  "table_crypto tbl =
     \<lparr>cr_parse_pem = Some, cr_public = (\<lambda>k. k), cr_thumbprint = Some,
      cr_sign = (\<lambda>k h c. place_of (h, c) tbl),
      cr_open = (\<lambda>t. if t \<noteq> [] \<and> length t \<le> length tbl then Some (tbl ! (length t - 1)) else None),
      cr_verify = (\<lambda>k t. True), cr_sha256 = (\<lambda>s. ''#'' @ s)\<rparr>"

lemma place_of_Some: "place_of x xs = Some t \<Longrightarrow> t \<noteq> [] \<and> length t \<le> length xs \<and> xs ! (length t - 1) = x"
proof (induction xs arbitrary: t)
  case (Cons y ys)
  show ?case
  proof (cases "x = y")
    case False
    then obtain s where s: "place_of x ys = Some s" "t = CHR ''t'' # s" using Cons.prems by auto
    with Cons.IH[OF s(1)] show ?thesis by (cases s) auto
  qed (use Cons.prems in auto)
qed simp

lemma table_crypto_ok: "signs_faithfully (table_crypto tbl)" "thumbprints_apart (table_crypto tbl)"
  using place_of_Some by (fastforce simp: signs_faithfully_def table_crypto_def, simp add: thumbprints_apart_def table_crypto_def)

definition example_issuer :: "string \<Rightarrow> string list \<Rightarrow> issuer" where
  "example_issuer active retired =
     \<lparr>is_keys = \<lparr>km_ephemeral = False, km_active = \<lparr>sk_kid = active, sk_key = active\<rparr>,
        km_retired = map (\<lambda>k. \<lparr>sk_kid = k, sk_key = k\<rparr>) retired\<rparr>,
      is_url = ''https://auth.test'', is_user_ttl = 900 * second, is_service_ttl = 300 * second\<rparr>"

definition example_user :: user_token_input where
  "example_user = \<lparr>ut_subject = ''p1'', ut_audience = ''shop'', ut_scopes = [''orders/list:read''], ut_loa = ''high'',
     ut_login_method = ''webEid'', ut_name = ''Anna'', ut_given_name = [], ut_family_name = [], ut_serial_number = [],
     ut_tenant = ''t1'', ut_thumbprint = ''jkt'', ut_client_id = ''shop-app''\<rparr>"

definition example_now :: time where
  "example_now = of_unix 1700000000"

definition example_id :: id_token_input where
  "example_id = \<lparr>it_subject = ''p1'', it_client_id = ''shop-app'', it_nonce = ''n'', it_auth_time = 1700000000,
     it_acr = ''webEid'', it_amr = [], it_sid = ''s1''\<rparr>"

definition example_crypto :: crypto where
  "example_crypto = table_crypto
     [(\<lparr>jh_alg = es256, jh_kid = ''K1'', jh_typ = type_access_token\<rparr>,
       user_claims (example_issuer ''K1'' []) example_now ''j'' example_user),
      (\<lparr>jh_alg = es256, jh_kid = ''K1'', jh_typ = type_id_token\<rparr>,
       id_claims (example_issuer ''K1'' []) example_now example_id)]"

lemma example_crypto_ok: "signs_faithfully example_crypto" "thumbprints_apart example_crypto"
  unfolding example_crypto_def by (rule table_crypto_ok)+

theorem access_token_reads_back_witness:
  "parse_subject_token example_crypto (example_issuer ''K2'' [''K1'']) (example_now + 600 * second) ''t''
     = Some (user_claims (example_issuer ''K1'' []) example_now ''j'' example_user, [])"
proof -
  have m: "new_manager example_crypto None ''K1'' = Inr (is_keys (example_issuer ''K1'' []))"
    and u: "issue_user example_crypto (example_issuer ''K1'' []) example_now ''j'' example_user = Some (''t'', 900)"
    and r: "is_keys (example_issuer ''K2'' [''K1'']) = reloads example_crypto [''K2''] (is_keys (example_issuer ''K1'' []))"
    and sid: "cl_sid (user_claims (example_issuer ''K1'' []) example_now ''j'' example_user) = []"
    by code_simp+
  have "minted example_crypto (example_issuer ''K1'' []) example_now ''t''
      (user_claims (example_issuer ''K1'' []) example_now ''j'' example_user) (is_user_ttl (example_issuer ''K1'' []))"
    unfolding minted_def using u by blast
  from access_token_reads_back[OF example_crypto_ok m reloads.simps(1)[symmetric] this r, of "example_now + 600 * second"]
  have "parse_subject_token example_crypto (example_issuer ''K2'' [''K1'']) (example_now + 600 * second) ''t''
     = (if unix (example_now + 600 * second) < unix (example_now + is_user_ttl (example_issuer ''K1'' []))
        then Some (user_claims (example_issuer ''K1'' []) example_now ''j'' example_user,
          cl_sid (user_claims (example_issuer ''K1'' []) example_now ''j'' example_user)) else None)"
    by (simp add: example_issuer_def second_def)
  moreover have "unix (example_now + 600 * second) < unix (example_now + is_user_ttl (example_issuer ''K1'' []))"
    by code_simp
  ultimately show ?thesis by (simp add: sid)
qed

theorem id_token_never_exchanged_witness:
  "issue_id example_crypto (example_issuer ''K1'' []) example_now example_id = Some ''tt''
   \<and> parse_subject_token example_crypto (example_issuer ''K1'' []) example_now ''tt'' = None"
proof -
  have "issue_id example_crypto (example_issuer ''K1'' []) example_now example_id = Some ''tt''"
    by code_simp
  with id_token_never_exchanged[OF example_crypto_ok(1) this] show ?thesis by blast
qed

end
