(* ===== verification/Identity.thy ===== *)
theory Identity
  imports Go_Lib "HOL-Library.AList" "HOL-Library.Product_Lexorder"
begin

text \<open>
  How a provider's answer becomes this service's identity, \<open>src/identity/identity.go\<close> and
  \<open>src/identity/catalog.go\<close>: the two vocabularies and their longest-token-first matching, the
  signing flows a login method permits, and the choice of signing identities from the provider's
  catalog.

  A vocabulary is the list of its entries, in the order Go's map iteration gives them; the theorem
  on \<open>interpret_answer\<close> shows that the order does not matter where the lower-cased tokens differ.
\<close>

section \<open>Levels and methods\<close>

definition loa_low :: string where "loa_low = ''low''"
definition loa_substantial :: string where "loa_substantial = ''substantial''"
definition loa_high :: string where "loa_high = ''high''"

definition login_eid :: string where "login_eid = ''eid''"
definition login_eparaksts_mobile :: string where "login_eparaksts_mobile = ''eparakstsMobile''"
definition login_eid_scan :: string where "login_eid_scan = ''eidScan''"
definition login_webeid :: string where "login_webeid = ''webEid''"
definition login_legacy_eid :: string where "login_legacy_eid = ''legacyEid''"
definition login_assistant :: string where "login_assistant = ''assistant''"

definition provider_webeid :: string where "provider_webeid = ''webeid''"

lemmas method_names = login_eid_def login_eparaksts_mobile_def login_eid_scan_def login_webeid_def
  login_legacy_eid_def login_assistant_def

definition is_eparaksts_login_allowed :: "string \<Rightarrow> bool" where
  "is_eparaksts_login_allowed m \<longleftrightarrow> m = login_eparaksts_mobile \<or> m = login_eid_scan"

definition is_eparaksts_federated :: "string \<Rightarrow> bool" where
  "is_eparaksts_federated m \<longleftrightarrow> m = login_eparaksts_mobile \<or> m = login_eid_scan \<or> m = login_legacy_eid"

record sign_identity =
  sg_id :: string
  sg_description :: string
  sg_status :: string
  sg_labels :: "string list"
  sg_permissions :: "string list"

record user_info =
  ui_subject :: string
  ui_acr :: string
  ui_amr :: "string list"
  ui_given_name :: string
  ui_family_name :: string
  ui_name :: string
  ui_serial_number :: string
  ui_email :: string
  ui_sign_identities :: "sign_identity list option"
  ui_issuer :: string
  ui_directory_id :: string
  ui_directory_guest :: bool
  ui_auth_time :: int

record ident =
  id_subject :: string
  id_idp_subject :: string
  id_name :: string
  id_given_name :: string
  id_family_name :: string
  id_serial_number :: string
  id_email :: string
  id_loa :: string
  id_login_method :: string
  id_issuer :: string
  id_directory_guest :: bool

section \<open>Vocabularies\<close>

type_synonym policy = "(string \<times> string) list"

record resolver =
  loa_policy :: policy
  loa_keys :: "string list"
  method_policy :: policy
  method_keys :: "string list"
  method_default :: string
  loa_default :: string

definition default_loa_policy :: policy where
  "default_loa_policy =
     [(''level:high'', loa_high), (''level:substantial'', loa_substantial), (''level:low'', loa_low),
      (''mobileid'', loa_high), (''mobile-eid'', loa_high), (''sc_plugin'', loa_high), (''smartcard'', loa_high)]"

definition level_loa_policy :: policy where
  "level_loa_policy =
     [(''level:high'', loa_high), (''level:substantial'', loa_substantial), (''level:low'', loa_low)]"

definition default_method_policy :: policy where
  "default_method_policy =
     [(''mobile-eid'', login_eid_scan), (''sc_plugin'', login_legacy_eid), (''smartcard'', login_legacy_eid),
      (''mobileid'', login_eparaksts_mobile), (''smart_id'', login_eparaksts_mobile),
      (''cloud'', login_eparaksts_mobile), (''mobile'', login_eparaksts_mobile)]"

text \<open>The order of the tokens: the longest first, those of one length by the alphabet.\<close>

definition token_rank :: "string \<Rightarrow> int \<times> string" where
  "token_rank k = (- int (length k), k)"

definition index_policy :: "policy \<Rightarrow> policy \<times> string list" where
  "index_policy p =
     (foldl (\<lambda>m (k, v). AList.update (to_lower k) v m) [] p,
      sort_key token_rank (map (to_lower \<circ> fst) p))"

definition new_resolver_policies :: "policy \<Rightarrow> policy \<Rightarrow> string \<Rightarrow> string \<Rightarrow> resolver" where
  "new_resolver_policies lp mp md ld =
     (let lp' = (if lp = [] then default_loa_policy else lp);
          mp' = (if mp = [] then default_method_policy else mp)
      in \<lparr>loa_policy = fst (index_policy lp'), loa_keys = snd (index_policy lp'),
          method_policy = fst (index_policy mp'), method_keys = snd (index_policy mp'),
          method_default = (if md = [] then login_eid else md),
          loa_default = (if ld = [] then loa_low else ld)\<rparr>)"

definition new_resolver :: "policy \<Rightarrow> resolver" where
  "new_resolver lp = new_resolver_policies lp [] [] []"

definition haystack :: "string \<Rightarrow> string list \<Rightarrow> string" where
  "haystack acr amr = foldl (\<lambda>hay m. hay @ '' '' @ to_lower m) (to_lower acr) amr"

definition policy_value :: "policy \<Rightarrow> string \<Rightarrow> string" where
  "policy_value p k = (case map_of p k of Some v \<Rightarrow> v | None \<Rightarrow> [])"

definition match_policy :: "string list \<Rightarrow> policy \<Rightarrow> string \<Rightarrow> string \<Rightarrow> string list \<Rightarrow> string" where
  "match_policy keys p def acr amr =
     (case first (contains (haystack acr amr)) keys of Some k \<Rightarrow> policy_value p k | None \<Rightarrow> def)"

definition interpret_answer :: "resolver \<Rightarrow> string \<Rightarrow> string list \<Rightarrow> string \<times> string" where
  "interpret_answer r acr amr =
     (match_policy (method_keys r) (method_policy r) (method_default r) acr amr,
      match_policy (loa_keys r) (loa_policy r) (loa_default r) acr amr)"

definition method_for :: "resolver \<Rightarrow> string \<Rightarrow> string option" where
  "method_for r acr =
     (let hay = to_lower acr in
      if hay = [] then None
      else map_option (policy_value (method_policy r)) (first (contains hay) (method_keys r)))"

definition resolve_loa :: "resolver \<Rightarrow> string \<Rightarrow> string list \<Rightarrow> string" where
  "resolve_loa r acr amr = match_policy (loa_keys r) (loa_policy r) (loa_default r) acr amr"

definition resolve :: "resolver \<Rightarrow> user_info \<Rightarrow> ident" where
  "resolve r u =
     (case interpret_answer r (ui_acr u) (ui_amr u) of (m, l) \<Rightarrow>
        \<lparr>id_subject = [],
         id_idp_subject = (if ui_directory_id u = [] then ui_subject u else ui_directory_id u),
         id_name = ui_name u, id_given_name = ui_given_name u, id_family_name = ui_family_name u,
         id_serial_number = ui_serial_number u, id_email = ui_email u, id_loa = l, id_login_method = m,
         id_issuer = ui_issuer u, id_directory_guest = ui_directory_guest u\<rparr>)"

section \<open>Signing flows\<close>

definition flow_webeid :: string where "flow_webeid = ''webEid''"
definition flow_legacy_eid :: string where "flow_legacy_eid = ''legacyEid''"
definition flow_eid_scan :: string where "flow_eid_scan = ''eidScan''"
definition flow_eparaksts_mobile :: string where "flow_eparaksts_mobile = ''eparakstsMobile''"
definition flow_eparaksts_mobile_eseal :: string where "flow_eparaksts_mobile_eseal = ''eparakstsMobileEseal''"
definition flow_csc_eid_scan :: string where "flow_csc_eid_scan = ''cscEidScan''"
definition flow_csc_eid_plugin :: string where "flow_csc_eid_plugin = ''cscEidPlugin''"

lemmas flow_names = flow_webeid_def flow_legacy_eid_def flow_eid_scan_def flow_eparaksts_mobile_def
  flow_eparaksts_mobile_eseal_def flow_csc_eid_scan_def flow_csc_eid_plugin_def

definition permitted_flows :: "string \<Rightarrow> string list" where
  "permitted_flows m =
     (if m = login_webeid then [flow_webeid, flow_csc_eid_plugin]
      else if m = login_legacy_eid then [flow_legacy_eid, flow_csc_eid_plugin]
      else if m = login_eid_scan then [flow_eid_scan, flow_csc_eid_scan]
      else if m = login_eparaksts_mobile then [flow_eparaksts_mobile, flow_eparaksts_mobile_eseal]
      else [])"

section \<open>The catalog of signing identities\<close>

definition label_server_id :: string where "label_server_id = ''serverid''"
definition label_eid :: string where "label_eid = ''eid''"
definition label_mobile_id :: string where "label_mobile_id = ''mobileid''"
definition label_qsealc :: string where "label_qsealc = ''qsealc''"
definition label_esealc :: string where "label_esealc = ''esealc''"
definition label_content_commitment :: string where "label_content_commitment = ''x509:keyUsage:contentCommitment''"
definition label_digital_signature :: string where "label_digital_signature = ''x509:keyUsage:digitalSignature''"
definition desc_eid_sign :: string where "desc_eid_sign = ''eparaksts:eid:sign''"
definition desc_eid_auth :: string where "desc_eid_auth = ''eparaksts:eid:auth''"
definition desc_mobile_id_auth :: string where "desc_mobile_id_auth = ''eparaksts:mobileid:auth''"

definition sign_enabled :: "sign_identity \<Rightarrow> bool" where
  "sign_enabled s = equal_fold (sg_status s) ''enabled''"

definition has_permission :: "sign_identity \<Rightarrow> string \<Rightarrow> bool" where
  "has_permission s p = (sg_permissions s = [] \<or> list_ex (\<lambda>h. equal_fold h p) (sg_permissions s))"

definition has_labels :: "sign_identity \<Rightarrow> string list \<Rightarrow> bool" where
  "has_labels s want = list_all (\<lambda>w. to_lower w \<in> set (map to_lower (sg_labels s))) want"

definition select_signing :: "sign_identity list \<Rightarrow> string \<Rightarrow> sign_identity option" where
  "select_signing catalog m =
     (if m = login_eparaksts_mobile then
        first (\<lambda>s. has_labels s [label_server_id, label_content_commitment] \<and> sign_enabled s \<and> has_permission s ''sign'') catalog
      else if m = login_eid_scan then
        first (\<lambda>s. equal_fold (sg_description s) desc_eid_sign
                   \<or> has_labels s [label_eid, label_content_commitment] \<and> sign_enabled s) catalog
      else None)"

definition select_auth :: "sign_identity list \<Rightarrow> string \<Rightarrow> sign_identity option" where
  "select_auth catalog m =
     (let d = (if m = login_eid_scan then desc_eid_auth else desc_mobile_id_auth);
          l = (if m = login_eid_scan then label_eid else label_mobile_id) in
      case first (\<lambda>s. equal_fold (sg_description s) d \<or> has_labels s [l, label_digital_signature]) catalog of
        Some s \<Rightarrow> Some s
      | None \<Rightarrow> first (\<lambda>s. equal_fold (sg_description s) desc_mobile_id_auth \<or> equal_fold (sg_description s) desc_eid_auth
                         \<or> has_labels s [label_digital_signature]) catalog)"

definition cn_label :: "string list \<Rightarrow> string" where
  "cn_label labels =
     (case first (\<lambda>l. 3 < length l \<and> equal_fold (take 3 l) ''CN:'') labels of
        Some l \<Rightarrow> trim_space (drop 3 l)
      | None \<Rightarrow> join '','' labels)"

definition seals :: "sign_identity list \<Rightarrow> (string \<times> string) list" where
  "seals catalog =
     map (\<lambda>s. (sg_id s, cn_label (sg_labels s)))
       (filter (\<lambda>s. (has_labels s [label_qsealc] \<or> has_labels s [label_esealc]) \<and> sign_enabled s \<and> has_permission s ''sign'')
         catalog)"


section \<open>Facts\<close>

text \<open>The first match in the token order is the least match in it.\<close>

lemma first_sorted:
  "sorted (map f xs) \<Longrightarrow> first P xs = Some x \<Longrightarrow> \<forall>y\<in>set xs. P y \<longrightarrow> f x \<le> (f y :: 'b :: linorder)"
  by (induction xs) (auto split: if_splits dest: first_SomeD)

lemma token_rank_le:
  "token_rank a \<le> token_rank b \<longleftrightarrow> length b < length a \<or> length a = length b \<and> a \<le> b"
  by (auto simp: token_rank_def less_eq_prod_def less_prod_def)

lemma token_rank_inj: "token_rank a = token_rank b \<longleftrightarrow> a = b"
  by (auto simp: token_rank_def)

lemma index_keys: "set (snd (index_policy p)) = to_lower ` fst ` set p"
  by (auto simp: index_policy_def)

lemma index_sorted: "sorted (map token_rank (snd (index_policy p)))"
  by (simp add: index_policy_def)

lemma index_fold:
  "distinct (map (to_lower \<circ> fst) p) \<Longrightarrow>
     map_of (foldl (\<lambda>m (k, v). AList.update (to_lower k) v m) q p) k =
       (case map_of (map (\<lambda>(k, v). (to_lower k, v)) p) k of Some v \<Rightarrow> Some v | None \<Rightarrow> map_of q k)"
proof (induction p arbitrary: q)
  case (Cons a p)
  obtain x v where a: "a = (x, v)" by fastforce
  have "map_of (map (\<lambda>(k, v). (to_lower k, v)) p) (to_lower x) = None"
    using Cons.prems by (auto simp: a map_of_eq_None_iff image_iff split: prod.splits)
  with Cons show ?case
    by (auto simp: a update_conv' split: option.splits)
qed simp

text \<open>A vocabulary's best match for an answer: the value of the longest token the answer holds, the
  first by the alphabet among those of one length.\<close>

definition best_match :: "policy \<Rightarrow> string \<Rightarrow> string \<Rightarrow> string \<Rightarrow> bool" where
  "best_match p def hay v \<longleftrightarrow>
     (\<exists>(k, w)\<in>set p. contains hay (to_lower k) \<and> v = w
        \<and> (\<forall>(k', w')\<in>set p. contains hay (to_lower k') \<longrightarrow> token_rank (to_lower k) \<le> token_rank (to_lower k')))
     \<or> (\<forall>(k', w')\<in>set p. \<not> contains hay (to_lower k')) \<and> v = def"

definition lower_distinct :: "policy \<Rightarrow> bool" where
  "lower_distinct p \<longleftrightarrow> distinct (map (to_lower \<circ> fst) p)"

lemma index_value:
  assumes "lower_distinct p" "(k, w) \<in> set p"
  shows "policy_value (fst (index_policy p)) (to_lower k) = w"
proof -
  have "distinct (map fst (map (\<lambda>(k, v). (to_lower k, v)) p))"
    using assms(1) by (simp add: lower_distinct_def o_def case_prod_beta)
  moreover have "(to_lower k, w) \<in> set (map (\<lambda>(k, v). (to_lower k, v)) p)" using assms(2) by force
  ultimately have "map_of (map (\<lambda>(k, v). (to_lower k, v)) p) (to_lower k) = Some w" by simp
  with index_fold[of p "[]" "to_lower k"] assms(1) show ?thesis
    by (simp add: index_policy_def policy_value_def lower_distinct_def)
qed

lemma first_index_iff:
  "first P (snd (index_policy p)) = Some k \<longleftrightarrow>
     k \<in> to_lower ` fst ` set p \<and> P k \<and> (\<forall>k'\<in>to_lower ` fst ` set p. P k' \<longrightarrow> token_rank k \<le> token_rank k')"
proof
  assume f: "first P (snd (index_policy p)) = Some k"
  show "k \<in> to_lower ` fst ` set p \<and> P k \<and> (\<forall>k'\<in>to_lower ` fst ` set p. P k' \<longrightarrow> token_rank k \<le> token_rank k')"
    using first_SomeD[OF f] first_sorted[OF index_sorted f] by (simp add: index_keys)
next
  assume r: "k \<in> to_lower ` fst ` set p \<and> P k \<and> (\<forall>k'\<in>to_lower ` fst ` set p. P k' \<longrightarrow> token_rank k \<le> token_rank k')"
  then obtain l where l: "first P (snd (index_policy p)) = Some l"
    using first_Some_ex[of k "snd (index_policy p)" P] by (auto simp: index_keys)
  from first_SomeD[OF l] first_sorted[OF index_sorted l] r have "token_rank l = token_rank k"
    by (intro antisym) (auto simp: index_keys)
  with l show "first P (snd (index_policy p)) = Some k" by (simp add: token_rank_inj)
qed

lemma match_best:
  assumes "lower_distinct p"
  shows "match_policy (snd (index_policy p)) (fst (index_policy p)) def acr amr = v \<longleftrightarrow>
     best_match p def (haystack acr amr) v"
proof (cases "first (contains (haystack acr amr)) (snd (index_policy p))")
  case None
  then have "\<forall>(k, w)\<in>set p. \<not> contains (haystack acr amr) (to_lower k)"
    by (force simp: index_keys)
  then have "best_match p def (haystack acr amr) v \<longleftrightarrow> v = def"
    by (auto simp: best_match_def)
  with None show ?thesis by (auto simp: match_policy_def simp del: first_None)
next
  case (Some l)
  then obtain k w where kw: "(k, w) \<in> set p" "l = to_lower k" "contains (haystack acr amr) l"
    and least: "\<forall>k'\<in>to_lower ` fst ` set p. contains (haystack acr amr) k' \<longrightarrow> token_rank l \<le> token_rank k'"
    by (auto simp: first_index_iff)
  have val: "match_policy (snd (index_policy p)) (fst (index_policy p)) def acr amr = w"
    using Some kw assms by (simp add: match_policy_def index_value)
  have "v' = w" if "(k', v') \<in> set p" "token_rank (to_lower k') \<le> token_rank l" "contains (haystack acr amr) (to_lower k')" for k' v'
  proof -
    from that least have "token_rank (to_lower k') = token_rank l"
      by (intro antisym) (auto intro!: imageI simp: image_image dest: bspec[where x = "to_lower k'"])
    with kw have "to_lower k' = to_lower k" by (simp add: token_rank_inj)
    with assms that(1) kw(1) show ?thesis using index_value by metis
  qed
  then have "best_match p def (haystack acr amr) v \<Longrightarrow> v = w"
    using kw unfolding best_match_def by blast
  moreover have "best_match p def (haystack acr amr) w"
    unfolding best_match_def using kw least by (intro disjI1 bexI[of _ "(k, w)"]) auto
  ultimately show ?thesis using val by auto
qed

text \<open>A list, or the default where it is empty.\<close>

definition or_default :: "'a list \<Rightarrow> 'a list \<Rightarrow> 'a list" where
  "or_default x d = (if x = [] then d else x)"

lemma or_default_Nil [simp]: "or_default [] d = d"
  by (simp add: or_default_def)

lemma default_vocabularies_distinct:
  "lower_distinct default_loa_policy" "lower_distinct default_method_policy" "lower_distinct level_loa_policy"
  by code_simp+

lemma interpret_answer_matches:
  "interpret_answer (new_resolver_policies lp mp md ld) acr amr =
     (match_policy (snd (index_policy (or_default mp default_method_policy)))
        (fst (index_policy (or_default mp default_method_policy))) (or_default md login_eid) acr amr,
      match_policy (snd (index_policy (or_default lp default_loa_policy)))
        (fst (index_policy (or_default lp default_loa_policy))) (or_default ld loa_low) acr amr)"
  by (simp only: interpret_answer_def new_resolver_policies_def or_default_def Let_def resolver.simps)

lemma interpret_best:
  assumes "lower_distinct lp" "lower_distinct mp"
  shows "interpret_answer (new_resolver_policies lp mp md ld) acr amr = (m, l) \<longleftrightarrow>
     best_match (or_default mp default_method_policy) (or_default md login_eid) (haystack acr amr) m
     \<and> best_match (or_default lp default_loa_policy) (or_default ld loa_low) (haystack acr amr) l"
proof -
  have "lower_distinct (or_default mp default_method_policy)" "lower_distinct (or_default lp default_loa_policy)"
    using assms default_vocabularies_distinct by (simp_all add: or_default_def)
  note best = this[THEN match_best]
  show ?thesis
    unfolding interpret_answer_matches by (simp only: prod.inject best)
qed

text \<open>
  C21. A provider's answer is read by the longest token it holds, in whichever of its two claims the
  token stands: the method and the level are the values of the longest tokens found in the
  lower-cased answer (the first by the alphabet among those as long), or the provider's defaults
  when none is found, whatever order the vocabulary is iterated in.
\<close>

theorem longest_token_wins:
  assumes "lower_distinct lp" "lower_distinct mp" and "set lp' = set lp" "set mp' = set mp"
    and "lower_distinct lp'" "lower_distinct mp'"
  shows "interpret_answer (new_resolver_policies lp' mp' md ld) acr amr = (m, l) \<longleftrightarrow>
     best_match (or_default mp default_method_policy) (or_default md login_eid) (haystack acr amr) m
     \<and> best_match (or_default lp default_loa_policy) (or_default ld loa_low) (haystack acr amr) l"
proof -
  have same: "best_match (or_default q d) e hay v = best_match (or_default q' d) e hay v" if "set q = set q'"
    for q q' d :: policy and e hay v
  proof -
    have "set (or_default q d) = set (or_default q' d)"
      using that by (cases "q = []") (auto simp: or_default_def)
    then show ?thesis by (simp only: best_match_def)
  qed
  show ?thesis
    unfolding interpret_best[OF assms(5,6)] same[OF assms(3)] same[OF assms(4)] by (rule refl)
qed

theorem longest_token_wins_witness:
  "interpret_answer (new_resolver_policies [] [] [] []) ''urn:eparaksts:authentication:flow:Mobile-EID'' [''urn:methods:mobileid'']
     = (login_eid_scan, loa_high)
   \<and> best_match default_method_policy login_eid
       (haystack ''urn:eparaksts:authentication:flow:Mobile-EID'' [''urn:methods:mobileid'']) login_eid_scan"
proof -
  have e: "lower_distinct []" by (simp add: lower_distinct_def)
  have i: "interpret_answer (new_resolver_policies [] [] [] []) ''urn:eparaksts:authentication:flow:Mobile-EID'' [''urn:methods:mobileid'']
     = (login_eid_scan, loa_high)" by code_simp
  from longest_token_wins[OF e e refl refl e e, THEN iffD1, OF i] i show ?thesis
    by (simp add: or_default_def)
qed

lemma default_method_values:
  "(k, m) \<in> set default_method_policy \<Longrightarrow> m \<in> {login_eid_scan, login_legacy_eid, login_eparaksts_mobile} \<and> k \<noteq> []"
  by (auto simp: default_method_policy_def)

lemma real_methods_sign:
  "m \<in> {login_eid_scan, login_legacy_eid, login_eparaksts_mobile} \<Longrightarrow> m \<noteq> login_eid \<and> permitted_flows m \<noteq> []"
  by (auto simp: permitted_flows_def method_names)

lemma method_for_first:
  "method_for (new_resolver lp) a = None \<longleftrightarrow> (\<forall>k\<in>fst ` set default_method_policy. \<not> contains (to_lower a) (to_lower k))"
  by (auto simp: method_for_def Let_def new_resolver_def new_resolver_policies_def index_keys default_method_policy_def)

lemma default_method_entry:
  "k \<in> set (snd (index_policy default_method_policy)) \<Longrightarrow>
     \<exists>t m. (t, m) \<in> set default_method_policy \<and> policy_value (fst (index_policy default_method_policy)) k = m"
  unfolding index_keys using index_value[OF default_vocabularies_distinct(2)] by force

lemma method_for_entry:
  assumes "method_for (new_resolver lp) a = Some m"
  shows "m \<in> {login_eid_scan, login_legacy_eid, login_eparaksts_mobile}"
proof -
  obtain k where "first (contains (to_lower a)) (snd (index_policy default_method_policy)) = Some k"
    "m = policy_value (fst (index_policy default_method_policy)) k"
    using assms by (auto simp: method_for_def Let_def new_resolver_def new_resolver_policies_def split: if_splits)
  then obtain t where "(t, m) \<in> set default_method_policy"
    using default_method_entry[of k] by (blast dest: first_SomeD)
  then show ?thesis by (rule default_method_values[THEN conjunct1])
qed

lemma method_sentinel_iff:
  "fst (interpret_answer (new_resolver lp) acr amr) = login_eid \<longleftrightarrow>
     (\<forall>k\<in>fst ` set default_method_policy. \<not> contains (haystack acr amr) (to_lower k))"
proof -
  have "fst (interpret_answer (new_resolver lp) acr amr) = login_eid \<longleftrightarrow>
      best_match default_method_policy login_eid (haystack acr amr) login_eid"
    unfolding new_resolver_def interpret_answer_matches
    by (simp only: fst_conv or_default_Nil match_best[OF default_vocabularies_distinct(2)])
  also have "\<dots> \<longleftrightarrow> (\<forall>k\<in>fst ` set default_method_policy. \<not> contains (haystack acr amr) (to_lower k))"
  proof -
    have "w \<noteq> login_eid" if "(k, w) \<in> set default_method_policy" for k w
      using default_method_values[OF that] real_methods_sign by blast
    then show ?thesis unfolding best_match_def by auto
  qed
  finally show ?thesis .
qed

text \<open>
  What the vocabulary does not recognise opens nothing. An answer is read as the sentinel method
  exactly when it holds none of the tokens, and the sentinel completes no eParaksts sign-in and
  permits no signing flow; a request names a method exactly when it holds a token, and then one that
  signs, never the sentinel. What an AI app's tokens state permits no signing either.
\<close>

lemma unknown_method_permits_nothing:
  "(fst (interpret_answer (new_resolver lp) acr amr) = login_eid \<longleftrightarrow>
      (\<forall>k\<in>fst ` set default_method_policy. \<not> contains (haystack acr amr) (to_lower k)))
   \<and> (method_for (new_resolver lp) a = None \<longleftrightarrow>
      (\<forall>k\<in>fst ` set default_method_policy. \<not> contains (to_lower a) (to_lower k)))
   \<and> (\<forall>m. method_for (new_resolver lp) a = Some m \<longrightarrow> m \<noteq> login_eid \<and> permitted_flows m \<noteq> [])
   \<and> \<not> is_eparaksts_login_allowed login_eid \<and> permitted_flows login_eid = [] \<and> permitted_flows login_assistant = []"
proof -
  have asked: "m \<noteq> login_eid \<and> permitted_flows m \<noteq> []" if "method_for (new_resolver lp) a = Some m" for m
    using method_for_entry[OF that] by (rule real_methods_sign)
  have "\<not> is_eparaksts_login_allowed login_eid" "permitted_flows login_eid = []" "permitted_flows login_assistant = []"
    by (simp_all add: is_eparaksts_login_allowed_def permitted_flows_def method_names)
  with asked show ?thesis
    by (simp only: method_sentinel_iff method_for_first) simp
qed

section \<open>What selection from the catalog allows\<close>

text \<open>An eParaksts Mobile login signs only with an identity that is enabled and permitted to sign, and
  every seal offered is. An eID Scan login takes the first identity described as its signing
  identity without looking at its status or its permissions.\<close>

lemma mobile_signs_with_enabled:
  "select_signing catalog login_eparaksts_mobile = Some s \<Longrightarrow> s \<in> set catalog \<and> sign_enabled s \<and> has_permission s ''sign''"
  by (auto simp: select_signing_def dest: first_SomeD)

lemma seals_enabled:
  "(i, label) \<in> set (seals catalog) \<Longrightarrow>
     \<exists>d\<in>set catalog. sg_id d = i \<and> label = cn_label (sg_labels d) \<and> sign_enabled d \<and> has_permission d ''sign''"
  by (auto simp: seals_def)

lemma eid_scan_signs_with_disabled:
  "\<exists>s. select_signing [s] login_eid_scan = Some s \<and> \<not> sign_enabled s \<and> \<not> has_permission s ''sign''"
  by (rule exI[of _ "\<lparr>sg_id = ''i'', sg_description = ''eparaksts:eid:sign'', sg_status = ''disabled'',
        sg_labels = [], sg_permissions = [''read'']\<rparr>"]) code_simp

end
