(* ===== verification/Upstream.thy ===== *)
theory Upstream
  imports Identity Go_Url Session_Types
begin

text \<open>
  The connector to the identity providers a deployment signs people in at, \<open>src/upstream/\<close>: a
  provider's configuration (\<open>upstream.go\<close>, \<open>profile_eparaksts.go\<close>, \<open>discovery.go\<close>), the addresses
  the browser is sent to, what a provider's answer says about a person, and the set of providers with
  the rules that tell them apart (\<open>set.go\<close>).

  The provider itself, the JSON and JWT libraries and the identity-code library are outside the
  repository. \<open>idp\<close> is what a request to the provider answers: its status and its body as decoded, or
  nothing when no answer came or it did not decode. \<open>idp_jwt\<close> is the JWT parser with the options the
  source gives it. \<open>codes\<close> is the identity-code library.
\<close>

section \<open>What is outside\<close>

text \<open>A JSON value as \<open>encoding/json\<close> gives it to an \<open>any\<close>: a number is its shortest decimal text with
  its whole part.\<close>

datatype json =
    J_Null
  | J_Bool bool
  | J_Num string int
  | J_Str string
  | J_Arr "json list"
  | J_Obj "(string \<times> json) list"

datatype code_error = Country_Required | Unknown_Semantics | Ambiguous_Code | Malformed_Code

record codes =
  code_canonical :: "string \<Rightarrow> string \<Rightarrow> code_error + string"
  code_country :: "string \<Rightarrow> string option"
  code_display :: "string \<Rightarrow> string"

record idp_tokens =
  idt_access :: string
  idt_id :: string

record access_entry =
  acc_permissions :: "string list"

record raw_sign_identity =
  rsi_id :: string
  rsi_description :: string
  rsi_status :: string
  rsi_labels :: "string list"
  rsi_access :: "access_entry list"

text \<open>A userinfo document: the fields decoded into the source's struct, \<open>acr\<close> left raw, and every
  top-level claim by name.\<close>

record userinfo_doc =
  ud_sub :: string
  ud_acr :: "json option"
  ud_amr :: "string list"
  ud_given_name :: string
  ud_family_name :: string
  ud_name :: string
  ud_sign_identities :: "raw_sign_identity list option"
  ud_claims :: "string \<Rightarrow> json option"

record discovery_doc =
  dd_issuer :: string
  dd_authorization_endpoint :: string
  dd_token_endpoint :: string
  dd_userinfo_endpoint :: string
  dd_end_session_endpoint :: string
  dd_jwks_uri :: string

record jwt_checks =
  jw_methods :: "string list"
  jw_issuer :: string
  jw_audience :: string
  jw_leeway :: duration
  jw_keys_url :: string

record idp =
  idp_discovery :: "string \<Rightarrow> (int \<times> discovery_doc option) option"
  idp_token :: "string \<Rightarrow> string \<Rightarrow> string \<Rightarrow> (int \<times> idp_tokens option) option"
  idp_userinfo :: "string \<Rightarrow> string \<Rightarrow> (int \<times> userinfo_doc option) option"
  idp_certificate :: "string \<Rightarrow> string \<Rightarrow> (int \<times> string option) option"
  idp_jwt :: "jwt_checks \<Rightarrow> string \<Rightarrow> (string \<Rightarrow> json option) option"

section \<open>A provider and its configuration\<close>

record up_config =
  uc_authority_url :: string
  uc_client_id :: string
  uc_client_secret :: string
  uc_scopes :: "string list"
  uc_authorize_url :: string
  uc_token_url :: string
  uc_userinfo_url :: string
  uc_end_session_url :: string
  uc_logout_template :: string
  uc_claim_serial :: string
  uc_trust_codes :: bool
  uc_issuer :: string
  uc_jwks_url :: string
  uc_claim_directory_id :: string
  uc_claim_email :: string
  uc_claim_account_status :: string
  uc_account_status_guest :: string
  uc_clock_skew :: duration
  uc_country :: string
  uc_sign_identity_url :: string
  uc_method_policy :: policy
  uc_method_default :: string
  uc_loa_policy :: policy
  uc_loa_default :: string
  uc_methods_allowed :: "string list"
  uc_methods_federated :: "string list"

definition empty_up_config :: up_config where
  "empty_up_config = \<lparr>uc_authority_url = [], uc_client_id = [], uc_client_secret = [], uc_scopes = [],
     uc_authorize_url = [], uc_token_url = [], uc_userinfo_url = [], uc_end_session_url = [], uc_logout_template = [],
     uc_claim_serial = [], uc_trust_codes = False, uc_issuer = [], uc_jwks_url = [], uc_claim_directory_id = [],
     uc_claim_email = [], uc_claim_account_status = [], uc_account_status_guest = [], uc_clock_skew = 0, uc_country = [],
     uc_sign_identity_url = [], uc_method_policy = [], uc_method_default = [], uc_loa_policy = [], uc_loa_default = [],
     uc_methods_allowed = [], uc_methods_federated = []\<rparr>"

record provider =
  pv_config :: up_config
  pv_allowed :: "string list"
  pv_federated :: "string list"
  pv_keys :: bool
  pv_idp :: idp

datatype up_error =
    No_Authority
  | Discovery_Failed
  | Discovery_Status int
  | Missing_Endpoints
  | Keys_Without_Issuer
  | Exchange_Failed
  | Userinfo_Failed
  | ID_Token_Refused
  | Identity_Code_Refused code_error
  | Certificate_Failed

definition or_else :: "string \<Rightarrow> string \<Rightarrow> string" where
  "or_else s d = (if s = [] then d else s)"

text \<open>The default scopes, claims and leeway a configuration may leave out.\<close>

definition up_defaults :: "up_config \<Rightarrow> up_config" where
  "up_defaults c = c\<lparr>
     uc_scopes := (if uc_scopes c = [] then [''openid'', ''profile''] else uc_scopes c),
     uc_claim_serial := or_else (uc_claim_serial c) ''serial_number'',
     uc_claim_directory_id := or_else (uc_claim_directory_id c) ''sub'',
     uc_claim_email := or_else (uc_claim_email c) ''email'',
     uc_account_status_guest := or_else (uc_account_status_guest c) ''1'',
     uc_clock_skew := (if uc_clock_skew c \<le> 0 then 30 * second else uc_clock_skew c),
     uc_authority_url := trim_suffix (uc_authority_url c) ''/''\<rparr>"

definition lacks_endpoints :: "up_config \<Rightarrow> bool" where
  "lacks_endpoints c \<longleftrightarrow> uc_authorize_url c = [] \<or> uc_token_url c = [] \<or> uc_userinfo_url c = []"

definition fill_from :: "discovery_doc \<Rightarrow> up_config \<Rightarrow> up_config" where
  "fill_from d c = c\<lparr>
     uc_authorize_url := or_else (uc_authorize_url c) (dd_authorization_endpoint d),
     uc_token_url := or_else (uc_token_url c) (dd_token_endpoint d),
     uc_userinfo_url := or_else (uc_userinfo_url c) (dd_userinfo_endpoint d),
     uc_end_session_url := or_else (uc_end_session_url c) (dd_end_session_endpoint d),
     uc_issuer := or_else (uc_issuer c) (dd_issuer d),
     uc_jwks_url := or_else (uc_jwks_url c) (dd_jwks_uri d)\<rparr>"

definition discover :: "idp \<Rightarrow> up_config \<Rightarrow> up_error + up_config" where
  "discover i c =
     (if uc_authority_url c = [] then Inl No_Authority
      else (case idp_discovery i (uc_authority_url c @ ''/.well-known/openid-configuration'') of
          None \<Rightarrow> Inl Discovery_Failed
        | Some (status, d) \<Rightarrow>
            if status div 100 \<noteq> 2 then Inl (Discovery_Status status)
            else (case d of
                None \<Rightarrow> Inl Discovery_Failed
              | Some doc \<Rightarrow> if lacks_endpoints (fill_from doc c) then Inl Missing_Endpoints else Inr (fill_from doc c))))"

definition new_provider :: "idp \<Rightarrow> up_config \<Rightarrow> up_error + provider" where
  "new_provider i cfg =
     (let c = up_defaults cfg in
      case (if lacks_endpoints c then discover i c else Inr c) of
        Inl err \<Rightarrow> Inl err
      | Inr c \<Rightarrow>
          let c' = (if uc_methods_allowed c = [] \<and> uc_method_default c \<noteq> []
                then c\<lparr>uc_methods_allowed := [uc_method_default c]\<rparr> else c) in
          if uc_jwks_url c' \<noteq> [] \<and> uc_issuer c' = [] then Inl Keys_Without_Issuer
          else Inr \<lparr>pv_config = c', pv_allowed = uc_methods_allowed c', pv_federated = uc_methods_federated c',
                 pv_keys = (uc_jwks_url c' \<noteq> []), pv_idp = i\<rparr>)"

definition pv_issuer :: "provider \<Rightarrow> string" where
  "pv_issuer p = uc_issuer (pv_config p)"

definition provider_identifier :: "provider \<Rightarrow> string" where
  "provider_identifier p = or_else (uc_issuer (pv_config p)) (uc_authority_url (pv_config p))"

definition authorization_origin :: "provider \<Rightarrow> string" where
  "authorization_origin p =
     (case parse_url (uc_authorize_url (pv_config p)) of
        None \<Rightarrow> []
      | Some u \<Rightarrow> if u_scheme u = [] \<or> u_host u = [] then [] else u_scheme u @ ''://'' @ u_host u)"

definition provider_resolver :: "provider \<Rightarrow> resolver" where
  "provider_resolver p =
     (let c = pv_config p in
      new_resolver_policies (if uc_loa_policy c = [] then level_loa_policy else uc_loa_policy c)
        (uc_method_policy c) (uc_method_default c) (uc_loa_default c))"

definition method_allowed :: "provider \<Rightarrow> string \<Rightarrow> bool" where
  "method_allowed p m \<longleftrightarrow> m \<in> set (pv_allowed p)"

definition methods :: "provider \<Rightarrow> string list" where
  "methods p = sort (remdups (pv_allowed p))"

definition federated_method :: "provider \<Rightarrow> string \<Rightarrow> bool" where
  "federated_method p m \<longleftrightarrow> m \<in> set (pv_federated p)"

section \<open>Where the browser is sent\<close>

record authorize_params =
  au_state :: string
  au_redirect_uri :: string
  au_acr_values :: string
  au_ui_locales :: string
  au_prompt :: string
  au_max_age :: "int option"
  au_nonce :: string

fun digits_of :: "nat \<Rightarrow> string" where
  "digits_of n = (if n < 10 then [char_of (48 + n)] else digits_of (n div 10) @ [char_of (48 + n mod 10)])"

declare digits_of.simps [simp del]

definition int_text :: "int \<Rightarrow> string" where
  "int_text i = (if i < 0 then CHR ''-'' # digits_of (nat (- i)) else digits_of (nat i))"

definition set_if :: "string \<Rightarrow> string \<Rightarrow> url_values \<Rightarrow> url_values" where
  "set_if k v q = (if v \<noteq> [] then values_set k v q else q)"

definition authorize_query :: "provider \<Rightarrow> authorize_params \<Rightarrow> url_values" where
  "authorize_query p a =
     (let c = pv_config p;
          q = values_set ''response_type'' ''code'' [];
          q = values_set ''client_id'' (uc_client_id c) q;
          q = values_set ''state'' (au_state a) q;
          q = values_set ''redirect_uri'' (au_redirect_uri a) q;
          q = values_set ''scope'' (join '' '' (uc_scopes c)) q;
          q = set_if ''nonce'' (au_nonce a) q;
          q = set_if ''acr_values'' (au_acr_values a) q;
          q = set_if ''ui_locales'' (au_ui_locales a) q;
          q = set_if ''prompt'' (au_prompt a) q
      in case au_max_age a of Some n \<Rightarrow> values_set ''max_age'' (int_text n) q | None \<Rightarrow> q)"

definition authorize_url :: "provider \<Rightarrow> authorize_params \<Rightarrow> string" where
  "authorize_url p a = uc_authorize_url (pv_config p) @ ''?'' @ values_encode (authorize_query p a)"

text \<open>\<open>fmt.Sprintf\<close> of a template whose one verb is \<open>%s\<close>.\<close>

definition fill_verb :: "string \<Rightarrow> string \<Rightarrow> string" where
  "fill_verb t v = (case index_of ''%s'' t of Some i \<Rightarrow> take i t @ v @ drop (i + 2) t | None \<Rightarrow> t)"

definition logout_url :: "provider \<Rightarrow> string \<Rightarrow> string" where
  "logout_url p uri =
     (let c = pv_config p in
      if uc_logout_template c \<noteq> [] then fill_verb (uc_logout_template c) (escape Query_Mode uri)
      else if uc_end_session_url c = [] then []
      else uc_end_session_url c @ ''?''
        @ values_encode (values_set ''client_id'' (uc_client_id c) (values_set ''post_logout_redirect_uri'' uri [])))"

section \<open>What the provider says about a person\<close>

definition basic_auth :: "provider \<Rightarrow> string" where
  "basic_auth p = ''Basic '' @ std_encode (uc_client_id (pv_config p) @ '':'' @ uc_client_secret (pv_config p))"

definition exchange :: "provider \<Rightarrow> string \<Rightarrow> string \<Rightarrow> up_error + idp_tokens" where
  "exchange p code uri =
     (let form = values_set ''code'' code (values_set ''redirect_uri'' uri (values_set ''grant_type'' ''authorization_code'' [])) in
      case idp_token (pv_idp p) (uc_token_url (pv_config p)) (basic_auth p) (values_encode form) of
        Some (status, Some t) \<Rightarrow> if status div 100 \<noteq> 2 then Inl Exchange_Failed else Inr t
      | _ \<Rightarrow> Inl Exchange_Failed)"

definition userinfo_body :: "provider \<Rightarrow> string \<Rightarrow> up_error + userinfo_doc" where
  "userinfo_body p access =
     (case idp_userinfo (pv_idp p) (uc_userinfo_url (pv_config p)) (''Bearer '' @ access) of
        Some (status, Some d) \<Rightarrow> if status div 100 \<noteq> 2 then Inl Userinfo_Failed else Inr d
      | _ \<Rightarrow> Inl Userinfo_Failed)"

fun claim_text :: "json option \<Rightarrow> string" where
  "claim_text (Some (J_Str s)) = s"
| "claim_text (Some (J_Num t _)) = t"
| "claim_text (Some (J_Bool b)) = (if b then ''true'' else ''false'')"
| "claim_text _ = []"

fun claim_texts :: "json option \<Rightarrow> string list" where
  "claim_texts (Some (J_Arr vs)) = filter (\<lambda>s. s \<noteq> []) (map (\<lambda>v. claim_text (Some v)) vs)"
| "claim_texts None = []"
| "claim_texts (Some J_Null) = []"
| "claim_texts v = (if claim_text v \<noteq> [] then [claim_text v] else [])"

definition first_non_empty :: "string list \<Rightarrow> string" where
  "first_non_empty vs = (case first (\<lambda>v. v \<noteq> []) vs of Some v \<Rightarrow> v | None \<Rightarrow> [])"

fun string_value :: "json option \<Rightarrow> string" where
  "string_value (Some (J_Str s)) = s"
| "string_value _ = []"

fun string_or_null :: "json \<Rightarrow> string option" where
  "string_or_null (J_Str s) = Some s"
| "string_or_null J_Null = Some []"
| "string_or_null _ = None"

fun acr_string :: "json option \<Rightarrow> string" where
  "acr_string (Some (J_Arr (v # vs))) =
     (if list_all (\<lambda>x. string_or_null x \<noteq> None) (v # vs) then the (string_or_null v) else [])"
| "acr_string v = string_value v"

text \<open>The runes of a string as Go ranges over it: a byte that begins no rune counts as U+FFFD.\<close>

definition continuation :: "nat \<Rightarrow> bool" where "continuation b \<longleftrightarrow> 128 \<le> b \<and> b < 192"

fun runes :: "nat \<Rightarrow> nat list \<Rightarrow> nat list" where
  "runes 0 bs = []"
| "runes (Suc n) [] = []"
| "runes (Suc n) (a # r) =
     (if a < 128 then a # runes n r
      else if 194 \<le> a \<and> a < 224 then
        (case r of b # r' \<Rightarrow> if continuation b then ((a - 192) * 64 + (b - 128)) # runes n r' else 65533 # runes n r
         | _ \<Rightarrow> 65533 # runes n r)
      else if 224 \<le> a \<and> a < 240 then
        (case r of b # c # r' \<Rightarrow>
             if continuation b \<and> continuation c \<and> (a = 224 \<longrightarrow> 160 \<le> b) \<and> (a = 237 \<longrightarrow> b < 160)
             then ((a - 224) * 4096 + (b - 128) * 64 + (c - 128)) # runes n r' else 65533 # runes n r
         | _ \<Rightarrow> 65533 # runes n r)
      else if 240 \<le> a \<and> a < 245 then
        (case r of b # c # d # r' \<Rightarrow>
             if continuation b \<and> continuation c \<and> continuation d \<and> (a = 240 \<longrightarrow> 144 \<le> b) \<and> (a = 244 \<longrightarrow> b < 144)
             then ((a - 240) * 262144 + (b - 128) * 4096 + (c - 128) * 64 + (d - 128)) # runes n r' else 65533 # runes n r
         | _ \<Rightarrow> 65533 # runes n r)
      else 65533 # runes n r)"

text \<open>Controls (Cc), formatting characters (Cf) and line and paragraph separators (Zl, Zp).\<close>

definition hidden_rune :: "nat \<Rightarrow> bool" where
  "hidden_rune c \<longleftrightarrow> c < 32 \<or> 127 \<le> c \<and> c < 160 \<or> c = 173 \<or> 0x600 \<le> c \<and> c \<le> 0x605 \<or> c = 0x61C \<or> c = 0x6DD \<or> c = 0x70F
     \<or> c = 0x890 \<or> c = 0x891 \<or> c = 0x8E2 \<or> c = 0x180E \<or> 0x200B \<le> c \<and> c \<le> 0x200F \<or> 0x2028 \<le> c \<and> c \<le> 0x202E
     \<or> 0x2060 \<le> c \<and> c \<le> 0x2064 \<or> 0x2066 \<le> c \<and> c \<le> 0x206F \<or> c = 0xFEFF \<or> 0xFFF9 \<le> c \<and> c \<le> 0xFFFB
     \<or> c = 0x110BD \<or> c = 0x110CD \<or> 0x13430 \<le> c \<and> c \<le> 0x1343F \<or> 0x1BCA0 \<le> c \<and> c \<le> 0x1BCA3
     \<or> 0x1D173 \<le> c \<and> c \<le> 0x1D17A \<or> c = 0xE0001 \<or> 0xE0020 \<le> c \<and> c \<le> 0xE007F"

definition shown_address :: "string \<Rightarrow> string" where
  "shown_address raw =
     (let s = trim_space raw in if list_ex hidden_rune (runes (length s) (map of_char s)) then [] else s)"

definition catalog_entry :: "raw_sign_identity \<Rightarrow> sign_identity" where
  "catalog_entry r = \<lparr>sg_id = rsi_id r, sg_description = rsi_description r, sg_status = rsi_status r,
     sg_labels = rsi_labels r, sg_permissions = concat (map acc_permissions (rsi_access r))\<rparr>"

definition map_userinfo :: "codes \<Rightarrow> provider \<Rightarrow> userinfo_doc \<Rightarrow> up_error + user_info" where
  "map_userinfo cl p d =
     (let c = pv_config p;
          serial = (if uc_trust_codes c then string_value (ud_claims d (uc_claim_serial c)) else []) in
      case (if serial = [] then Inr [] else code_canonical cl serial (uc_country c)) of
        Inl err \<Rightarrow> Inl (Identity_Code_Refused err)
      | Inr code \<Rightarrow> Inr
          \<lparr>ui_subject = ud_sub d, ui_acr = acr_string (ud_acr d), ui_amr = ud_amr d, ui_given_name = ud_given_name d,
           ui_family_name = ud_family_name d, ui_name = ud_name d, ui_serial_number = code,
           ui_email = shown_address (string_value (ud_claims d (uc_claim_email c))),
           ui_sign_identities = map_option (map catalog_entry) (ud_sign_identities d),
           ui_issuer = [], ui_directory_id = [], ui_directory_guest = False, ui_auth_time = 0\<rparr>)"

definition id_token_algorithms :: "string list" where
  "id_token_algorithms = [''RS256'', ''PS256'', ''ES256'']"

definition verify_id_token :: "provider \<Rightarrow> string \<Rightarrow> string \<Rightarrow> up_error + (string \<Rightarrow> json option)" where
  "verify_id_token p raw nonce =
     (let c = pv_config p in
      case idp_jwt (pv_idp p) \<lparr>jw_methods = id_token_algorithms, jw_issuer = uc_issuer c, jw_audience = uc_client_id c,
          jw_leeway = uc_clock_skew c, jw_keys_url = uc_jwks_url c\<rparr> raw of
        None \<Rightarrow> Inl ID_Token_Refused
      | Some cs \<Rightarrow> if nonce \<noteq> [] \<and> string_value (cs ''nonce'') \<noteq> nonce then Inl ID_Token_Refused else Inr cs)"

definition auth_time_of :: "json option \<Rightarrow> int" where
  "auth_time_of v = (case v of Some (J_Num _ n) \<Rightarrow> if 0 < n then n else 0 | _ \<Rightarrow> 0)"

text \<open>The verified token's claims win where they are there.\<close>

definition overlay :: "provider \<Rightarrow> (string \<Rightarrow> json option) \<Rightarrow> user_info \<Rightarrow> user_info" where
  "overlay p cs u =
     (let amr = claim_texts (cs ''amr'') in
      u\<lparr>ui_given_name := or_else (claim_text (cs ''given_name'')) (ui_given_name u),
        ui_family_name := or_else (claim_text (cs ''family_name'')) (ui_family_name u),
        ui_name := or_else (claim_text (cs ''name'')) (ui_name u),
        ui_email := or_else (shown_address (claim_text (cs (uc_claim_email (pv_config p))))) (ui_email u),
        ui_acr := or_else (claim_text (cs ''acr'')) (ui_acr u),
        ui_amr := (if amr \<noteq> [] then amr else ui_amr u) @ claim_texts (cs ''acrs''),
        ui_auth_time := auth_time_of (cs ''auth_time'')\<rparr>)"

definition any_claim :: "userinfo_doc \<Rightarrow> string \<Rightarrow> string" where
  "any_claim d n = (if n = [] then [] else claim_text (ud_claims d n))"

definition with_directory :: "provider \<Rightarrow> userinfo_doc \<Rightarrow> (string \<Rightarrow> json option) \<Rightarrow> user_info \<Rightarrow> user_info" where
  "with_directory p d cs u =
     (let c = pv_config p;
          status = first_non_empty [claim_text (cs (uc_claim_account_status c)), any_claim d (uc_claim_account_status c)] in
      u\<lparr>ui_directory_id := first_non_empty [claim_text (cs (uc_claim_directory_id c)),
            any_claim d (uc_claim_directory_id c), ui_subject u],
        ui_directory_guest := (if uc_claim_account_status c \<noteq> [] then status \<noteq> [] \<and> status = uc_account_status_guest c
          else ui_directory_guest u)\<rparr>)"

definition claims :: "codes \<Rightarrow> provider \<Rightarrow> idp_tokens \<Rightarrow> string \<Rightarrow> up_error + user_info" where
  "claims cl p ts nonce =
     (case userinfo_body p (idt_access ts) of
        Inl err \<Rightarrow> Inl err
      | Inr d \<Rightarrow>
          (case map_userinfo cl p d of
             Inl err \<Rightarrow> Inl err
           | Inr u \<Rightarrow>
               let u = u\<lparr>ui_issuer := uc_issuer (pv_config p)\<rparr> in
               if \<not> pv_keys p then Inr (with_directory p d (\<lambda>_. None) u)
               else if idt_id ts = [] then Inl ID_Token_Refused
               else (case verify_id_token p (idt_id ts) nonce of
                   Inl err \<Rightarrow> Inl err
                 | Inr cs \<Rightarrow>
                     if string_value (cs ''sub'') = [] \<or> string_value (cs ''sub'') \<noteq> ui_subject u then Inl ID_Token_Refused
                     else Inr (with_directory p d cs (overlay p cs u)))))"

definition scope_sign_identity_profile :: string where
  "scope_sign_identity_profile = ''urn:safelayer:eidas:sign:identity:profile''"

definition catalog_enabled :: "provider \<Rightarrow> bool" where
  "catalog_enabled p \<longleftrightarrow> uc_sign_identity_url (pv_config p) \<noteq> [] \<and> scope_sign_identity_profile \<in> set (uc_scopes (pv_config p))"

definition sign_identity_cert :: "provider \<Rightarrow> string \<Rightarrow> string \<Rightarrow> up_error + string" where
  "sign_identity_cert p access ident =
     (case idp_certificate (pv_idp p) (uc_sign_identity_url (pv_config p) @ path_segment ident) (''Bearer '' @ access) of
        Some (status, Some cert) \<Rightarrow> if status div 100 \<noteq> 2 \<or> cert = [] then Inl Certificate_Failed else Inr cert
      | _ \<Rightarrow> Inl Certificate_Failed)"

section \<open>The eParaksts profile\<close>

definition eparaksts_authorize_path :: string where "eparaksts_authorize_path = ''/trustedx-authserver/oauth/lvrtc-eipsign-as''"
definition eparaksts_token_path :: string where "eparaksts_token_path = ''/trustedx-authserver/oauth/lvrtc-eipsign-as/token''"
definition eparaksts_userinfo_path :: string where "eparaksts_userinfo_path = ''/trustedx-resources/openid/v1/users/me''"
definition eparaksts_sign_identity_path :: string where "eparaksts_sign_identity_path = ''/trustedx-resources/esigp/v1/sign_identities/''"
definition eparaksts_logout_prefix :: string where "eparaksts_logout_prefix = ''/trustedx-authserver/''"
definition eparaksts_logout_suffix :: string where "eparaksts_logout_suffix = ''/logout''"
definition eparaksts_default_logout_idp :: string where "eparaksts_default_logout_idp = ''lvrtc-eipsign-idp''"
definition eparaksts_default_scope :: string where "eparaksts_default_scope = ''urn:lvrtc:fpeil:aa''"

fun trim_slash :: "string \<Rightarrow> string" where
  "trim_slash s = (if s \<noteq> [] \<and> last s = CHR ''/'' then trim_slash (butlast s) else s)"

declare trim_slash.simps [simp del]

definition eparaksts_profile :: "string \<Rightarrow> string \<Rightarrow> up_config" where
  "eparaksts_profile authority logout_idp =
     (let base = trim_slash authority in
      empty_up_config\<lparr>uc_authority_url := base,
        uc_scopes := [eparaksts_default_scope, scope_sign_identity_profile],
        uc_authorize_url := base @ eparaksts_authorize_path,
        uc_token_url := base @ eparaksts_token_path,
        uc_userinfo_url := base @ eparaksts_userinfo_path,
        uc_sign_identity_url := base @ eparaksts_sign_identity_path,
        uc_logout_template := base @ eparaksts_logout_prefix @ or_else logout_idp eparaksts_default_logout_idp
          @ eparaksts_logout_suffix @ ''?redirect_uri=%s'',
        uc_claim_serial := ''serial_number'', uc_trust_codes := True, uc_country := ''LV'',
        uc_method_policy := default_method_policy, uc_method_default := login_eid,
        uc_loa_policy := default_loa_policy, uc_loa_default := loa_low,
        uc_methods_allowed := [login_eparaksts_mobile, login_eid_scan],
        uc_methods_federated := [login_eparaksts_mobile, login_eid_scan, login_legacy_eid]\<rparr>)"

section \<open>A deployment's providers\<close>

record up_entry =
  ue_name :: string
  ue_provider :: "provider option"
  ue_return_path :: string
  ue_display_name :: string
  ue_acr :: "(string \<times> string) list"
  ue_holds_stored :: bool
  ue_key :: string

definition ue_prov :: "up_entry \<Rightarrow> provider" where
  "ue_prov e = the (ue_provider e)"

definition acr_for :: "up_entry \<Rightarrow> string \<Rightarrow> string" where
  "acr_for e m = (case map_of (ue_acr e) m of Some a \<Rightarrow> a | None \<Rightarrow> [])"

datatype set_error =
    No_Provider
  | Entry_Unnamed nat
  | Name_Twice string
  | Entry_Without_Provider string
  | Bad_Return_Path string string
  | Path_Twice string string
  | No_Method string
  | Card_Method string
  | Method_Twice string string string
  | Two_Holders string string
  | No_Holder
  | Card_Issuer string
  | No_Identifier string

text \<open>The entry that offers a method; in a set, at most one does.\<close>

definition by_method :: "up_entry list \<Rightarrow> string \<Rightarrow> up_entry option" where
  "by_method es m = first (\<lambda>e. m \<in> set (methods (ue_prov e))) es"

definition check_entry :: "up_entry list \<Rightarrow> up_entry \<Rightarrow> set_error option" where
  "check_entry es e =
     (if ue_name e = [] then Some (Entry_Unnamed (Suc (length es)))
      else if ue_name e \<in> set (map ue_name es) then Some (Name_Twice (ue_name e))
      else if ue_provider e = None then Some (Entry_Without_Provider (ue_name e))
      else if \<not> has_prefix (ue_return_path e) ''/'' then Some (Bad_Return_Path (ue_name e) (ue_return_path e))
      else case first (\<lambda>o'. ue_return_path o' = ue_return_path e) es of
          Some o' \<Rightarrow> Some (Path_Twice (ue_name o') (ue_name e))
        | None \<Rightarrow>
            if methods (ue_prov e) = [] then Some (No_Method (ue_name e))
            else
              or_err (first_err (\<lambda>m. if m = login_webeid then Some (Card_Method (ue_name e))
                  else case by_method es m of
                      Some o' \<Rightarrow> Some (Method_Twice (ue_name o') (ue_name e) m)
                    | None \<Rightarrow> None) (methods (ue_prov e)))
                (if ue_holds_stored e then
                   (case first ue_holds_stored es of
                      Some h \<Rightarrow> Some (Two_Holders (ue_name h) (ue_name e)) | None \<Rightarrow> None)
                 else None))"

fun add_entries :: "up_entry list \<Rightarrow> up_entry list \<Rightarrow> set_error + up_entry list" where
  "add_entries done [] = Inr done"
| "add_entries done (e # es) =
     (case check_entry done e of Some err \<Rightarrow> Inl err | None \<Rightarrow> add_entries (done @ [e]) es)"

definition entry_key :: "up_entry \<Rightarrow> up_entry \<Rightarrow> set_error + string" where
  "entry_key holder e =
     (let i = provider_identifier (ue_prov e) in
      if i = provider_webeid then Inl (Card_Issuer (ue_name e))
      else if ue_name e = ue_name holder \<or> i \<noteq> [] \<and> i = provider_identifier (ue_prov holder) then Inr []
      else if i = [] then Inl (No_Identifier (ue_name e))
      else Inr i)"

fun key_entries :: "up_entry \<Rightarrow> up_entry list \<Rightarrow> set_error + up_entry list" where
  "key_entries holder [] = Inr []"
| "key_entries holder (e # es) =
     (case entry_key holder e of
        Inl err \<Rightarrow> Inl err
      | Inr k \<Rightarrow>
          (case key_entries holder es of Inl err \<Rightarrow> Inl err | Inr ks \<Rightarrow> Inr (e\<lparr>ue_key := k\<rparr> # ks)))"

definition new_set :: "up_entry list \<Rightarrow> set_error + up_entry list" where
  "new_set es =
     (if es = [] then Inl No_Provider
      else case add_entries [] es of
          Inl err \<Rightarrow> Inl err
        | Inr ds \<Rightarrow>
            (case first ue_holds_stored ds of
               None \<Rightarrow> Inl No_Holder
             | Some h \<Rightarrow> key_entries h ds))"

definition all_methods :: "up_entry list \<Rightarrow> string list" where
  "all_methods es = concat (map (\<lambda>e. methods (ue_prov e)) es)"

section \<open>What holds of a set\<close>

text \<open>No two entries share a name, a return path or a method; none offers the card's method; exactly one
  holds the stored sign-ins.\<close>

definition entries_apart :: "up_entry list \<Rightarrow> bool" where
  "entries_apart es \<longleftrightarrow> distinct (map ue_name es) \<and> distinct (map ue_return_path es)
     \<and> distinct (all_methods es) \<and> login_webeid \<notin> set (all_methods es)
     \<and> (\<forall>e\<in>set es. ue_name e \<noteq> [] \<and> ue_provider e \<noteq> None \<and> has_prefix (ue_return_path e) ''/'' \<and> methods (ue_prov e) \<noteq> [])
     \<and> length (filter ue_holds_stored es) \<le> 1"

lemma distinct_methods [simp]: "distinct (methods p)"
  by (simp add: methods_def)

lemma set_methods [simp]: "set (methods p) = set (pv_allowed p)"
  by (simp add: methods_def)

lemma check_entry_apart:
  "entries_apart es \<Longrightarrow> check_entry es e = None \<Longrightarrow> entries_apart (es @ [e])"
  by (auto simp: check_entry_def entries_apart_def all_methods_def by_method_def filter_empty_conv
      split: if_splits option.splits)

lemma add_entries_apart: "entries_apart ds \<Longrightarrow> add_entries ds es = Inr es' \<Longrightarrow> entries_apart es' \<and> es' = ds @ es"
proof (induction ds es rule: add_entries.induct)
  case (2 ds e es)
  then show ?case using check_entry_apart[of ds e] by (auto split: option.splits)
qed simp

lemma entry_key_update [simp]: "entry_key h (e\<lparr>ue_key := k\<rparr>) = entry_key h e"
  by (simp add: entry_key_def ue_prov_def Let_def)

lemma key_entries_same:
  "key_entries h es = Inr ks \<Longrightarrow> map (ue_key_update (\<lambda>_. [])) ks = map (ue_key_update (\<lambda>_. [])) es
     \<and> (\<forall>k\<in>set ks. entry_key h k = Inr (ue_key k))"
proof (induction h es arbitrary: ks rule: key_entries.induct)
  case (2 h e es)
  then obtain k ks' where "entry_key h e = Inr k" "key_entries h es = Inr ks'" "ks = e\<lparr>ue_key := k\<rparr> # ks'"
    by (auto split: sum.splits)
  with 2 show ?case by simp
qed simp

text \<open>What the key leaves out of account.\<close>

lemma unkeyed_map:
  assumes "map (ue_key_update (\<lambda>_. [])) ks = map (ue_key_update (\<lambda>_. [])) es" "\<And>e. f (e\<lparr>ue_key := []\<rparr>) = f e"
  shows "map f ks = map f es"
proof -
  have "map f (map (ue_key_update (\<lambda>_. [])) ks) = map f (map (ue_key_update (\<lambda>_. [])) es)" using assms(1) by simp
  then show ?thesis by (simp add: comp_def assms(2))
qed

lemma unkeyed_length:
  assumes "map (ue_key_update (\<lambda>_. [])) ks = map (ue_key_update (\<lambda>_. [])) es" "\<And>e. P (e\<lparr>ue_key := []\<rparr>) = P e"
  shows "length (filter P ks) = length (filter P es)"
proof -
  have *: "length (filter P xs) = length (filter id (map P xs))" for xs
    by (simp add: filter_map comp_def)
  show ?thesis unfolding * using unkeyed_map[of ks es P, OF assms] by simp
qed

lemma entries_apart_unkeyed:
  assumes "map (ue_key_update (\<lambda>_. [])) ks = map (ue_key_update (\<lambda>_. [])) es" "entries_apart es"
  shows "entries_apart ks"
proof -
  have m: "map f ks = map f es" if "\<And>e. f (e\<lparr>ue_key := []\<rparr>) = f e" for f :: "up_entry \<Rightarrow> 'b"
    using assms(1) that by (rule unkeyed_map)
  let ?ok = "\<lambda>e. ue_name e \<noteq> [] \<and> ue_provider e \<noteq> None \<and> has_prefix (ue_return_path e) ''/'' \<and> methods (ue_prov e) \<noteq> []"
  have *: "(\<forall>e\<in>set xs. ?ok e) \<longleftrightarrow> set (map ?ok xs) \<subseteq> {True}" for xs by auto
  show ?thesis
    using assms(2) m[of ue_name] m[of ue_return_path] m[of "\<lambda>e. methods (ue_prov e)"] m[of ?ok]
      unkeyed_length[OF assms(1), of ue_holds_stored]
    unfolding entries_apart_def all_methods_def * by (simp add: ue_prov_def)
qed

lemma new_set_apart:
  assumes "new_set es = Inr ks"
  shows "entries_apart ks"
proof -
  have none: "entries_apart []" by (simp add: entries_apart_def all_methods_def)
  obtain h ds where h: "key_entries h ds = Inr ks" and add: "add_entries [] es = Inr ds"
    using assms by (auto simp: new_set_def split: sum.splits option.splits if_splits)
  have "entries_apart ds" using add_entries_apart[OF none add] by (rule conjunct1)
  with conjunct1[OF key_entries_same[OF h]] show ?thesis by (rule entries_apart_unkeyed)
qed

text \<open>Where no two entries share a method, the entry that offers a method is the only one.\<close>

lemma by_method_in:
  assumes "distinct (all_methods es)" "e \<in> set es"
  shows "by_method es m = Some e \<longleftrightarrow> m \<in> set (methods (ue_prov e))"
  using assms
proof (induction es)
  case (Cons x es)
  have x: "m \<notin> set (methods (ue_prov x))" if "e \<in> set es" "m \<in> set (methods (ue_prov e))"
    using Cons.prems(1) that by (auto simp: all_methods_def)
  from Cons show ?case
    unfolding by_method_def using x by (auto simp: all_methods_def dest: first_SomeD)
qed simp

text \<open>
  C22. A set of providers the service starts with tells them apart. Each sign-in method is offered by
  exactly one provider, and the card's by none; each return path belongs to one; exactly one holds the
  stored sign-ins. A person's credential is kept under a provider's key: two entries keep theirs under one
  key only when they are the same provider, and none under the card's.
\<close>

theorem providers_told_apart:
  assumes "new_set es = Inr ks"
  shows "distinct (map ue_name ks) \<and> distinct (map ue_return_path ks) \<and> login_webeid \<notin> set (all_methods ks)
     \<and> length (filter ue_holds_stored ks) = 1
     \<and> (\<forall>e\<in>set ks. ue_provider e \<noteq> None \<and> methods (ue_prov e) \<noteq> [] \<and> ue_key e \<noteq> provider_webeid
          \<and> (\<forall>m. by_method ks m = Some e \<longleftrightarrow> m \<in> set (methods (ue_prov e)))
          \<and> (\<forall>f\<in>set ks. ue_key e = ue_key f \<longrightarrow> provider_identifier (ue_prov e) = provider_identifier (ue_prov f)))"
proof -
  obtain h where h: "first ue_holds_stored es = Some h" "key_entries h es = Inr ks" and add: "add_entries [] es = Inr es"
    using assms add_entries_apart[of "[]" es] by (fastforce simp: new_set_def entries_apart_def all_methods_def split: sum.splits option.splits if_splits)
  have apart: "entries_apart es"
    using add_entries_apart[OF _ add] by (simp add: entries_apart_def all_methods_def)
  have h_in: "h \<in> set es" "ue_holds_stored h" using first_SomeD[OF h(1)] by simp_all
  note same = key_entries_same[OF h(2)]
  note ks = new_set_apart[OF assms]
  have "filter ue_holds_stored es \<noteq> []" using h_in by (auto simp: filter_empty_conv)
  then have "length (filter ue_holds_stored es) = 1"
    using apart unfolding entries_apart_def by (cases "filter ue_holds_stored es") auto
  then have one: "length (filter ue_holds_stored ks) = 1"
    using unkeyed_length[OF conjunct1[OF same], of ue_holds_stored] by simp
  have named: "e = h" if "e \<in> set es" "ue_name e = ue_name h" for e
    using apart that h_in(1) by (auto simp: entries_apart_def distinct_map inj_on_def)
  have holder: "provider_identifier (ue_prov e) = provider_identifier (ue_prov h)" if "e \<in> set ks" "ue_name e = ue_name h" for e
  proof -
    have "map (\<lambda>e. (ue_name e, ue_prov e)) ks = map (\<lambda>e. (ue_name e, ue_prov e)) es"
      by (rule unkeyed_map[OF conjunct1[OF same]]) (simp add: ue_prov_def)
    then have "(ue_name e, ue_prov e) \<in> set (map (\<lambda>e. (ue_name e, ue_prov e)) es)"
      using that(1) by (metis (no_types, lifting) image_eqI list.set_map)
    then show ?thesis using named that(2) by auto
  qed
  have key: "ue_key e \<noteq> provider_webeid
      \<and> (ue_key e = [] \<and> provider_identifier (ue_prov e) = provider_identifier (ue_prov h)
         \<or> ue_key e \<noteq> [] \<and> ue_key e = provider_identifier (ue_prov e))" if "e \<in> set ks" for e
  proof -
    have "entry_key h e = Inr (ue_key e)" using same that by simp
    then show ?thesis
      using holder[OF that] by (auto simp: entry_key_def Let_def provider_webeid_def split: if_splits)
  qed
  have same_key: "provider_identifier (ue_prov e) = provider_identifier (ue_prov f)"
    if "e \<in> set ks" "f \<in> set ks" "ue_key e = ue_key f" for e f
    using key[OF that(1)] key[OF that(2)] that(3) by metis
  have "\<forall>e\<in>set ks. ue_provider e \<noteq> None \<and> methods (ue_prov e) \<noteq> []" "distinct (all_methods ks)"
    using ks by (simp_all add: entries_apart_def)
  then show ?thesis
    using ks one key same_key by_method_in[of ks] unfolding entries_apart_def by blast
qed

section \<open>A set on an example\<close>

definition quiet_idp :: idp where
  "quiet_idp = \<lparr>idp_discovery = (\<lambda>_. None), idp_token = (\<lambda>_ _ _. None), idp_userinfo = (\<lambda>_ _. None),
     idp_certificate = (\<lambda>_ _. None), idp_jwt = (\<lambda>_ _. None)\<rparr>"

definition example_provider :: "idp \<Rightarrow> string \<Rightarrow> string list \<Rightarrow> provider" where
  "example_provider i name ms =
     \<lparr>pv_config = up_defaults (empty_up_config\<lparr>uc_authority_url := ''https://'' @ name @ ''.test'',
        uc_client_id := ''authbyte'', uc_client_secret := ''s'', uc_authorize_url := ''https://'' @ name @ ''.test/authorize'',
        uc_token_url := ''https://'' @ name @ ''.test/token'', uc_userinfo_url := ''https://'' @ name @ ''.test/me'',
        uc_method_default := hd ms, uc_methods_allowed := ms\<rparr>),
      pv_allowed = ms, pv_federated = [], pv_keys = False, pv_idp = i\<rparr>"

definition example_entry :: "idp \<Rightarrow> string \<Rightarrow> string list \<Rightarrow> bool \<Rightarrow> up_entry" where
  "example_entry i name ms holds =
     \<lparr>ue_name = name, ue_provider = Some (example_provider i name ms), ue_return_path = ''/callback/'' @ name,
      ue_display_name = [], ue_acr = [], ue_holds_stored = holds, ue_key = []\<rparr>"

definition example_set :: "up_entry list" where
  "example_set = [example_entry quiet_idp ''national'' [login_eparaksts_mobile, login_eid_scan] True,
     example_entry quiet_idp ''office'' [''office''] False]"

theorem providers_told_apart_witness:
  "\<exists>e f. new_set example_set = Inr [e, f] \<and> by_method [e, f] ''office'' = Some f \<and> ue_key e \<noteq> ue_key f"
proof -
  have "case new_set example_set of Inr [e, f] \<Rightarrow> pv_allowed (ue_prov f) = [''office''] \<and> ue_key e \<noteq> ue_key f | _ \<Rightarrow> False"
    by code_simp
  then obtain e f where run: "new_set example_set = Inr [e, f]" and f: "pv_allowed (ue_prov f) = [''office'']"
    and k: "ue_key e \<noteq> ue_key f"
    by (auto split: sum.splits list.splits)
  from providers_told_apart[OF run] f have "by_method [e, f] ''office'' = Some f" by simp
  with run k show ?thesis by blast
qed

section \<open>What is taken from a provider's answer\<close>

lemma exchange_subject:
  "map_userinfo cl p d = Inr u \<Longrightarrow> ui_subject u = ud_sub d \<and> ui_auth_time u = 0 \<and>
     (ui_serial_number u = [] \<and> (string_value (ud_claims d (uc_claim_serial (pv_config p))) = [] \<or> \<not> uc_trust_codes (pv_config p))
      \<or> uc_trust_codes (pv_config p) \<and> code_canonical cl (string_value (ud_claims d (uc_claim_serial (pv_config p)))) (uc_country (pv_config p))
          = Inr (ui_serial_number u))"
  by (auto simp: map_userinfo_def Let_def split: sum.splits if_splits)

lemma with_directory_fields [simp]:
  "ui_subject (with_directory p d cs u) = ui_subject u" "ui_serial_number (with_directory p d cs u) = ui_serial_number u"
  "ui_auth_time (with_directory p d cs u) = ui_auth_time u" "ui_issuer (with_directory p d cs u) = ui_issuer u"
  by (simp_all add: with_directory_def Let_def)

lemma overlay_fields [simp]:
  "ui_subject (overlay p cs u) = ui_subject u" "ui_serial_number (overlay p cs u) = ui_serial_number u"
  "ui_auth_time (overlay p cs u) = auth_time_of (cs ''auth_time'')" "ui_issuer (overlay p cs u) = ui_issuer u"
  by (simp_all add: overlay_def Let_def)


definition signing_idp :: idp where
  "signing_idp = quiet_idp\<lparr>
     idp_userinfo := (\<lambda>url bearer. Some (200, Some \<lparr>ud_sub = ''u1'', ud_acr = None, ud_amr = [], ud_given_name = ''Anna'',
       ud_family_name = [], ud_name = [], ud_sign_identities = None,
       ud_claims = (\<lambda>k. if k = ''serial_number'' then Some (J_Str ''PNOLV-1'') else None)\<rparr>)),
     idp_jwt := (\<lambda>ck raw. if raw = ''idtok'' then Some (map_of [(''sub'', J_Str ''u1''), (''nonce'', J_Str ''n1''), (''auth_time'', J_Num ''1700000000'' 1700000000)])
       else None)\<rparr>"

definition plain_codes :: codes where
  "plain_codes = \<lparr>code_canonical = (\<lambda>c country. if c = [] then Inl Malformed_Code else Inr c),
     code_country = (\<lambda>c. Some ''LV''), code_display = (\<lambda>c. c)\<rparr>"

definition signing_provider :: provider where
  "signing_provider = (example_provider signing_idp ''national'' [login_eid_scan])\<lparr>pv_keys := True\<rparr>"


end
