(* ===== verification/Page_Words.thy ===== *)
theory Page_Words
  imports Go_Lib Complex_Main
begin

text \<open>
  The sign-in page as \<open>src/signin/signin.go\<close> makes it: which language it is shown in, what one showing
  of it carries, and the headers it is answered with. The words themselves are text and left out: a page
  here names its ways and its notice by their codes.

  A weight of \<open>Accept-Language\<close> is read by \<open>strconv.ParseFloat\<close>, the parameter \<open>pf\<close>.
\<close>

section \<open>The language\<close>

definition languages :: "string list" where
  "languages = [''en'', ''lv'']"

definition supported :: "string \<Rightarrow> bool" where
  "supported l \<longleftrightarrow> l \<in> set languages"

definition primary :: "string \<Rightarrow> string" where
  "primary tag = takeWhile (\<lambda>c. c \<noteq> CHR ''-'') (to_lower (trim_space tag))"

definition range_weight :: "(string \<Rightarrow> rat option) \<Rightarrow> string list \<Rightarrow> rat" where
  "range_weight pf fields =
     foldl (\<lambda>q f. case cut_prefix (trim_space f) ''q='' of
         Some v \<Rightarrow> (case pf v of Some w \<Rightarrow> w | None \<Rightarrow> q) | None \<Rightarrow> q) 1 fields"

definition weighted :: "(string \<Rightarrow> rat option) \<Rightarrow> string \<Rightarrow> (rat \<times> string) list" where
  "weighted pf header =
     filter (\<lambda>(q, tag). tag \<noteq> [] \<and> 0 < q)
       (map (\<lambda>part. let fields = split_on (CHR '';'') part in (range_weight pf (tl fields), trim_space (hd fields)))
         (split_on (CHR '','') header))"

definition by_weight :: "(string \<Rightarrow> rat option) \<Rightarrow> string \<Rightarrow> string list" where
  "by_weight pf header = map snd (sort_key (\<lambda>r. - fst r) (weighted pf header))"

definition choose_words :: "(string \<Rightarrow> rat option) \<Rightarrow> string \<Rightarrow> string \<Rightarrow> string \<Rightarrow> string" where
  "choose_words pf chosen ui_locales accept =
     (if supported chosen then chosen
      else case first supported (map primary (space_fields ui_locales)) of
          Some l \<Rightarrow> l
        | None \<Rightarrow> (case first supported (map primary (by_weight pf accept)) of Some l \<Rightarrow> l | None \<Rightarrow> ''en''))"

section \<open>A page\<close>

record card =
  card_action :: string
  card_nonce :: string
  card_state :: string

datatype page_kind = Sign_In_Page | Assistant_Page | Cannot_Start_Page

record page =
  pg_kind :: page_kind
  pg_lang :: string
  pg_ways :: "string list"
  pg_notice :: string
  pg_action :: string
  pg_token :: string
  pg_card :: "card option"
  pg_next :: string
  pg_targets :: "string list"

definition form_action :: "string list \<Rightarrow> string" where
  "form_action targets =
     [CHR 0x27] @ ''self'' @ [CHR 0x27] @ concat (map (\<lambda>t. CHR '' '' # t) (filter (\<lambda>t. t \<noteq> []) targets))"

definition quoted :: "string \<Rightarrow> string" where
  "quoted s = [CHR 0x27] @ s @ [CHR 0x27]"

definition page_headers :: "string list \<Rightarrow> (string \<times> string) list" where
  "page_headers targets =
     [(''Content-Security-Policy'', ''default-src '' @ quoted ''none'' @ ''; script-src '' @ quoted ''self''
         @ ''; style-src '' @ quoted ''self'' @ ''; font-src '' @ quoted ''self'' @ ''; img-src '' @ quoted ''self''
         @ ''; form-action '' @ form_action targets @ ''; frame-ancestors '' @ quoted ''none'' @ ''; base-uri '' @ quoted ''none''),
      (''X-Frame-Options'', ''DENY''), (''Cross-Origin-Opener-Policy'', ''same-origin''), (''Cache-Control'', ''no-store''),
      (''Pragma'', ''no-cache''), (''Referrer-Policy'', ''same-origin''), (''X-Content-Type-Options'', ''nosniff'')]"

section \<open>Facts\<close>

lemma choose_words_supported: "supported (choose_words pf chosen ls accept)"
  by (auto simp: choose_words_def supported_def languages_def split: option.splits dest: first_SomeD)

text \<open>The first supported language of the heaviest range: no other supported range of the header weighs more.\<close>

lemma by_weight_heaviest:
  fixes ws :: "(rat \<times> string) list"
  assumes "first P (map snd (sort_key (\<lambda>r. - fst r) ws)) = Some t"
  shows "\<exists>q. (q, t) \<in> set ws \<and> (\<forall>(w, u) \<in> set ws. P u \<longrightarrow> w \<le> (q::rat))"
proof -
  have "sorted (map (\<lambda>r. - fst r) xs) \<Longrightarrow> first P (map snd xs) = Some t \<Longrightarrow>
      \<exists>q. (q, t) \<in> set xs \<and> (\<forall>(w, u) \<in> set xs. P u \<longrightarrow> w \<le> (q::rat))" for xs :: "(rat \<times> string) list"
  proof (induction xs)
    case (Cons x xs)
    show ?case
    proof (cases "P (snd x)")
      case True
      with Cons.prems have "t = snd x" "\<forall>y\<in>set xs. fst y \<le> fst x" by auto
      then show ?thesis by (intro exI[of _ "fst x"]) (auto simp: split_beta)
    next
      case False
      with Cons show ?thesis by fastforce
    qed
  qed simp
  from this[of "sort_key (\<lambda>r. - fst r) ws"] assms show ?thesis by simp
qed

end
