(* ===== verification/Http.thy ===== *)
theory Http
  imports Registry Session_Spec Issuer Identity Upstream Page_Words
begin

text \<open>
  What every handler of \<open>src/routes/\<close> runs in: the request, the answer, what the deployment gives
  it (\<open>env\<close>: its configuration, the client registry, the issuer, the session store's operations, the
  membership register, the DPoP verifier, the identity providers, the identity store and the card reader) and the state it changes (\<open>world\<close>: the session store, the
  DPoP proofs already seen, the answer's headers and cookies, the audit events recorded and the
  register calls made).

  The web framework, the DPoP library, the register and randomness are outside the repository. They
  are functions of the environment: \<open>en_rand k n\<close> is the \<open>k\<close>-th draw, of \<open>n\<close> bytes; \<open>rb_http k c\<close> is
  the register's answer to the \<open>k\<close>-th call. A handler's run reads one time, \<open>en_now\<close>.
\<close>

section \<open>Requests and answers\<close>

text \<open>\<open>rq_string\<close> and \<open>rq_optional\<close> are the framework's readings of a form field that must be there
  and of one that may be absent; \<open>rq_peek\<close> gives every value of a field as sent; \<open>rq_post\<close> and \<open>rq_query\<close> are
  the decoded pairs of the body and of the query in the order they came; \<open>rq_caller\<close> is what the caller's
  token says, when one was authenticated; \<open>rq_body\<close> is the body as \<open>encoding/json\<close> decodes it, \<open>rq_read_body\<close>
  the body as the framework's own JSON reading gives it; \<open>rq_html\<close> says the caller asked
  for a page.\<close>

record request =
  rq_method :: string
  rq_tls :: bool
  rq_host :: string
  rq_path :: string
  rq_header :: "string \<Rightarrow> string"
  rq_cookie :: "string \<Rightarrow> string"
  rq_string :: "string \<Rightarrow> string option"
  rq_optional :: "string \<Rightarrow> string option"
  rq_peek :: "string \<Rightarrow> string list"
  rq_query :: "(string \<times> string) list"
  rq_post :: "(string \<times> string) list"
  rq_caller :: "claim_set option"
  rq_params :: "string \<Rightarrow> string"
  rq_body :: "json option"
  rq_read_body :: "json option"
  rq_html :: bool

text \<open>The first value a field was sent with, or nothing.\<close>

definition peek :: "request \<Rightarrow> string \<Rightarrow> string" where
  "peek rq k = (case rq_peek rq k of v # _ \<Rightarrow> v | [] \<Rightarrow> [])"

datatype problem =
    Param_Required string
  | Param_Invalid string
  | Unauthorized
  | Forbidden
  | Not_Found_Problem
  | Not_Member
  | Register_Unavailable
  | Store_Unavailable
  | Connection_Ended
  | Internal
  | Unreadable_Body
  | Identity_Forbidden string
  | Identity_Invalid string
  | Identity_Store_Missing
  | Identity_Not_Found
  | Connection_Forbidden
  | Connection_Not_Found

record token_response =
  tk_access :: string
  tk_type :: string
  tk_expires_in :: int
  tk_refresh :: string
  tk_id :: string
  tk_issued_type :: string
  tk_scope :: string
  tk_capabilities :: "capabilities option"
  tk_tenants :: "string list"

definition plain_token :: "string \<Rightarrow> string \<Rightarrow> int \<Rightarrow> token_response" where
  "plain_token access ty secs =
     \<lparr>tk_access = access, tk_type = ty, tk_expires_in = secs, tk_refresh = [], tk_id = [], tk_issued_type = [],
      tk_scope = [], tk_capabilities = None, tk_tenants = []\<rparr>"

record sign_in_line =
  sl_sub :: string
  sl_signs_in :: bool
  sl_email :: string
  sl_country :: string
  sl_length :: int

record connection_line =
  cnl_id :: string
  cnl_app :: string
  cnl_connected_at :: string
  cnl_last_used :: "string option"

record identity_answer =
  ia_subject :: string
  ia_name :: string
  ia_given_name :: string
  ia_family_name :: string
  ia_loa :: string
  ia_login_method :: string
  ia_scopes :: "string list"
  ia_flows :: "string list"

datatype reply =
    Refused problem
  | OAuth_Refused int string
  | Token_Reply token_response
  | Status_Reply int
  | Redirect int string
  | Page int page
  | Identity_Reply identity_answer
  | Lines_Reply "sign_in_line list"
  | Code_Reply string string
  | Registered_Reply int string bool
  | Own_Connections_Reply "(string \<times> string \<times> connection_line list) list"
  | Connections_Reply "connection_line list"

section \<open>The register's doors\<close>

datatype door = Claims_Door | Memberships_Door | Admissions_Door | Assistants_Door

record directory_login =
  dl_issuer :: string
  dl_display_name :: string

record door_call =
  dc_door :: door
  dc_token :: string
  dc_address :: string
  dc_login :: "directory_login option"

record membership =
  m_tenant :: string
  m_scopes :: "string list"

record assistant =
  a_tenant :: string
  a_tenant_name :: string
  a_key :: string
  a_name :: string
  a_scopes :: "string list"

text \<open>What the register's JSON answers carry; \<open>da_body = None\<close> is an answer that does not decode.\<close>

record door_body =
  db_subject_key :: string
  db_memberships :: "membership list"
  db_assistants :: "assistant list"
  db_outcome :: string

record door_answer =
  da_status :: int
  da_body :: "door_body option"

record rolebyte =
  rb_base :: string
  rb_audience :: string
  rb_actor :: string
  rb_thumbprint :: string
  rb_http :: "nat \<Rightarrow> door_call \<Rightarrow> door_answer option"

section \<open>Proofs of possession\<close>

record dpop_options =
  do_method :: string
  do_url :: string
  do_access_token :: string
  do_max_age :: duration
  do_leeway :: duration
  do_require_nonce :: bool

record dpop_result =
  dr_nonce :: string
  dr_jti :: string
  dr_thumbprint :: string

datatype dpop_error = Missing_Nonce | Bad_Proof

section \<open>Audit events\<close>

datatype audit_event =
    Login_Success string string string
  | Login_Failure string
  | Session_Ended string string
  | Connection_Signed_Out string string string bool
  | Logout_Event string string bool
  | Shared_Session_Created string string
  | Shared_Session_Reused string string string
  | Shared_Session_Refused string string
  | Shared_Session_Ended string string nat
  | User_Token_Issued string string string string "string list"
  | Service_Token_Issued string string string "string list"
  | Delegation_Refused string string string
  | Answered_For_Another string
  | Delegated_Token_Issued string string string "string list"
  | Identity_Written string string bool
  | Identity_Registered string string string bool
  | Identity_Code_Read string string

section \<open>The environment and the world\<close>

record config =
  cf_session_ttl :: duration
  cf_app_token_ttl :: duration
  cf_dpop_max_age :: duration
  cf_leeway :: duration
  cf_dpop_nonce :: bool
  cf_development :: bool
  cf_base_url :: string
  cf_issuer_url :: string

text \<open>Lifetimes are checked positive when the configuration is loaded.\<close>

definition config_ok :: "config \<Rightarrow> bool" where
  "config_ok c \<longleftrightarrow> 0 < cf_session_ttl c \<and> 0 < cf_app_token_ttl c"

text \<open>The identity store behind its procedures (\<open>src/store/postgres.go\<close>), each answer that of the \<open>n\<close>-th
  call: a login's person, one registered beforehand, and the reads. The database is outside the repository.\<close>

record person_profile =
  pp_name :: string
  pp_given_name :: string
  pp_family_name :: string
  pp_serial_number :: string
  pp_login_method :: string
  pp_email :: string
  pp_provider :: string

record mapping =
  mp_internal_sub :: string
  mp_idp_sub :: string
  mp_tenant :: string
  mp_name :: string
  mp_given_name :: string
  mp_family_name :: string
  mp_serial_number :: string

datatype people_error = Procedure_Refused string string | People_Down

datatype people_call =
    Ensure_Mapping string person_profile
  | Register_Person string string string string
  | Get_Person string
  | Sign_In_Lines "string list"

record people =
  pe_ensure :: "nat \<Rightarrow> string \<Rightarrow> person_profile \<Rightarrow> people_error + (string \<times> bool)"
  pe_register :: "nat \<Rightarrow> string \<Rightarrow> string \<Rightarrow> string \<Rightarrow> string \<Rightarrow> people_error + (string \<times> bool)"
  pe_get :: "nat \<Rightarrow> string \<Rightarrow> people_error + mapping"
  pe_lines :: "nat \<Rightarrow> string list \<Rightarrow> people_error + sign_in_line list"

text \<open>The card: the engine that validates a card's answer to a challenge (\<open>src/webeid/webeid.go\<close> calls it),
  and the certificate a card's answer names.\<close>

record card_subject =
  cs_common_name :: string
  cs_id_code :: string
  cs_country :: string
  cs_given_name :: string
  cs_surname :: string

record card_reader =
  cr_validate :: "string \<Rightarrow> string \<Rightarrow> card_subject option"
  cr_certificate :: "string \<Rightarrow> string"

text \<open>How the authentication library shows a token's claims to a handler: the text of its \<open>act\<close> claim, the
  person's names, the scopes one by one, and whether it holds a level of a scope group.\<close>

record user_reading =
  ur_act :: "claim_set \<Rightarrow> string"
  ur_name :: "claim_set \<Rightarrow> string"
  ur_given_name :: "claim_set \<Rightarrow> string"
  ur_family_name :: "claim_set \<Rightarrow> string"
  ur_scopes :: "claim_set \<Rightarrow> string list"
  ur_has_level :: "claim_set \<Rightarrow> string \<Rightarrow> string \<Rightarrow> bool"

record 'c env =
  en_now :: time
  en_config :: config
  en_registry :: registry
  en_issuer :: issuer
  en_crypto :: crypto
  en_ops :: "'c store_ops"
  en_register :: "rolebyte option"
  en_rand :: "nat \<Rightarrow> nat \<Rightarrow> string"
  en_dpop :: "string \<Rightarrow> dpop_options \<Rightarrow> dpop_error + dpop_result"
  en_nonce_ok :: "string \<Rightarrow> bool"
  en_fresh_nonce :: "nat \<Rightarrow> string"
  en_replay_up :: bool
  en_is_service :: "claim_set \<Rightarrow> bool"
  en_upstreams :: "up_entry list"
  en_people :: people
  en_has_store :: bool
  en_codes :: codes
  en_card :: "card_reader option"
  en_user :: user_reading
  en_parse_float :: "string \<Rightarrow> rat option"

text \<open>A cookie is written HTTP-only, \<open>SameSite=Lax\<close>, for the whole host; the last value says \<open>Secure\<close>.\<close>

datatype cookie_op =
    Set_Cookie string string duration bool
  | Clear_Cookie string bool

record 'c world =
  wo_store :: 'c
  wo_seen :: "(string \<times> time) list"
  wo_draws :: nat
  wo_calls :: "door_call list"
  wo_events :: "audit_event list"
  wo_headers :: "(string \<times> string) list"
  wo_cookies :: "cookie_op list"
  wo_people :: "people_call list"

type_synonym ('c, 'a) handler = "('c world, reply, 'a) act"

section \<open>Small steps every handler takes\<close>

definition refuse :: "problem \<Rightarrow> ('c, 'a) handler" where
  "refuse p = stop (Refused p)"

definition guard :: "bool \<Rightarrow> problem \<Rightarrow> ('c, unit) handler" where
  "guard b p = (if b then ret () else refuse p)"

definition record_event :: "audit_event \<Rightarrow> ('c, unit) handler" where
  "record_event ev = change (\<lambda>w. w\<lparr>wo_events := wo_events w @ [ev]\<rparr>)"

definition set_header :: "string \<Rightarrow> string \<Rightarrow> ('c, unit) handler" where
  "set_header k v = change (\<lambda>w. w\<lparr>wo_headers := wo_headers w @ [(k, v)]\<rparr>)"

definition no_store :: "('c, unit) handler" where
  "no_store = andthen (set_header ''Cache-Control'' ''no-store'') (\<lambda>_. set_header ''Pragma'' ''no-cache'')"

text \<open>A random value: the environment's next draw, and \<open>randomToken\<close>, its text.\<close>

definition draw :: "'c env \<Rightarrow> nat \<Rightarrow> ('c world, 'e, string) act" where
  "draw e n w = (Inr (en_rand e (wo_draws w) n), w\<lparr>wo_draws := Suc (wo_draws w)\<rparr>)"

definition random_token :: "'c env \<Rightarrow> nat \<Rightarrow> ('c world, 'e, string) act" where
  "random_token e n = andthen (draw e n) (\<lambda>b. ret (raw_url_encode b))"

text \<open>One call of the session store, its error left to the caller.\<close>

definition stored :: "'c env \<Rightarrow> ('c, 'a) store_op \<Rightarrow> ('c world, store_error, 'a) act" where
  "stored e op w = (case op (en_now e) (wo_store w) of (r, c) \<Rightarrow> (r, w\<lparr>wo_store := c\<rparr>))"

text \<open>\<open>storeRefusal\<close>: an entry that is gone is 401, a store that could not answer 503.\<close>

definition store_refusal :: "store_error \<Rightarrow> ('c, 'a) handler" where
  "store_refusal err = refuse (if err = Not_Found then Unauthorized else Store_Unavailable)"

text \<open>A field the form must carry.\<close>

definition need_field :: "request \<Rightarrow> string \<Rightarrow> ('c, string) handler" where
  "need_field rq k = (case rq_string rq k of Some v \<Rightarrow> ret v | None \<Rightarrow> refuse (Param_Required k))"

definition oauth_error :: "int \<Rightarrow> string \<Rightarrow> ('c, 'a) handler" where
  "oauth_error status code = andthen no_store (\<lambda>_. stop (OAuth_Refused status code))"

lemma stored_Inr [act_simps]:
  "stored e op w = (Inr x, w') \<longleftrightarrow> (\<exists>c. op (en_now e) (wo_store w) = (Inr x, c) \<and> w' = w\<lparr>wo_store := c\<rparr>)"
  by (auto simp: stored_def split: prod.splits)

lemma stored_Inl:
  "stored e op w = (Inl x, w') \<longleftrightarrow> (\<exists>c. op (en_now e) (wo_store w) = (Inl x, c) \<and> w' = w\<lparr>wo_store := c\<rparr>)"
  by (auto simp: stored_def split: prod.splits)

lemma refuse_Inr [act_simps]: "refuse p w = (Inr x, w') \<longleftrightarrow> False"
  by (simp add: refuse_def)

lemma guard_Inr [act_simps]: "guard b p w = (Inr u, w') \<longleftrightarrow> b \<and> w' = w"
  by (auto simp: guard_def refuse_def)

lemma store_refusal_Inr [act_simps]: "store_refusal err w = (Inr x, w') \<longleftrightarrow> False"
  by (simp add: store_refusal_def refuse_Inr)

lemma oauth_error_Inr [act_simps]: "oauth_error s c w = (Inr x, w') \<longleftrightarrow> False"
  by (simp add: oauth_error_def no_store_def set_header_def andthen_Inr)

lemma need_field_Inr [act_simps]: "need_field rq k w = (Inr v, w') \<longleftrightarrow> rq_string rq k = Some v \<and> w' = w"
  by (auto simp: need_field_def refuse_Inr split: option.splits)

lemma record_event_Inr [act_simps]:
  "record_event ev w = (Inr u, w') \<longleftrightarrow> w' = w\<lparr>wo_events := wo_events w @ [ev]\<rparr>"
  by (auto simp: record_event_def)

lemma set_header_Inr [act_simps]:
  "set_header k v w = (Inr u, w') \<longleftrightarrow> w' = w\<lparr>wo_headers := wo_headers w @ [(k, v)]\<rparr>"
  by (auto simp: set_header_def)

lemma draw_Inr [act_simps]:
  "draw e n w = (Inr b, w') \<longleftrightarrow> b = en_rand e (wo_draws w) n \<and> w' = w\<lparr>wo_draws := Suc (wo_draws w)\<rparr>"
  by (auto simp: draw_def)

lemma random_token_Inr [act_simps]:
  "random_token e n w = (Inr b, w') \<longleftrightarrow>
     b = raw_url_encode (en_rand e (wo_draws w) n) \<and> w' = w\<lparr>wo_draws := Suc (wo_draws w)\<rparr>"
  by (auto simp: random_token_def draw_def)

lemma random_token_run [simp]:
  "random_token e n w = (Inr (raw_url_encode (en_rand e (wo_draws w) n)), w\<lparr>wo_draws := Suc (wo_draws w)\<rparr>)"
  by (simp add: random_token_def draw_def)

lemma record_event_run [simp]: "record_event ev w = (Inr (), w\<lparr>wo_events := wo_events w @ [ev]\<rparr>)"
  by (simp add: record_event_def)

section \<open>Proving a key, and the address the proof is for\<close>

definition first_forwarded_value :: "string \<Rightarrow> string" where
  "first_forwarded_value v = trim_space (takeWhile (\<lambda>c. c \<noteq> CHR '','') v)"

definition request_url :: "request \<Rightarrow> string" where
  "request_url rq =
     (let p = first_forwarded_value (rq_header rq ''X-Forwarded-Proto'');
          h = first_forwarded_value (rq_header rq ''X-Forwarded-Host'')
      in (if p \<noteq> [] then p else if rq_tls rq then ''https'' else ''http'') @ ''://''
         @ (if h \<noteq> [] then h else rq_host rq) @ rq_path rq)"

text \<open>The replay guard: a proof's id is recorded for a lifetime, once while it lives
  (\<open>src/session/replay.go\<close>).\<close>

definition check_and_set :: "'c env \<Rightarrow> string \<Rightarrow> duration \<Rightarrow> ('c, bool) handler" where
  "check_and_set e jti ttl w =
     (if \<not> en_replay_up e then (Inl (Refused Internal), w)
      else if \<exists>(j, till)\<in>set (wo_seen w). j = jti \<and> en_now e < till then (Inr False, w)
      else (Inr True, w\<lparr>wo_seen := wo_seen w @ [(jti, en_now e + ttl)]\<rparr>))"

definition challenge_nonce :: "'c env \<Rightarrow> ('c, 'a) handler" where
  "challenge_nonce e =
     andthen (\<lambda>w. (Inr (en_fresh_nonce e (wo_draws w)), w\<lparr>wo_draws := Suc (wo_draws w)\<rparr>)) (\<lambda>n.
     andthen (set_header ''DPoP-Nonce'' n) (\<lambda>_.
     andthen (set_header ''WWW-Authenticate'' ''DPoP error=\"use_dpop_nonce\"'') (\<lambda>_. refuse Unauthorized)))"

definition dpop_refusal :: "('c, 'a) handler" where
  "dpop_refusal =
     andthen (set_header ''WWW-Authenticate'' ''DPoP error=\"invalid_dpop_proof\"'') (\<lambda>_. refuse Unauthorized)"

definition verify_endpoint_dpop :: "'c env \<Rightarrow> request \<Rightarrow> string \<Rightarrow> ('c, string) handler" where
  "verify_endpoint_dpop e rq access_token =
     (let cf = en_config e in
      case en_dpop e (rq_header rq ''DPoP'') \<lparr>do_method = rq_method rq, do_url = request_url rq,
          do_access_token = access_token, do_max_age = cf_dpop_max_age cf, do_leeway = cf_leeway cf,
          do_require_nonce = cf_dpop_nonce cf\<rparr> of
        Inl err \<Rightarrow> if cf_dpop_nonce cf \<and> err = Missing_Nonce then challenge_nonce e else dpop_refusal
      | Inr res \<Rightarrow>
          if cf_dpop_nonce cf \<and> \<not> en_nonce_ok e (dr_nonce res) then challenge_nonce e
          else
            andthen (check_and_set e (dr_jti res) (cf_dpop_max_age cf + cf_leeway cf)) (\<lambda>fresh.
            if fresh then ret (dr_thumbprint res) else dpop_refusal))"

lemma challenge_nonce_Inr [act_simps]: "challenge_nonce e w = (Inr x, w') \<longleftrightarrow> False"
  by (simp add: challenge_nonce_def set_header_def andthen_Inr refuse_Inr)

lemma dpop_refusal_Inr [act_simps]: "dpop_refusal w = (Inr x, w') \<longleftrightarrow> False"
  by (simp add: dpop_refusal_def set_header_def andthen_Inr refuse_Inr)

end
