(* ===== verification/Memory_Store.thy ===== *)
theory Memory_Store
  imports Session_Spec "HOL-Library.AList"
begin

text \<open>
  The session store kept in a map, \<open>src/session/sessiontest/memory.go\<close>: every operation over its
  entries, and the proof that it keeps the promise of \<open>Session_Spec\<close>.

  An entry's JSON bytes are the value itself under the constructor of its type, and reading an
  entry as its type gives the value back; the key of a kind of entry begins with that kind's name.
\<close>

section \<open>Entries\<close>

datatype stored =
    Flow_V flow
  | Code_V app_code
  | Session_V session
  | Refresh_V refresh_grant
  | Shared_V shared
  | Apps_V "(string \<times> string) list"
  | Index_V "(string \<times> int) list"

record entry =
  e_value :: stored
  e_expires :: time

record memory =
  entries :: "(string \<times> entry) list"

definition new_memory :: memory where
  "new_memory = \<lparr>entries = []\<rparr>"

definition empty_code :: app_code where
  "empty_code = \<lparr>ac_session_id = [], ac_code_challenge = [], ac_code_challenge_method = [], ac_client_id = [],
     ac_redirect_uri = [], ac_tenant = [], ac_openid = False, ac_nonce = [], ac_assistant = [], ac_app_scopes = []\<rparr>"

definition empty_grant :: refresh_grant where
  "empty_grant = \<lparr>rg_session = [], rg_client = [], rg_rotated = False\<rparr>"

fun as_flow :: "stored \<Rightarrow> flow" where "as_flow (Flow_V f) = f" | "as_flow _ = empty_flow"
fun as_code :: "stored \<Rightarrow> app_code" where "as_code (Code_V c) = c" | "as_code _ = empty_code"
fun as_session :: "stored \<Rightarrow> session" where "as_session (Session_V s) = s" | "as_session _ = empty_session"
fun as_grant :: "stored \<Rightarrow> refresh_grant" where "as_grant (Refresh_V g) = g" | "as_grant _ = empty_grant"
fun as_shared :: "stored \<Rightarrow> shared" where "as_shared (Shared_V s) = s" | "as_shared _ = empty_shared"
fun as_apps :: "stored \<Rightarrow> (string \<times> string) list" where "as_apps (Apps_V a) = a" | "as_apps _ = []"
fun as_index :: "stored \<Rightarrow> (string \<times> int) list" where "as_index (Index_V i) = i" | "as_index _ = []"

definition live :: "time \<Rightarrow> entry \<Rightarrow> bool" where
  "live now e \<longleftrightarrow> e_expires e = 0 \<or> now < e_expires e"

definition lookup_live :: "time \<Rightarrow> string \<Rightarrow> memory \<Rightarrow> entry option" where
  "lookup_live now k m =
     (case map_of (entries m) k of Some e \<Rightarrow> if live now e then Some e else None | None \<Rightarrow> None)"

definition set_entry :: "string \<Rightarrow> entry \<Rightarrow> memory \<Rightarrow> memory" where
  "set_entry k e m = m\<lparr>entries := AList.update k e (entries m)\<rparr>"

definition del_entry :: "string \<Rightarrow> memory \<Rightarrow> memory" where
  "del_entry k m = m\<lparr>entries := AList.delete k (entries m)\<rparr>"

text \<open>\<open>Entries\<close> and \<open>Keys\<close>: the live keys with their values, and those with a prefix.\<close>

definition live_entries :: "time \<Rightarrow> memory \<Rightarrow> (string \<times> stored) list" where
  "live_entries now m = map (\<lambda>(k, e). (k, e_value e)) (filter (\<lambda>(k, e). live now e) (entries m))"

definition live_keys :: "time \<Rightarrow> string \<Rightarrow> memory \<Rightarrow> string list" where
  "live_keys now p m = filter (\<lambda>k. has_prefix k p) (map fst (live_entries now m))"

section \<open>Operations\<close>

definition mem_put :: "string \<Rightarrow> stored \<Rightarrow> duration \<Rightarrow> (memory, unit) store_op" where
  "mem_put k v ttl now m = (Inr (), set_entry k \<lparr>e_value = v, e_expires = (if 0 < ttl then now + ttl else 0)\<rparr> m)"

definition mem_get :: "string \<Rightarrow> bool \<Rightarrow> (memory, stored) store_op" where
  "mem_get k del now m =
     (case map_of (entries m) k of
        None \<Rightarrow> (Inl Not_Found, m)
      | Some e \<Rightarrow>
          if \<not> live now e then (Inl Not_Found, del_entry k m)
          else (Inr (e_value e), if del then del_entry k m else m))"

definition mem_read :: "(stored \<Rightarrow> 'a) \<Rightarrow> string \<Rightarrow> bool \<Rightarrow> (memory, 'a) store_op" where
  "mem_read as k del now m = (case mem_get k del now m of (r, m') \<Rightarrow> (map_sum id as r, m'))"

definition mem_save_flow :: "string \<Rightarrow> flow \<Rightarrow> duration \<Rightarrow> (memory, unit) store_op" where
  "mem_save_flow state f ttl = mem_put (''flow:'' @ state) (Flow_V f) ttl"

definition mem_consume_flow :: "string \<Rightarrow> (memory, flow) store_op" where
  "mem_consume_flow state = mem_read as_flow (''flow:'' @ state) True"

definition mem_save_app_code :: "string \<Rightarrow> app_code \<Rightarrow> duration \<Rightarrow> (memory, unit) store_op" where
  "mem_save_app_code code c ttl = mem_put (''code:'' @ code) (Code_V c) ttl"

definition mem_consume_app_code :: "string \<Rightarrow> (memory, app_code) store_op" where
  "mem_consume_app_code code = mem_read as_code (''code:'' @ code) True"

definition mem_create_session :: "string \<Rightarrow> session \<Rightarrow> duration \<Rightarrow> (memory, session) store_op" where
  "mem_create_session sid s lifetime now m =
     (if lookup_live now (''sess:'' @ sid) m \<noteq> None then (Inl Already_Exists, m)
      else let s' = s\<lparr>s_expires_at := now + lifetime\<rparr> in
        (Inr s', set_entry (''sess:'' @ sid) \<lparr>e_value = Session_V s', e_expires = s_expires_at s'\<rparr> m))"

definition mem_replace_session :: "string \<Rightarrow> session \<Rightarrow> (memory, unit) store_op" where
  "mem_replace_session sid s now m =
     (if lookup_live now (''sess:'' @ sid) m = None \<or> session_expired s now then (Inl Not_Found, m)
      else (Inr (), set_entry (''sess:'' @ sid) \<lparr>e_value = Session_V s, e_expires = s_expires_at s\<rparr> m))"

definition mem_load_session :: "string \<Rightarrow> (memory, session) store_op" where
  "mem_load_session sid now m =
     (case mem_read as_session (''sess:'' @ sid) False now m of
        (Inl e, m') \<Rightarrow> (Inl e, m')
      | (Inr s, m') \<Rightarrow> (if session_expired s now then Inl Not_Found else Inr s, m'))"

definition mem_delete_session :: "string \<Rightarrow> (memory, unit) store_op" where
  "mem_delete_session sid now m = (Inr (), del_entry (''sess:'' @ sid) m)"

definition mem_save_refresh :: "string \<Rightarrow> refresh_grant \<Rightarrow> time \<Rightarrow> (memory, unit) store_op" where
  "mem_save_refresh key g till now m =
     (let ttl = time_sub till now in
      if ttl \<le> 0 then (Inl Not_Found, m) else mem_put (''refresh:'' @ key) (Refresh_V g) ttl now m)"

definition mem_load_refresh :: "string \<Rightarrow> (memory, refresh_grant) store_op" where
  "mem_load_refresh key = mem_read as_grant (''refresh:'' @ key) False"

definition mem_take_refresh :: "string \<Rightarrow> (memory, refresh_grant) store_op" where
  "mem_take_refresh key = mem_read as_grant (''refresh:'' @ key) True"

definition mem_delete_refresh :: "string \<Rightarrow> (memory, unit) store_op" where
  "mem_delete_refresh key now m = (Inr (), del_entry (''refresh:'' @ key) m)"

definition mem_create_shared :: "string \<Rightarrow> shared \<Rightarrow> (memory, unit) store_op" where
  "mem_create_shared i sh now m =
     (if shared_expired sh now then (Inl Not_Found, m)
      else if lookup_live now (''shared:'' @ i) m \<noteq> None then (Inl Already_Exists, m)
      else (Inr (), set_entry (''shared:'' @ i) \<lparr>e_value = Shared_V sh, e_expires = sh_expires_at sh\<rparr> m))"

definition mem_replace_shared :: "string \<Rightarrow> shared \<Rightarrow> (memory, unit) store_op" where
  "mem_replace_shared i sh now m =
     (if lookup_live now (''shared:'' @ i) m = None \<or> shared_expired sh now then (Inl Not_Found, m)
      else (Inr (), set_entry (''shared:'' @ i) \<lparr>e_value = Shared_V sh, e_expires = sh_expires_at sh\<rparr> m))"

definition mem_load_shared :: "string \<Rightarrow> (memory, shared) store_op" where
  "mem_load_shared i now m =
     (case mem_read as_shared (''shared:'' @ i) False now m of
        (Inl e, m') \<Rightarrow> (Inl e, m')
      | (Inr s, m') \<Rightarrow> (if shared_expired s now then Inl Not_Found else Inr s, m'))"

text \<open>The app sessions kept under a shared session; none when there is no live entry.\<close>

definition live_apps :: "time \<Rightarrow> string \<Rightarrow> memory \<Rightarrow> (string \<times> string) list" where
  "live_apps now i m =
     (case lookup_live now (''shared-apps:'' @ i) m of Some e \<Rightarrow> as_apps (e_value e) | None \<Rightarrow> [])"

definition mem_put_shared_app :: "string \<Rightarrow> string \<Rightarrow> string \<Rightarrow> time \<Rightarrow> (memory, string) store_op" where
  "mem_put_shared_app i client sid till now m =
     (if \<not> now < till then (Inl Not_Found, m)
      else
        let apps = live_apps now i m in
        (Inr (case map_of apps client of Some old \<Rightarrow> old | None \<Rightarrow> []),
         set_entry (''shared-apps:'' @ i) \<lparr>e_value = Apps_V (AList.update client sid apps), e_expires = till\<rparr> m))"

definition mem_shared_apps :: "string \<Rightarrow> (memory, (string \<times> string) list) store_op" where
  "mem_shared_apps i now m =
     (case mem_read as_apps (''shared-apps:'' @ i) False now m of
        (Inl e, m') \<Rightarrow> (if e = Not_Found then Inr [] else Inl e, m')
      | (Inr a, m') \<Rightarrow> (Inr a, m'))"

definition mem_end_shared :: "string \<Rightarrow> (memory, (string \<times> string) list) store_op" where
  "mem_end_shared i now m =
     (if lookup_live now (''shared:'' @ i) m = None then (Inl Not_Found, del_entry (''shared:'' @ i) m)
      else
        let m' = del_entry (''shared:'' @ i) m in
        (Inr (AList.clearjunk (live_apps now i m')), del_entry (''shared-apps:'' @ i) m'))"

definition mem_index :: "string \<Rightarrow> string \<Rightarrow> time \<Rightarrow> memory \<Rightarrow> string \<times> (string \<times> int) list" where
  "mem_index tenant assistant now m =
     (let k = ''conn:'' @ tenant @ ''/'' @ assistant in
      (k, case lookup_live now k m of Some e \<Rightarrow> as_index (e_value e) | None \<Rightarrow> []))"

definition mem_add_connection :: "string \<Rightarrow> string \<Rightarrow> connection \<Rightarrow> time \<Rightarrow> (memory, unit) store_op" where
  "mem_add_connection tenant assistant c till now m =
     (if \<not> now < till then (Inl Not_Found, m)
      else
        (case mem_index tenant assistant now m of (k, ix) \<Rightarrow>
           let e = \<lparr>e_value = Index_V (AList.update (con_id c @ '' '' @ con_session c) (unix_milli till) ix), e_expires = till\<rparr>;
               e' = (case lookup_live now k m of
                       Some old \<Rightarrow> if till < e_expires old then e\<lparr>e_expires := e_expires old\<rparr> else e
                     | None \<Rightarrow> e)
           in (Inr (), set_entry k e' m)))"

definition index_connections :: "time \<Rightarrow> (string \<times> int) list \<Rightarrow> connection list" where
  "index_connections now ix =
     List.map_filter (\<lambda>(k, ends).
       if ends \<le> unix_milli now then None
       else (case cut (CHR '' '') k of (i, sid, ok) \<Rightarrow> if ok then Some \<lparr>con_id = i, con_session = sid\<rparr> else None)) ix"

definition mem_connections :: "string \<Rightarrow> string \<Rightarrow> (memory, connection list) store_op" where
  "mem_connections tenant assistant now m =
     (case mem_index tenant assistant now m of (k, ix) \<Rightarrow> (Inr (index_connections now ix), m))"

definition mem_remove_connection :: "string \<Rightarrow> string \<Rightarrow> connection \<Rightarrow> (memory, unit) store_op" where
  "mem_remove_connection tenant assistant c now m =
     (case mem_index tenant assistant now m of (k, ix) \<Rightarrow>
        let mem = con_id c @ '' '' @ con_session c in
        if map_of ix mem = None then (Inr (), m)
        else
          (Inr (), set_entry k \<lparr>e_value = Index_V (AList.delete mem ix),
              e_expires = (case map_of (entries m) k of Some e \<Rightarrow> e_expires e | None \<Rightarrow> 0)\<rparr> m))"

definition memory_ops :: "memory store_ops" where
  "memory_ops = \<lparr>
     op_save_flow = mem_save_flow, op_consume_flow = mem_consume_flow,
     op_save_app_code = mem_save_app_code, op_consume_app_code = mem_consume_app_code,
     op_create_session = mem_create_session, op_replace_session = mem_replace_session,
     op_load_session = mem_load_session, op_delete_session = mem_delete_session,
     op_save_refresh = mem_save_refresh, op_load_refresh = mem_load_refresh,
     op_take_refresh = mem_take_refresh, op_delete_refresh = mem_delete_refresh,
     op_create_shared = mem_create_shared, op_replace_shared = mem_replace_shared,
     op_load_shared = mem_load_shared, op_put_shared_app = mem_put_shared_app,
     op_end_shared = mem_end_shared, op_add_connection = mem_add_connection,
     op_connections = mem_connections, op_remove_connection = mem_remove_connection\<rparr>"


section \<open>The promise kept\<close>

definition index_at :: "time \<Rightarrow> string \<Rightarrow> memory \<Rightarrow> (string \<times> int) list" where
  "index_at now k m = (case lookup_live now k m of Some e \<Rightarrow> as_index (e_value e) | None \<Rightarrow> [])"

definition memory_view :: "time \<Rightarrow> memory \<Rightarrow> view" where
  "memory_view now m =
     \<lparr>v_flows = (\<lambda>k. map_option (as_flow \<circ> e_value) (lookup_live now (''flow:'' @ k) m)),
      v_codes = (\<lambda>k. map_option (as_code \<circ> e_value) (lookup_live now (''code:'' @ k) m)),
      v_sessions = (\<lambda>k. map_option (as_session \<circ> e_value) (lookup_live now (''sess:'' @ k) m)),
      v_refresh = (\<lambda>k. map_option (as_grant \<circ> e_value) (lookup_live now (''refresh:'' @ k) m)),
      v_shared = (\<lambda>k. map_option (as_shared \<circ> e_value) (lookup_live now (''shared:'' @ k) m)),
      v_apps = (\<lambda>i. map_of (live_apps now i m)),
      v_conns = (\<lambda>k. set (index_connections now (index_at now (''conn:'' @ k) m)))\<rparr>"

lemma lookup_live_set [simp]:
  "lookup_live now k (set_entry k' e m) =
     (if k = k' then (if live now e then Some e else None) else lookup_live now k m)"
  by (simp add: lookup_live_def set_entry_def update_conv')

lemma lookup_live_del [simp]:
  "lookup_live now k (del_entry k' m) = (if k = k' then None else lookup_live now k m)"
  by (simp add: lookup_live_def del_entry_def delete_conv')

lemma live_apps_set [simp]:
  "live_apps now i (set_entry k' e m) =
     (if k' = ''shared-apps:'' @ i then (if live now e then as_apps (e_value e) else []) else live_apps now i m)"
  "live_apps now i (del_entry k' m) = (if k' = ''shared-apps:'' @ i then [] else live_apps now i m)"
  by (simp_all add: live_apps_def)

lemma index_at_set [simp]:
  "index_at now k (set_entry k' e m) =
     (if k = k' then (if live now e then as_index (e_value e) else []) else index_at now k m)"
  "index_at now k (del_entry k' m) = (if k = k' then [] else index_at now k m)"
  by (simp_all add: index_at_def)

lemma index_connections_Nil [simp]: "index_connections now [] = []"
  by (simp add: index_connections_def)

lemma live_future [simp]: "now < t \<Longrightarrow> live now \<lparr>e_value = v, e_expires = t\<rparr>"
  by (simp add: live_def)

text \<open>Removing an entry that is not live changes nothing that is.\<close>

lemma del_dead: "lookup_live now k m = None \<Longrightarrow> memory_view now (del_entry k m) = memory_view now m"
  by (auto simp: memory_view_def fun_eq_iff live_apps_def index_at_def)

lemma mem_get_cases:
  "mem_get k del now m =
     (case lookup_live now k m of
        None \<Rightarrow> (Inl Not_Found, if map_of (entries m) k = None then m else del_entry k m)
      | Some e \<Rightarrow> (Inr (e_value e), if del then del_entry k m else m))"
  by (simp add: mem_get_def lookup_live_def split: option.splits)

lemma lookup_live_later:
  "now \<le> now' \<Longrightarrow> lookup_live now' k m = Some e \<Longrightarrow> lookup_live now k m = Some e"
  by (auto simp: lookup_live_def live_def split: option.splits if_splits)

lemma index_connections_Cons:
  "index_connections now ((k, ends) # ix) =
     (if ends \<le> unix_milli now then []
      else (case cut (CHR '' '') k of (i, sid, ok) \<Rightarrow> if ok then [\<lparr>con_id = i, con_session = sid\<rparr>] else []))
     @ index_connections now ix"
  by (simp add: index_connections_def List.map_filter_def split: prod.splits)

lemma index_connections_iff:
  "c \<in> set (index_connections now ix) \<longleftrightarrow>
     (\<exists>ends. (con_id c @ '' '' @ con_session c, ends) \<in> set ix \<and> unix_milli now < ends \<and> CHR '' '' \<notin> set (con_id c))"
proof (induction ix)
  case (Cons p ix)
  obtain k ends where p: "p = (k, ends)" by fastforce
  obtain i sid ok where ct: "cut (CHR '' '') k = (i, sid, ok)" by (metis prod_cases3)
  have "ok \<and> c = \<lparr>con_id = i, con_session = sid\<rparr> \<longleftrightarrow> k = con_id c @ '' '' @ con_session c \<and> CHR '' '' \<notin> set (con_id c)"
  proof (cases ok)
    case True
    with ct have "k = i @ CHR '' '' # sid" "CHR '' '' \<notin> set i" by (simp_all add: cut_found)
    with True ct show ?thesis by (cases c) (auto simp flip: cut_found)
  next
    case False
    with ct have "CHR '' '' \<notin> set k" by (simp add: cut_not_found)
    with False show ?thesis by auto
  qed
  then show ?case by (auto simp: p ct index_connections_Cons Cons.IH)
qed simp

lemma view_later: "now \<le> now' \<Longrightarrow> view_le (memory_view now' m) (memory_view now m)"
proof -
  assume le: "now \<le> now'"
  have look: "lookup_live now k m = Some e" if "lookup_live now' k m = Some e" for k e
    using lookup_live_later[OF le that] .
  have "map_of (live_apps now' i m) \<subseteq>\<^sub>m map_of (live_apps now i m)" for i
    using look by (auto simp: live_apps_def map_le_def split: option.splits)
  moreover have "set (index_connections now' (index_at now' k m)) \<subseteq> set (index_connections now (index_at now k m))" for k
  proof
    fix c assume c: "c \<in> set (index_connections now' (index_at now' k m))"
    then have "index_at now' k m \<noteq> []" by (cases "index_at now' k m") auto
    then have "index_at now k m = index_at now' k m"
      using look by (auto simp: index_at_def split: option.splits)
    with c unix_milli_mono[OF le] show "c \<in> set (index_connections now (index_at now k m))"
      unfolding index_connections_iff by (metis order_le_less_trans)
  qed
  ultimately show ?thesis
    using look by (auto simp: view_le_def memory_view_def map_le_def dom_def)
qed

subsection \<open>What is live after a write\<close>

text \<open>A live entry under the key of a kind is what the view holds of that kind.\<close>

lemma view_put:
  "live now e \<Longrightarrow> memory_view now (set_entry (''flow:'' @ k) e m) =
     (memory_view now m)\<lparr>v_flows := (v_flows (memory_view now m))(k \<mapsto> as_flow (e_value e))\<rparr>"
  "live now e \<Longrightarrow> memory_view now (set_entry (''code:'' @ k) e m) =
     (memory_view now m)\<lparr>v_codes := (v_codes (memory_view now m))(k \<mapsto> as_code (e_value e))\<rparr>"
  "live now e \<Longrightarrow> memory_view now (set_entry (''sess:'' @ k) e m) =
     (memory_view now m)\<lparr>v_sessions := (v_sessions (memory_view now m))(k \<mapsto> as_session (e_value e))\<rparr>"
  "live now e \<Longrightarrow> memory_view now (set_entry (''refresh:'' @ k) e m) =
     (memory_view now m)\<lparr>v_refresh := (v_refresh (memory_view now m))(k \<mapsto> as_grant (e_value e))\<rparr>"
  "live now e \<Longrightarrow> memory_view now (set_entry (''shared:'' @ k) e m) =
     (memory_view now m)\<lparr>v_shared := (v_shared (memory_view now m))(k \<mapsto> as_shared (e_value e))\<rparr>"
  "live now e \<Longrightarrow> memory_view now (set_entry (''shared-apps:'' @ k) e m) =
     (memory_view now m)\<lparr>v_apps := (v_apps (memory_view now m))(k := map_of (as_apps (e_value e)))\<rparr>"
  "live now e \<Longrightarrow> memory_view now (set_entry (''conn:'' @ k) e m) =
     (memory_view now m)\<lparr>v_conns := (v_conns (memory_view now m))(k := set (index_connections now (as_index (e_value e))))\<rparr>"
  by (auto simp: memory_view_def fun_eq_iff)

lemma view_del:
  "memory_view now (del_entry (''flow:'' @ k) m) =
     (memory_view now m)\<lparr>v_flows := (v_flows (memory_view now m))(k := None)\<rparr>"
  "memory_view now (del_entry (''code:'' @ k) m) =
     (memory_view now m)\<lparr>v_codes := (v_codes (memory_view now m))(k := None)\<rparr>"
  "memory_view now (del_entry (''sess:'' @ k) m) =
     (memory_view now m)\<lparr>v_sessions := (v_sessions (memory_view now m))(k := None)\<rparr>"
  "memory_view now (del_entry (''refresh:'' @ k) m) =
     (memory_view now m)\<lparr>v_refresh := (v_refresh (memory_view now m))(k := None)\<rparr>"
  "memory_view now (del_entry (''shared:'' @ k) m) =
     (memory_view now m)\<lparr>v_shared := (v_shared (memory_view now m))(k := None)\<rparr>"
  "memory_view now (del_entry (''shared-apps:'' @ k) m) =
     (memory_view now m)\<lparr>v_apps := (v_apps (memory_view now m))(k := Map.empty)\<rparr>"
  by (auto simp: memory_view_def fun_eq_iff)

lemma view_at:
  "v_flows (memory_view now m) k = map_option (as_flow \<circ> e_value) (lookup_live now (''flow:'' @ k) m)"
  "v_codes (memory_view now m) k = map_option (as_code \<circ> e_value) (lookup_live now (''code:'' @ k) m)"
  "v_sessions (memory_view now m) k = map_option (as_session \<circ> e_value) (lookup_live now (''sess:'' @ k) m)"
  "v_refresh (memory_view now m) k = map_option (as_grant \<circ> e_value) (lookup_live now (''refresh:'' @ k) m)"
  "v_shared (memory_view now m) k = map_option (as_shared \<circ> e_value) (lookup_live now (''shared:'' @ k) m)"
  "v_apps (memory_view now m) k = map_of (live_apps now k m)"
  "v_conns (memory_view now m) k = set (index_connections now (index_at now (''conn:'' @ k) m))"
  by (simp_all add: memory_view_def)

lemmas views = view_put view_put[unfolded append.simps] view_del view_del[unfolded append.simps]
  view_at view_at[unfolded append.simps]

lemma mem_read_cases:
  "mem_read as k del now m =
     (case lookup_live now k m of
        None \<Rightarrow> (Inl Not_Found, if map_of (entries m) k = None then m else del_entry k m)
      | Some e \<Rightarrow> (Inr (as (e_value e)), if del then del_entry k m else m))"
  by (simp add: mem_read_def mem_get_cases split: option.splits)

lemma mem_put_refines:
  assumes "0 \<le> now" "0 < ttl" "\<And>e m. live now e \<Longrightarrow> e_value e = v \<Longrightarrow> memory_view now (set_entry k e m) = f (memory_view now m)"
  shows "refines (memory_view now) (mem_put k v ttl now) (spec_put f)"
  using assms by (auto intro!: refinesI simp: mem_put_def spec_defs)

lemma mem_take_refines:
  assumes "\<And>m. g (memory_view now m) = map_option (as \<circ> e_value) (lookup_live now k m)"
    and "\<And>m. memory_view now (del_entry k m) = d (memory_view now m)"
  shows "refines (memory_view now) (mem_read as k True now) (spec_take g d)"
proof (rule refinesI)
  fix m r m' assume "mem_read as k True now m = (r, m')"
  with assms del_dead[of now k m] show "spec_take g d (memory_view now m) r (memory_view now m')"
    by (auto simp: mem_read_cases spec_defs split: option.splits if_splits)
qed

lemma mem_read_refines:
  assumes "\<And>m. g (memory_view now m) = map_option (as \<circ> e_value) (lookup_live now k m)"
  shows "refines (memory_view now) (mem_read as k False now) (spec_get g)"
proof (rule refinesI)
  fix m r m' assume "mem_read as k False now m = (r, m')"
  with assms del_dead[of now k m] show "spec_get g (memory_view now m) r (memory_view now m')"
    by (auto simp: mem_read_cases spec_defs split: option.splits if_splits)
qed

lemma mem_create_session_refines:
  "0 \<le> now \<Longrightarrow> 0 < lifetime \<Longrightarrow>
     refines (memory_view now) (mem_create_session sid s lifetime now) (spec_create_session sid s lifetime now)"
  by (auto intro!: refinesI simp: mem_create_session_def spec_defs Let_def views split: if_splits)

lemma mem_replace_session_refines:
  "refines (memory_view now) (mem_replace_session sid s now) (spec_replace_session sid s now)"
  by (auto intro!: refinesI simp: mem_replace_session_def spec_defs session_expired_def views
      split: if_splits)

lemma mem_load_session_refines:
  "refines (memory_view now) (mem_load_session sid now) (spec_get (\<lambda>v. live_session v now sid))"
proof (rule refinesI)
  fix m r m' assume "mem_load_session sid now m = (r, m')"
  with del_dead[of now "''sess:'' @ sid" m]
  show "spec_get (\<lambda>v. live_session v now sid) (memory_view now m) r (memory_view now m')"
    by (auto simp: mem_load_session_def mem_read_cases spec_defs live_session_def views
        split: option.splits if_splits)
qed

lemma mem_load_shared_refines:
  "refines (memory_view now) (mem_load_shared i now) (spec_get (\<lambda>v. live_shared v now i))"
proof (rule refinesI)
  fix m r m' assume "mem_load_shared i now m = (r, m')"
  with del_dead[of now "''shared:'' @ i" m]
  show "spec_get (\<lambda>v. live_shared v now i) (memory_view now m) r (memory_view now m')"
    by (auto simp: mem_load_shared_def mem_read_cases spec_defs live_shared_def views
        split: option.splits if_splits)
qed

lemma mem_save_refresh_refines:
  "0 \<le> now \<Longrightarrow> refines (memory_view now) (mem_save_refresh key g till now)
     (spec_put_until (till \<le> now) (\<lambda>v. v\<lparr>v_refresh := (v_refresh v)(key \<mapsto> g)\<rparr>))"
  by (rule refinesI)
    (auto simp: mem_save_refresh_def Let_def mem_put_def spec_defs views split: if_splits;
     simp add: time_sub_def live_def)

lemma mem_create_shared_refines:
  "refines (memory_view now) (mem_create_shared i s now) (spec_create_shared i s now)"
  by (auto intro!: refinesI simp: mem_create_shared_def spec_defs shared_expired_def views
      split: if_splits)

lemma mem_replace_shared_refines:
  "refines (memory_view now) (mem_replace_shared i s now) (spec_replace_shared i s now)"
  by (auto intro!: refinesI simp: mem_replace_shared_def spec_defs shared_expired_def views
      split: if_splits)

lemma mem_put_shared_app_refines:
  "refines (memory_view now) (mem_put_shared_app i client sid till now) (spec_put_shared_app i client sid till now)"
proof (rule refinesI)
  fix m r m' assume "mem_put_shared_app i client sid till now m = (r, m')"
  then show "spec_put_shared_app i client sid till now (memory_view now m) r (memory_view now m')"
    unfolding spec_put_shared_app_def
    by (auto intro!: exI[of _ "(v_apps (memory_view now m) i)(client \<mapsto> sid)"]
        simp: mem_put_shared_app_def Let_def views update_conv' split: if_splits)
qed

lemma mem_end_shared_refines:
  "refines (memory_view now) (mem_end_shared i now) (spec_end_shared i)"
proof (rule refinesI)
  fix m r m' assume "mem_end_shared i now m = (r, m')"
  with del_dead[of now "''shared:'' @ i" m]
  show "spec_end_shared i (memory_view now m) r (memory_view now m')"
    by (auto simp: mem_end_shared_def Let_def spec_defs views map_of_clearjunk split: if_splits)
qed

subsection \<open>Connections\<close>

lemma update_other: "k' \<noteq> k \<Longrightarrow> (k', e) \<in> set (AList.update k v al) \<longleftrightarrow> (k', e) \<in> set al"
  by (induction al) auto

lemma update_same: "(k, v) \<in> set (AList.update k v al)"
  by (induction al) auto

lemma member_inj:
  "CHR '' '' \<notin> set a \<Longrightarrow> CHR '' '' \<notin> set b \<Longrightarrow> a @ '' '' @ x = b @ '' '' @ y \<longleftrightarrow> a = b \<and> x = y"
  by (metis append_Cons append_Nil cut_append prod.inject)

lemma index_update_others:
  assumes "CHR '' '' \<notin> set (con_id c)"
  shows "set (index_connections now (AList.update (con_id c @ '' '' @ con_session c) e ix)) - {c} =
     set (index_connections now ix) - {c}"
proof (rule set_eqI)
  fix d
  show "d \<in> set (index_connections now (AList.update (con_id c @ '' '' @ con_session c) e ix)) - {c} \<longleftrightarrow>
      d \<in> set (index_connections now ix) - {c}"
  proof (cases "d \<noteq> c \<and> CHR '' '' \<notin> set (con_id d)")
    case True
    then have "con_id d @ '' '' @ con_session d \<noteq> con_id c @ '' '' @ con_session c"
      using assms member_inj[of "con_id d" "con_id c"] by (cases c; cases d) auto
    then show ?thesis by (simp add: index_connections_iff update_other)
  qed (auto simp: index_connections_iff)
qed

lemma index_delete:
  assumes "CHR '' '' \<notin> set (con_id c)"
  shows "set (index_connections now (AList.delete (con_id c @ '' '' @ con_session c) ix)) =
     set (index_connections now ix) - {c}"
proof (rule set_eqI)
  fix d
  have "CHR '' '' \<notin> set (con_id d) \<Longrightarrow>
      con_id d @ '' '' @ con_session d = con_id c @ '' '' @ con_session c \<longleftrightarrow> d = c"
    using assms member_inj[of "con_id d" "con_id c"] by (cases c; cases d) auto
  then show "d \<in> set (index_connections now (AList.delete (con_id c @ '' '' @ con_session c) ix)) \<longleftrightarrow>
      d \<in> set (index_connections now ix) - {c}"
    by (auto simp: index_connections_iff AList.delete_eq)
qed

lemma mem_index_at: "mem_index t a now m = (''conn:'' @ conn_key t a, index_at now (''conn:'' @ conn_key t a) m)"
  by (simp add: mem_index_def index_at_def conn_key_def Let_def)

lemma mem_add_connection_refines:
  "refines (memory_view now) (mem_add_connection t a c till now) (spec_add_connection t a c till now)"
proof (rule refinesI)
  fix m r m' assume run: "mem_add_connection t a c till now m = (r, m')"
  show "spec_add_connection t a c till now (memory_view now m) r (memory_view now m')"
  proof (cases "till \<le> now")
    case False
    let ?k = "conn_key t a" and ?key = "con_id c @ '' '' @ con_session c"
    let ?ix = "AList.update ?key (unix_milli till) (index_at now (''conn:'' @ ?k) m)"
    let ?S = "set (index_connections now ?ix)"
    obtain e where e: "m' = set_entry (''conn:'' @ ?k) e m" "r = Inr ()" "e_value e = Index_V ?ix" "live now e"
      using run False by (auto simp: mem_add_connection_def mem_index_at Let_def live_def split: option.splits if_splits)
    have "?S - {c} = v_conns (memory_view now m) ?k - {c}" if sp: "CHR '' '' \<notin> set (con_id c)"
      using index_update_others[OF sp] by (simp add: view_at)
    moreover have "c \<in> ?S" if sp: "CHR '' '' \<notin> set (con_id c)" and apart: "now + millisecond \<le> till"
      using sp unix_milli_apart[OF apart] update_same unfolding index_connections_iff
      by (intro exI[of _ "unix_milli till"]) auto
    ultimately have "?S \<subseteq> insert c (v_conns (memory_view now m) ?k) \<and> (now + millisecond \<le> till \<longrightarrow> ?S = insert c (v_conns (memory_view now m) ?k))"
        if "CHR '' '' \<notin> set (con_id c)" using that by blast
    moreover have "memory_view now m' = (memory_view now m)\<lparr>v_conns := (v_conns (memory_view now m))(?k := ?S)\<rparr>"
      using e by (simp only: view_put as_index.simps)
    ultimately show ?thesis using False e(2) unfolding spec_add_connection_def by (simp only: if_False) (intro conjI exI[of _ ?S] impI; blast)
  qed (use run in \<open>auto simp: mem_add_connection_def spec_add_connection_def\<close>)
qed

lemma mem_connections_refines:
  "refines (memory_view now) (mem_connections t a now) (spec_connections t a)"
  by (auto intro!: refinesI simp: mem_connections_def mem_index_at spec_connections_def view_at)

lemma mem_remove_connection_refines:
  "refines (memory_view now) (mem_remove_connection t a c now) (spec_remove_connection t a c)"
proof (rule refinesI)
  fix m r m' assume run: "mem_remove_connection t a c now m = (r, m')"
  let ?k = "conn_key t a" and ?key = "con_id c @ '' '' @ con_session c"
  let ?ix = "index_at now (''conn:'' @ ?k) m"
  show "spec_remove_connection t a c (memory_view now m) r (memory_view now m')"
  proof (cases "map_of ?ix ?key")
    case None
    then have "c \<notin> v_conns (memory_view now m) ?k"
      by (auto simp: view_at index_connections_iff map_of_eq_None_iff image_iff)
    then show ?thesis
      using None run unfolding spec_remove_connection_def
      by (auto simp: mem_remove_connection_def mem_index_at Let_def intro!: exI[of _ "v_conns (memory_view now m) ?k"])
  next
    case (Some x)
    then obtain old where old: "lookup_live now (''conn:'' @ ?k) m = Some old"
      by (cases "lookup_live now (''conn:'' @ ?k) m") (simp_all add: index_at_def)
    then have ml: "map_of (entries m) (''conn:'' @ ?k) = Some old" "live now old"
      by (auto simp: lookup_live_def split: option.splits if_splits)
    let ?e = "\<lparr>e_value = Index_V (AList.delete ?key ?ix), e_expires = e_expires old\<rparr>"
    have m': "m' = set_entry (''conn:'' @ ?k) ?e m" "r = Inr ()"
      using run Some ml by (simp_all add: mem_remove_connection_def mem_index_at Let_def)
    have "live now ?e" using ml(2) by (simp add: live_def)
    moreover have "CHR '' '' \<notin> set (con_id c) \<longrightarrow>
        set (index_connections now (AList.delete ?key ?ix)) = v_conns (memory_view now m) ?k - {c}"
      using index_delete[of c now ?ix] by (auto simp only: view_at)
    ultimately show ?thesis
      unfolding m' spec_remove_connection_def
      by (intro conjI exI[of _ "set (index_connections now (AList.delete ?key ?ix))"] refl)
        (simp_all only: view_put as_index.simps entry.select_convs)
  qed
qed

lemma mem_delete_refines:
  "refines (memory_view now) (mem_delete_session sid now)
     (spec_put (\<lambda>v. v\<lparr>v_sessions := (v_sessions v)(sid := None)\<rparr>))"
  "refines (memory_view now) (mem_delete_refresh k now)
     (spec_put (\<lambda>v. v\<lparr>v_refresh := (v_refresh v)(k := None)\<rparr>))"
  by (auto intro!: refinesI simp: mem_delete_session_def mem_delete_refresh_def spec_defs views)

lemma mem_single_refines:
  "0 \<le> now \<Longrightarrow> 0 < ttl \<Longrightarrow> refines (memory_view now) (mem_save_flow k f ttl now)
     (spec_put (\<lambda>v. v\<lparr>v_flows := (v_flows v)(k \<mapsto> f)\<rparr>))"
  "0 \<le> now \<Longrightarrow> 0 < ttl \<Longrightarrow> refines (memory_view now) (mem_save_app_code k g ttl now)
     (spec_put (\<lambda>v. v\<lparr>v_codes := (v_codes v)(k \<mapsto> g)\<rparr>))"
  "refines (memory_view now) (mem_consume_flow k now)
     (spec_take (\<lambda>v. v_flows v k) (\<lambda>v. v\<lparr>v_flows := (v_flows v)(k := None)\<rparr>))"
  "refines (memory_view now) (mem_consume_app_code k now)
     (spec_take (\<lambda>v. v_codes v k) (\<lambda>v. v\<lparr>v_codes := (v_codes v)(k := None)\<rparr>))"
  "refines (memory_view now) (mem_take_refresh k now)
     (spec_take (\<lambda>v. v_refresh v k) (\<lambda>v. v\<lparr>v_refresh := (v_refresh v)(k := None)\<rparr>))"
  "refines (memory_view now) (mem_load_refresh k now) (spec_get (\<lambda>v. v_refresh v k))"
  unfolding mem_save_flow_def mem_save_app_code_def mem_consume_flow_def mem_consume_app_code_def
    mem_take_refresh_def mem_load_refresh_def
  by (rule mem_put_refines mem_take_refines mem_read_refines; simp add: views)+

lemmas mem_refines = mem_single_refines mem_create_session_refines mem_replace_session_refines
  mem_load_session_refines mem_load_shared_refines mem_save_refresh_refines mem_create_shared_refines
  mem_replace_shared_refines mem_put_shared_app_refines mem_end_shared_refines mem_add_connection_refines
  mem_connections_refines mem_remove_connection_refines mem_delete_refines

text \<open>The in-memory store is a session store.\<close>

interpretation mem: session_store memory_ops memory_view
  by unfold_locales (simp_all add: memory_ops_def view_later mem_refines)

end
