(* ===== verification/Example_World.thy ===== *)
theory Example_World
  imports Http Memory_Store
begin

text \<open>
  A small deployment to run the handlers on: the example registry, the in-memory store, a register
  that knows one person and one service account, a signer whose tokens are their type and subject,
  and fixed random draws. The examples after the properties evaluate the handlers here.
\<close>

definition run_crypto :: "(string \<times> jose_header \<times> claim_set) list \<Rightarrow> crypto" where
  "run_crypto known =
     \<lparr>cr_parse_pem = Some, cr_public = (\<lambda>k. k), cr_thumbprint = Some,
      cr_sign = (\<lambda>k h c. Some (jh_typ h @ '':'' @ cl_subject c)),
      cr_open = map_of known, cr_verify = (\<lambda>k t. True), cr_sha256 = (\<lambda>s. s)\<rparr>"

definition plain_body :: door_body where
  "plain_body = \<lparr>db_subject_key = [], db_memberships = [], db_assistants = [], db_outcome = []\<rparr>"

text \<open>The register: what it answers about \<open>key\<close> at each door, always the same.\<close>

definition example_register :: "string \<Rightarrow> membership list \<Rightarrow> assistant list \<Rightarrow> rolebyte" where
  "example_register key ms own =
     \<lparr>rb_base = ''https://register.test'', rb_audience = ''register'', rb_actor = ''svc:authbyte'', rb_thumbprint = ''K'',
      rb_http = (\<lambda>k c. Some \<lparr>da_status = 200,
        da_body = Some \<lparr>db_subject_key = key, db_memberships = ms, db_assistants = own, db_outcome = ''unknown''\<rparr>\<rparr>)\<rparr>"

definition staff :: "membership list" where
  "staff = [\<lparr>m_tenant = ''t1'', m_scopes = [''staff:lead'', ''orders/list:read'']\<rparr>]"

definition staff_register :: rolebyte where
  "staff_register = example_register ''sub:p1'' staff []"

definition example_config :: config where
  "example_config = \<lparr>cf_session_ttl = 28800 * second, cf_app_token_ttl = 300 * second, cf_dpop_max_age = 60 * second,
     cf_leeway = 5 * second, cf_dpop_nonce = False, cf_development = False,
     cf_base_url = ''https://auth.test'', cf_issuer_url = ''https://auth.test''\<rparr>"

definition example_people :: people where
  "example_people = \<lparr>pe_ensure = (\<lambda>n idp p. Inr (''p1'', False)), pe_register = (\<lambda>n code a b c. Inr (''p2'', True)),
     pe_get = (\<lambda>n s. Inr \<lparr>mp_internal_sub = s, mp_idp_sub = [], mp_tenant = [], mp_name = ''Anna'', mp_given_name = [],
       mp_family_name = [], mp_serial_number = ''PNOLV-1''\<rparr>), pe_lines = (\<lambda>n ss. Inr [])\<rparr>"

definition example_reading :: user_reading where
  "example_reading = \<lparr>ur_act = (\<lambda>c. case cl_act c of Some (Actor s _) \<Rightarrow> s | None \<Rightarrow> []), ur_name = cl_name,
     ur_given_name = cl_given_name, ur_family_name = cl_family_name, ur_scopes = (\<lambda>c. parse_scope_string (cl_scope c)),
     ur_has_level = (\<lambda>c g l. g @ '':'' @ l \<in> set (parse_scope_string (cl_scope c)))\<rparr>"

definition example_env :: "rolebyte option \<Rightarrow> (string \<times> jose_header \<times> claim_set) list \<Rightarrow> memory env" where
  "example_env reg known =
     \<lparr>en_now = example_now, en_config = example_config, en_registry = example_registry,
      en_issuer = example_issuer ''K1'' [], en_crypto = run_crypto known, en_ops = memory_ops, en_register = reg,
      en_rand = (\<lambda>k n. replicate n (char_of (k + 1))),
      en_dpop = (\<lambda>h opts. if h = [] then Inl Bad_Proof else Inr \<lparr>dr_nonce = [], dr_jti = h, dr_thumbprint = ''jkt''\<rparr>),
      en_nonce_ok = (\<lambda>n. True), en_fresh_nonce = (\<lambda>k. ''nonce''), en_replay_up = True,
      en_is_service = (\<lambda>c. has_prefix (cl_subject c) ''svc:''),
      en_upstreams = example_set, en_people = example_people, en_has_store = True, en_codes = plain_codes,
      en_card = None, en_user = example_reading,
      en_parse_float = (\<lambda>v. if v = ''0'' then Some 0 else if v = ''0.5'' then Some (1 / 2) else None)\<rparr>"

definition staff_env :: "memory env" where
  "staff_env = example_env (Some staff_register) []"

definition example_world :: "(string \<times> entry) list \<Rightarrow> memory world" where
  "example_world es = \<lparr>wo_store = \<lparr>entries = es\<rparr>, wo_seen = [], wo_draws = 0, wo_calls = [], wo_events = [],
     wo_headers = [], wo_cookies = [], wo_people = []\<rparr>"

text \<open>A posted form, with the header of a proof of possession.\<close>

definition post_form :: "(string \<times> string) list \<Rightarrow> string \<Rightarrow> request" where
  "post_form form proof_header =
     \<lparr>rq_method = ''POST'', rq_tls = True, rq_host = ''auth.test'', rq_path = ''/token'',
      rq_header = (\<lambda>k. if k = ''DPoP'' then proof_header else []), rq_cookie = (\<lambda>_. []),
      rq_string = map_of form, rq_optional = map_of form,
      rq_peek = (\<lambda>k. map snd (filter (\<lambda>p. fst p = k) form)), rq_query = [], rq_post = form, rq_caller = None,
      rq_params = (\<lambda>_. []), rq_body = None, rq_read_body = None, rq_html = True\<rparr>"

lemma ran: "fst p = r \<Longrightarrow> p = (r, snd p)"
  by auto

text \<open>What running a handler on the example unfolds: the parts of the environment, of the world and of
  the request it reads, and the steps of an action.\<close>

lemma example_env_parts:
  "en_now (example_env reg known) = example_now" "en_config (example_env reg known) = example_config"
  "en_registry (example_env reg known) = example_registry" "en_issuer (example_env reg known) = example_issuer ''K1'' []"
  "en_crypto (example_env reg known) = run_crypto known" "en_ops (example_env reg known) = memory_ops"
  "en_register (example_env reg known) = reg" "en_rand (example_env reg known) k len = replicate len (char_of (k + 1))"
  "en_dpop (example_env reg known) h opts = (if h = [] then Inl Bad_Proof else Inr \<lparr>dr_nonce = [], dr_jti = h, dr_thumbprint = ''jkt''\<rparr>)"
  "en_nonce_ok (example_env reg known) n = True" "en_replay_up (example_env reg known) = True"
  "en_is_service (example_env reg known) c = has_prefix (cl_subject c) ''svc:''"
  "en_upstreams (example_env reg known) = example_set" "en_people (example_env reg known) = example_people"
  "en_user (example_env reg known) = example_reading" "en_card (example_env reg known) = None" "en_codes (example_env reg known) = plain_codes"
  "en_parse_float (example_env reg known) = (\<lambda>v. if v = ''0'' then Some 0 else if v = ''0.5'' then Some (1 / 2) else None)"
  by (simp_all add: example_env_def)

lemma run_crypto_parts:
  "cr_public (run_crypto known) = (\<lambda>k. k)" "cr_sign (run_crypto known) k h c = Some (jh_typ h @ '':'' @ cl_subject c)"
  "cr_open (run_crypto known) = map_of known" "cr_sha256 (run_crypto known) = (\<lambda>s. s)" "cr_verify (run_crypto known) k t = True"
  by (simp_all add: run_crypto_def)

lemma example_world_parts:
  "wo_store (example_world es) = \<lparr>entries = es\<rparr>" "wo_seen (example_world es) = []" "wo_draws (example_world es) = 0"
  "wo_calls (example_world es) = []" "wo_events (example_world es) = []" "wo_headers (example_world es) = []"
  "wo_cookies (example_world es) = []" "wo_people (example_world es) = []"
  by (simp_all add: example_world_def)

lemma post_form_parts:
  "rq_method (post_form form h) = ''POST''" "rq_header (post_form form h) = (\<lambda>k. if k = ''DPoP'' then h else [])"
  "rq_string (post_form form h) = map_of form" "rq_optional (post_form form h) = map_of form"
  "rq_peek (post_form form h) k = map snd (filter (\<lambda>p. fst p = k) form)" "rq_cookie (post_form form h) = (\<lambda>_. [])"
  "rq_tls (post_form form h) = True" "rq_host (post_form form h) = ''auth.test''" "rq_path (post_form form h) = ''/token''"
  by (simp_all add: post_form_def)

lemma memory_ops_parts:
  "op_save_flow memory_ops = mem_save_flow" "op_consume_flow memory_ops = mem_consume_flow"
  "op_save_app_code memory_ops = mem_save_app_code" "op_consume_app_code memory_ops = mem_consume_app_code"
  "op_create_session memory_ops = mem_create_session" "op_replace_session memory_ops = mem_replace_session"
  "op_load_session memory_ops = mem_load_session" "op_delete_session memory_ops = mem_delete_session"
  "op_save_refresh memory_ops = mem_save_refresh" "op_load_refresh memory_ops = mem_load_refresh"
  "op_take_refresh memory_ops = mem_take_refresh" "op_delete_refresh memory_ops = mem_delete_refresh"
  "op_create_shared memory_ops = mem_create_shared" "op_replace_shared memory_ops = mem_replace_shared"
  "op_load_shared memory_ops = mem_load_shared" "op_put_shared_app memory_ops = mem_put_shared_app"
  "op_end_shared memory_ops = mem_end_shared" "op_add_connection memory_ops = mem_add_connection"
  "op_connections memory_ops = mem_connections" "op_remove_connection memory_ops = mem_remove_connection"
  by (simp_all add: memory_ops_def)

lemmas example_defs = staff_env_def example_env_parts staff_register_def example_register_def run_crypto_parts
  example_world_parts post_form_parts memory_ops_parts example_config_def
lemmas step_defs = andthen_def recover_def attempt_def require_def stored_def refuse_def guard_def from_sum_def from_option_def need_field_def
  store_refusal_def oauth_error_def no_store_def set_header_def

end
