(* ===== verification/Rolebyte.thy ===== *)
theory Rolebyte
  imports Example_World
begin

text \<open>
  The adapter to the membership register, \<open>src/rolebyte/rolebyte.go\<close>, with the token it sends
  (\<open>mintSignInToken\<close> of \<open>src/app.go\<close>): attaching invitations, asking for memberships or assistants,
  and offering a person to the admission door. The request names nobody; the register reads the
  subject from the token, and an answer about anyone else is refused.
\<close>

definition scope_claim :: string where "scope_claim = ''membership:claim''"
definition scope_resolve :: string where "scope_resolve = ''membership:resolve''"
definition person_key_prefix :: string where "person_key_prefix = ''sub:''"

definition door_path :: "door \<Rightarrow> string" where
  "door_path d =
     (case d of Claims_Door \<Rightarrow> ''/api/v1/sign-in/claims'' | Memberships_Door \<Rightarrow> ''/api/v1/sign-in/memberships''
      | Admissions_Door \<Rightarrow> ''/api/v1/sign-in/directory-admissions'' | Assistants_Door \<Rightarrow> ''/api/v1/sign-in/assistants'')"

definition person_key :: "string \<Rightarrow> string" where
  "person_key sub = person_key_prefix @ sub"

definition token_subject :: "string \<Rightarrow> string" where
  "token_subject key = trim_prefix key person_key_prefix"

definition new_rolebyte :: "string \<Rightarrow> string \<Rightarrow> string \<Rightarrow> string \<Rightarrow> (nat \<Rightarrow> door_call \<Rightarrow> door_answer option) \<Rightarrow> rolebyte" where
  "new_rolebyte url audience actor thumbprint http =
     \<lparr>rb_base = trim_suffix url ''/'', rb_audience = audience, rb_actor = actor, rb_thumbprint = thumbprint,
      rb_http = http\<rparr>"

datatype register_error = Register_Failed | For_Another

type_synonym ('c, 'a) asking = "('c world, register_error, 'a) act"

section \<open>The token of one call\<close>

definition sign_in_token_ttl :: duration where
  "sign_in_token_ttl = 60 * second"

definition sign_in_token_input :: "string \<Rightarrow> string \<Rightarrow> string \<Rightarrow> string \<Rightarrow> string \<Rightarrow> delegated_token_input" where
  "sign_in_token_input subject audience scope actor thumbprint =
     \<lparr>dt_subject = subject, dt_audience = audience, dt_scopes = [scope], dt_loa = [], dt_login_method = [],
      dt_serial_number = [], dt_tenant = [], dt_actor = Some (Actor actor None), dt_thumbprint = thumbprint,
      dt_ttl = sign_in_token_ttl\<rparr>"

definition mint_sign_in_token :: "'c env \<Rightarrow> string \<Rightarrow> string \<Rightarrow> string \<Rightarrow> string \<Rightarrow> string \<Rightarrow> ('c, string) asking" where
  "mint_sign_in_token e subject audience scope actor thumbprint =
     (if trim_space thumbprint = [] then stop Register_Failed
      else
        andthen (random_token e 16) (\<lambda>jti.
        case issue_delegated (en_crypto e) (en_issuer e) (en_now e) jti
               (sign_in_token_input subject audience scope actor thumbprint) of
          Some (tok, _) \<Rightarrow> ret tok
        | None \<Rightarrow> stop Register_Failed))"

section \<open>One call, and the doors\<close>

definition send :: "rolebyte \<Rightarrow> door_call \<Rightarrow> ('c, door_body option) asking" where
  "send rb c w =
     (let w' = w\<lparr>wo_calls := wo_calls w @ [c]\<rparr> in
      case rb_http rb (length (wo_calls w)) c of
        None \<Rightarrow> (Inl Register_Failed, w')
      | Some a \<Rightarrow> if da_status a \<noteq> 200 then (Inl Register_Failed, w') else (Inr (da_body a), w'))"

definition door_scope :: "door \<Rightarrow> string" where
  "door_scope d = (if d = Claims_Door \<or> d = Admissions_Door then scope_claim else scope_resolve)"

definition call :: "'c env \<Rightarrow> rolebyte \<Rightarrow> string \<Rightarrow> door \<Rightarrow> directory_login option \<Rightarrow> ('c, door_body option) asking" where
  "call e rb key d login =
     andthen (mint_sign_in_token e (token_subject key) (rb_audience rb) (door_scope d) (rb_actor rb) (rb_thumbprint rb)) (\<lambda>tok.
     send rb \<lparr>dc_door = d, dc_token = tok, dc_address = rb_base rb @ door_path d, dc_login = login\<rparr>)"

text \<open>A call whose answer is read: one that does not decode is an error.\<close>

definition call_for :: "'c env \<Rightarrow> rolebyte \<Rightarrow> string \<Rightarrow> door \<Rightarrow> directory_login option \<Rightarrow> ('c, door_body) asking" where
  "call_for e rb key d login =
     andthen (call e rb key d login) (\<lambda>b. case b of Some body \<Rightarrow> ret body | None \<Rightarrow> stop Register_Failed)"

definition admit :: "'c env \<Rightarrow> rolebyte \<Rightarrow> string \<Rightarrow> directory_login \<Rightarrow> ('c, bool) asking" where
  "admit e rb key login =
     (if key = [] \<or> dl_issuer login = [] then stop Register_Failed
      else andthen (call_for e rb key Admissions_Door (Some login)) (\<lambda>b. ret (db_outcome b = ''admitted'')))"

definition answered_for :: "string \<Rightarrow> door_body \<Rightarrow> register_error + membership list" where
  "answered_for asked b = (if db_subject_key b \<noteq> asked then Inl For_Another else Inr (db_memberships b))"

definition assistants :: "'c env \<Rightarrow> rolebyte \<Rightarrow> string \<Rightarrow> ('c, assistant list) asking" where
  "assistants e rb key =
     (if \<not> has_prefix key person_key_prefix \<or> length key = length person_key_prefix then stop Register_Failed
      else
        andthen (call e rb key Claims_Door None) (\<lambda>_.
        andthen (call_for e rb key Assistants_Door None) (\<lambda>b.
        if db_subject_key b \<noteq> key then stop For_Another else ret (db_assistants b))))"

definition memberships :: "'c env \<Rightarrow> rolebyte \<Rightarrow> string \<Rightarrow> ('c, membership list) asking" where
  "memberships e rb key =
     (if trim_space key = [] then stop Register_Failed
      else
        andthen (call e rb key Claims_Door None) (\<lambda>_.
        andthen (call_for e rb key Memberships_Door None) (\<lambda>b.
        case answered_for key b of Inl err \<Rightarrow> stop err | Inr ms \<Rightarrow> ret ms)))"

section \<open>What asking leaves behind\<close>

text \<open>A call made for a key: its token was signed here for that key's subject, for the register alone,
  with the door's one scope, this service acting, bound to the key the call is proven with, for at
  most a minute.\<close>

definition call_for_key :: "'c env \<Rightarrow> rolebyte \<Rightarrow> string \<Rightarrow> door_call \<Rightarrow> bool" where
  "call_for_key e rb key c \<longleftrightarrow>
     dc_address c = rb_base rb @ door_path (dc_door c) \<and>
     (\<exists>jti d. sign_typed (en_crypto e) (is_keys (en_issuer e)) d type_access_token = Some (dc_token c)
        \<and> d = delegated_claims (en_issuer e) (en_now e) jti
                (sign_in_token_input (token_subject key) (rb_audience rb) (door_scope (dc_door c)) (rb_actor rb) (rb_thumbprint rb))
        \<and> cl_subject d = token_subject key \<and> cl_audience d = [rb_audience rb] \<and> cl_scope d = door_scope (dc_door c)
        \<and> cl_act d = Some (Actor (rb_actor rb) None) \<and> cl_jkt d = rb_thumbprint rb \<and> rb_thumbprint rb \<noteq> []
        \<and> (\<exists>ttl \<le> sign_in_token_ttl. cl_expires_at d = Some (unix (en_now e + ttl))))"

text \<open>Asking about a key changes nothing but the draws taken and the calls made, all for that key.\<close>

definition asked_about :: "'c env \<Rightarrow> rolebyte \<Rightarrow> string \<Rightarrow> 'c world \<Rightarrow> 'c world \<Rightarrow> bool" where
  "asked_about e rb key w w' \<longleftrightarrow>
     (\<exists>n new. w' = w\<lparr>wo_draws := wo_draws w + n, wo_calls := wo_calls w @ new\<rparr> \<and> (\<forall>c\<in>set new. call_for_key e rb key c))"

lemma asked_reflp: "reflp (asked_about e rb key)"
  unfolding reflp_def asked_about_def by (intro allI exI[of _ "0::nat"] exI[of _ "[]"]) simp

lemma asked_transp: "transp (asked_about e rb key)"
proof (rule transpI)
  fix u v w assume "asked_about e rb key u v" "asked_about e rb key v w"
  then obtain n a m b where "v = u\<lparr>wo_draws := wo_draws u + n, wo_calls := wo_calls u @ a\<rparr>"
    "w = v\<lparr>wo_draws := wo_draws v + m, wo_calls := wo_calls v @ b\<rparr>"
    "\<forall>c\<in>set a. call_for_key e rb key c" "\<forall>c\<in>set b. call_for_key e rb key c"
    unfolding asked_about_def by blast
  then show "asked_about e rb key u w"
    unfolding asked_about_def by (intro exI[of _ "n + m"] exI[of _ "a @ b"]) auto
qed

lemmas asked_intros = keeps_andthen[OF asked_transp] keeps_ret[OF asked_reflp] keeps_stop[OF asked_reflp]

lemma join_single [simp]: "join sep [x] = x"
  by simp

lemma sign_in_ttl: "delegated_ttl i (sign_in_token_input sub aud scope actor thumb) \<le> sign_in_token_ttl"
  by (simp add: delegated_ttl_def sign_in_token_input_def sign_in_token_ttl_def second_def)

lemma minted_call:
  assumes "issue_delegated (en_crypto e) (en_issuer e) (en_now e) jti
      (sign_in_token_input (token_subject key) (rb_audience rb) (door_scope d) (rb_actor rb) (rb_thumbprint rb)) = Some (tok, s)"
    and "rb_thumbprint rb \<noteq> []"
  shows "call_for_key e rb key \<lparr>dc_door = d, dc_token = tok, dc_address = rb_base rb @ door_path d, dc_login = login\<rparr>"
proof -
  let ?in = "sign_in_token_input (token_subject key) (rb_audience rb) (door_scope d) (rb_actor rb) (rb_thumbprint rb)"
  let ?c = "delegated_claims (en_issuer e) (en_now e) jti ?in"
  have "cl_expires_at ?c = Some (unix (en_now e + delegated_ttl (en_issuer e) ?in))"
    by (simp add: delegated_claims_def base_claims_def)
  then have "\<exists>ttl \<le> sign_in_token_ttl. cl_expires_at ?c = Some (unix (en_now e + ttl))"
    using sign_in_ttl by blast
  moreover have "cl_subject ?c = token_subject key" "cl_audience ?c = [rb_audience rb]" "cl_scope ?c = door_scope d"
    "cl_act ?c = Some (Actor (rb_actor rb) None)" "cl_jkt ?c = rb_thumbprint rb"
    by (simp_all add: delegated_claims_def base_claims_def sign_in_token_input_def)
  moreover have "sign_typed (en_crypto e) (is_keys (en_issuer e)) ?c type_access_token = Some tok"
    using assms(1) by (simp add: issue_delegated_def sign_access_Some)
  ultimately show ?thesis
    using assms(2) unfolding call_for_key_def by (intro conjI exI[of _ jti] exI[of _ ?c]) simp_all
qed

lemma trim_space_Nil [simp]: "trim_space [] = []"
  by (simp add: trim_space_def trim_left.simps trim_right.simps tail_space_def)

lemma call_asks: "keeps (asked_about e rb key) (call e rb key d login)"
proof (rule keepsI)
  fix w r w' assume run: "call e rb key d login w = (r, w')"
  show "asked_about e rb key w w'"
  proof (cases "trim_space (rb_thumbprint rb) = []")
    case True
    with run have "w' = w" by (simp add: call_def mint_sign_in_token_def)
    then show ?thesis using asked_reflp[of e rb key] by (simp add: reflp_def)
  next
    case False
    let ?in = "sign_in_token_input (token_subject key) (rb_audience rb) (door_scope d) (rb_actor rb) (rb_thumbprint rb)"
    let ?jti = "raw_url_encode (en_rand e (wo_draws w) 16)" and ?w = "w\<lparr>wo_draws := Suc (wo_draws w)\<rparr>"
    show ?thesis
    proof (cases "issue_delegated (en_crypto e) (en_issuer e) (en_now e) ?jti ?in")
      case None
      with False run have "w' = ?w" by (simp add: call_def mint_sign_in_token_def andthen_def)
      then show ?thesis
        unfolding asked_about_def by (intro exI[of _ "1::nat"] exI[of _ "[]"]) simp
    next
      case (Some p)
      obtain tok s where p: "p = (tok, s)" by fastforce
      let ?c = "\<lparr>dc_door = d, dc_token = tok, dc_address = rb_base rb @ door_path d, dc_login = login\<rparr>"
      have "mint_sign_in_token e (token_subject key) (rb_audience rb) (door_scope d) (rb_actor rb) (rb_thumbprint rb) w = (Inr tok, ?w)"
        using False Some p by (simp add: mint_sign_in_token_def)
      with run have "send rb ?c ?w = (r, w')" by (simp add: call_def)
      then have w': "w' = ?w\<lparr>wo_calls := wo_calls w @ [?c]\<rparr>"
        by (auto simp: send_def Let_def split: option.splits if_splits)
      have "rb_thumbprint rb \<noteq> []" using False by auto
      from minted_call[OF Some[unfolded p] this] have "call_for_key e rb key ?c" .
      then show ?thesis
        unfolding asked_about_def w' by (intro exI[of _ "1::nat"] exI[of _ "[?c]"]) simp
    qed
  qed
qed

lemma call_for_asks: "keeps (asked_about e rb key) (call_for e rb key d login)"
  unfolding call_for_def by (intro asked_intros call_asks) (auto split: option.splits intro: asked_intros)

lemma admit_asks: "keeps (asked_about e rb key) (admit e rb key login)"
  unfolding admit_def by (auto intro!: asked_intros call_for_asks)

lemma assistants_asks: "keeps (asked_about e rb key) (assistants e rb key)"
  unfolding assistants_def by (auto intro!: asked_intros call_for_asks call_asks)

lemma memberships_asks: "keeps (asked_about e rb key) (memberships e rb key)"
  unfolding memberships_def by (auto intro!: asked_intros call_for_asks call_asks split: sum.splits)

lemma asked_keeps_store:
  "asked_about e rb key w w' \<Longrightarrow> wo_store w' = wo_store w \<and> wo_events w' = wo_events w \<and> wo_seen w' = wo_seen w
     \<and> wo_headers w' = wo_headers w \<and> wo_cookies w' = wo_cookies w"
  by (auto simp: asked_about_def)

text \<open>Which doors were asked.\<close>

definition asked_at :: "door set \<Rightarrow> 'c world \<Rightarrow> 'c world \<Rightarrow> bool" where
  "asked_at D w w' \<longleftrightarrow> (\<exists>new. wo_calls w' = wo_calls w @ new \<and> dc_door ` set new \<subseteq> D)"

lemma asked_at_reflp: "reflp (asked_at D)"
  unfolding reflp_def asked_at_def by (intro allI exI[of _ "[]"]) simp

lemma asked_at_transp: "transp (asked_at D)"
proof (rule transpI)
  fix u v w assume "asked_at D u v" "asked_at D v w"
  then obtain a b where "wo_calls v = wo_calls u @ a" "wo_calls w = wo_calls v @ b" "dc_door ` set a \<subseteq> D" "dc_door ` set b \<subseteq> D"
    unfolding asked_at_def by blast
  then show "asked_at D u w" unfolding asked_at_def by (intro exI[of _ "a @ b"]) auto
qed

lemmas door_intros = keeps_andthen[OF asked_at_transp] keeps_ret[OF asked_at_reflp] keeps_stop[OF asked_at_reflp]
  keeps_recover[OF asked_at_transp]

lemma same_calls: "(\<And>w. wo_calls (snd (m w)) = wo_calls w) \<Longrightarrow> keeps (asked_at D) m"
  unfolding keeps_def asked_at_def by (intro allI exI[of _ "[]"]) simp

lemma call_asks_at: "d \<in> D \<Longrightarrow> keeps (asked_at D) (call e rb key d login)"
  unfolding call_def
proof (rule keeps_andthen[OF asked_at_transp])
  show "keeps (asked_at D) (mint_sign_in_token e (token_subject key) (rb_audience rb) (door_scope d) (rb_actor rb) (rb_thumbprint rb))"
    by (rule same_calls) (simp add: mint_sign_in_token_def split: option.splits)
  fix tok
  assume "d \<in> D"
  then show "keeps (asked_at D) (send rb \<lparr>dc_door = d, dc_token = tok, dc_address = rb_base rb @ door_path d, dc_login = login\<rparr>)"
    by (auto simp: keeps_def asked_at_def send_def Let_def split: option.splits)
qed

lemma call_for_asks_at: "d \<in> D \<Longrightarrow> keeps (asked_at D) (call_for e rb key d login)"
  unfolding call_for_def by (intro door_intros call_asks_at) (auto split: option.splits intro: door_intros)

lemma memberships_asks_at: "keeps (asked_at {Claims_Door, Memberships_Door}) (memberships e rb key)"
  unfolding memberships_def by (auto intro!: door_intros call_for_asks_at call_asks_at split: sum.splits)

section \<open>What an answer rests on\<close>

text \<open>The register answered a call made for the key, with 200, at one of its doors.\<close>

definition door_answered :: "'c env \<Rightarrow> rolebyte \<Rightarrow> string \<Rightarrow> door \<Rightarrow> door_body \<Rightarrow> bool" where
  "door_answered e rb key d b \<longleftrightarrow>
     (\<exists>k c. rb_http rb k c = Some \<lparr>da_status = 200, da_body = Some b\<rparr> \<and> dc_door c = d \<and> call_for_key e rb key c)"

lemma send_Inr:
  "send rb c w = (Inr b, w') \<longleftrightarrow>
     rb_http rb (length (wo_calls w)) c = Some \<lparr>da_status = 200, da_body = b\<rparr> \<and> w' = w\<lparr>wo_calls := wo_calls w @ [c]\<rparr>"
  by (auto simp: send_def Let_def split: option.splits if_splits intro: door_answer.equality)

lemma call_for_answered:
  assumes run: "call_for e rb key d login w = (Inr b, w')"
  shows "door_answered e rb key d b"
proof -
  obtain u where u: "call e rb key d login w = (Inr (Some b), u)"
    using run by (auto simp: call_for_def andthen_Inr split: option.splits)
  then obtain tok v where s: "send rb \<lparr>dc_door = d, dc_token = tok, dc_address = rb_base rb @ door_path d, dc_login = login\<rparr> v = (Inr (Some b), u)"
    and m: "mint_sign_in_token e (token_subject key) (rb_audience rb) (door_scope d) (rb_actor rb) (rb_thumbprint rb) w = (Inr tok, v)"
    by (auto simp: call_def andthen_Inr)
  have v: "wo_calls v = wo_calls w"
    using m by (auto simp: mint_sign_in_token_def act_simps split: if_splits option.splits)
  let ?c = "\<lparr>dc_door = d, dc_token = tok, dc_address = rb_base rb @ door_path d, dc_login = login\<rparr>"
  obtain n new where "u = w\<lparr>wo_draws := wo_draws w + n, wo_calls := wo_calls w @ new\<rparr>" "\<forall>c\<in>set new. call_for_key e rb key c"
    using keepsD[OF call_asks u] by (auto simp: asked_about_def)
  moreover have "wo_calls u = wo_calls w @ [?c]" using s v by (auto simp: send_Inr)
  ultimately have "call_for_key e rb key ?c" by auto
  moreover have "rb_http rb (length (wo_calls v)) ?c = Some \<lparr>da_status = 200, da_body = Some b\<rparr>"
    using s by (simp add: send_Inr)
  ultimately show ?thesis
    unfolding door_answered_def by (intro exI[of _ "length (wo_calls v)"] exI[of _ ?c]) simp
qed

lemma memberships_Inr:
  "memberships e rb key w = (Inr ms, w') \<Longrightarrow>
     \<exists>b. door_answered e rb key Memberships_Door b \<and> db_subject_key b = key \<and> ms = db_memberships b"
  by (auto simp: memberships_def andthen_Inr answered_for_def split: if_splits dest!: call_for_answered)

lemma assistants_Inr:
  "assistants e rb key w = (Inr own, w') \<Longrightarrow>
     \<exists>b. door_answered e rb key Assistants_Door b \<and> db_subject_key b = key \<and> own = db_assistants b"
  by (auto simp: assistants_def andthen_Inr split: if_splits dest!: call_for_answered)

lemma admit_Inr:
  "admit e rb key login w = (Inr True, w') \<Longrightarrow> \<exists>b. door_answered e rb key Admissions_Door b \<and> db_outcome b = ''admitted''"
  by (auto simp: admit_def andthen_Inr split: if_splits dest!: call_for_answered)

lemma token_subject_person [simp]: "token_subject (person_key sub) = sub"
  by (simp add: token_subject_def person_key_def)


lemmas run_register = step_defs memberships_def assistants_def admit_def call_for_def call_def mint_sign_in_token_def
  send_def answered_for_def issue_delegated_def sign_access_def sign_typed_def person_key_def person_key_prefix_def
  trim_space_def trim_left.simps trim_right.simps tail_space_def


end
