(* ===== verification/Client_Auth.thy ===== *)
theory Client_Auth
  imports Example_World
begin

text \<open>
  How a client proves itself at the token and revocation endpoints, \<open>src/routes/clientauth.go\<close>, and
  the proof of the code exchange, \<open>verifyPKCE\<close> of \<open>src/routes/helpers.go\<close>.
\<close>

section \<open>Client credentials\<close>

text \<open>The client and secret of an Authorization header; whether there were any, and whether they decode.\<close>

definition basic_credentials :: "string \<Rightarrow> string \<times> string \<times> bool \<times> bool" where
  "basic_credentials header =
     (case cut (CHR '' '') header of (scheme, val, _) \<Rightarrow>
        if \<not> equal_fold scheme ''Basic'' then ([], [], False, True)
        else
          (case std_decode (trim_space val) of
             None \<Rightarrow> ([], [], True, False)
           | Some raw \<Rightarrow>
               (case cut (CHR '':'') raw of (enc_id, enc_secret, found) \<Rightarrow>
                  if \<not> found then ([], [], True, False)
                  else
                    (case (unescape Query_Mode enc_id, unescape Query_Mode enc_secret) of
                       (Some i, Some s) \<Rightarrow> (i, s, True, True)
                     | _ \<Rightarrow> ([], [], True, False)))))"

definition client_secret :: "request \<Rightarrow> string \<Rightarrow> ('c, string \<times> bool) handler" where
  "client_secret rq cid =
     (case basic_credentials (rq_header rq ''Authorization'') of (basic_id, basic_secret, has_basic, valid) \<Rightarrow>
        if \<not> valid \<or> (has_basic \<and> basic_id \<noteq> cid) then refuse Unauthorized
        else
          (case rq_optional rq ''client_secret'' of
             Some f \<Rightarrow> if has_basic then refuse (Param_Invalid ''client_secret'') else ret (f, True)
           | None \<Rightarrow> if has_basic then ret (basic_secret, True) else ret ([], False)))"

definition authenticate_sign_in_request :: "'c env \<Rightarrow> request \<Rightarrow> string \<Rightarrow> ('c, sign_in_client) handler" where
  "authenticate_sign_in_request e rq cid =
     andthen (client_secret rq cid) (\<lambda>(secret, presented).
     from_sum (authenticate_sign_in (en_registry e) cid secret presented) (\<lambda>_. refuse Unauthorized))"

text \<open>What a request presented for a client: its secret, by one way only, or nothing.\<close>

definition presents :: "request \<Rightarrow> string \<Rightarrow> string option \<Rightarrow> bool" where
  "presents rq cid secret \<longleftrightarrow>
     (\<exists>bi bs hb. basic_credentials (rq_header rq ''Authorization'') = (bi, bs, hb, True)
        \<and> (hb \<longrightarrow> bi = cid \<and> rq_optional rq ''client_secret'' = None)
        \<and> secret = (if hb then Some bs else rq_optional rq ''client_secret''))"

lemma client_secret_Inr:
  "client_secret rq cid w = (Inr (s, p), w') \<longleftrightarrow>
     w' = w \<and> (p \<and> presents rq cid (Some s) \<or> \<not> p \<and> s = [] \<and> presents rq cid None)"
  by (cases "basic_credentials (rq_header rq ''Authorization'')"; cases "rq_optional rq ''client_secret''")
    (auto simp: client_secret_def presents_def refuse_def)

text \<open>A request goes on past its client's authentication exactly so, and changes nothing.\<close>

lemma authenticate_sign_in_request_Inr [act_simps]:
  "authenticate_sign_in_request e rq cid w = (Inr c, w') \<longleftrightarrow>
     w' = w \<and> sign_in_client_of (en_registry e) cid = Some c \<and>
     (if si_type c = client_public then presents rq cid None
      else \<exists>s. presents rq cid (Some s) \<and> s \<noteq> [] \<and> map_of (secrets (en_registry e)) cid = Some s)"
proof -
  have "authenticate_sign_in_request e rq cid w = (Inr c, w') \<longleftrightarrow>
      (\<exists>s p. client_secret rq cid w = (Inr (s, p), w') \<and> authenticate_sign_in (en_registry e) cid s p = Inr c)"
    unfolding authenticate_sign_in_request_def andthen_Inr split_paired_Ex prod.case from_sum_Inr refuse_Inr by blast
  then show ?thesis
    by (cases "si_type c = client_public") (auto simp: client_secret_Inr authenticate_sign_in_iff)
qed

section \<open>The code exchange's proof\<close>

definition pkce_s256 :: string where "pkce_s256 = ''S256''"

definition verify_pkce :: "crypto \<Rightarrow> string \<Rightarrow> string \<Rightarrow> string \<Rightarrow> bool" where
  "verify_pkce cr verifier challenge method \<longleftrightarrow>
     method = pkce_s256 \<and> raw_url_encode (cr_sha256 cr verifier) = challenge"

text \<open>A claim the client's row lists, else nothing.\<close>

definition listed_claim :: "sign_in_client \<Rightarrow> string \<Rightarrow> string \<Rightarrow> string" where
  "listed_claim c claim val = (if claim \<in> set (si_claims c) then val else [])"

definition refresh_key :: "crypto \<Rightarrow> string \<Rightarrow> string" where
  "refresh_key cr token = raw_url_encode (cr_sha256 cr token)"

end
