(* ===== verification/Membership.thy ===== *)
theory Membership
  imports Rolebyte Client_Auth
begin

text \<open>
  Which scopes and which organisation a token carries, from \<open>src/routes/token.go\<close>: \<open>userScopes\<close> for
  a person, \<open>serviceAccountScopes\<close> for a service account, and the choice of one membership.
\<close>

datatype moment = At_Sign_In | At_Refresh

record membership_outcome =
  uo_scopes :: "string list"
  uo_tenant :: string
  uo_choices :: "string list"

definition choose_membership :: "membership list \<Rightarrow> string \<Rightarrow> membership option \<times> string list" where
  "choose_membership ms hint =
     (if hint \<noteq> [] then (first (\<lambda>m. m_tenant m = hint) ms, [])
      else (case ms of [m] \<Rightarrow> (Some m, []) | _ \<Rightarrow> (None, map m_tenant ms)))"

definition intersect_scopes :: "string list \<Rightarrow> string list \<Rightarrow> string list" where
  "intersect_scopes allowed granted = filter (\<lambda>s. s \<in> set granted) allowed"

definition register_unavailable :: "string \<Rightarrow> register_error \<Rightarrow> ('c, 'a) handler" where
  "register_unavailable asked err =
     andthen (if err = For_Another then record_event (Answered_For_Another asked) else ret ()) (\<lambda>_.
     refuse Register_Unavailable)"

lemma register_unavailable_Inr [act_simps]: "register_unavailable asked err w = (Inr x, w') \<longleftrightarrow> False"
  by (simp add: register_unavailable_def andthen_Inr refuse_Inr)

definition ask_memberships :: "'c env \<Rightarrow> rolebyte \<Rightarrow> string \<Rightarrow> ('c, membership list) handler" where
  "ask_memberships e rb key = recover (memberships e rb key) (register_unavailable key)"

text \<open>A person who has just signed in through an organisation's own directory and holds no membership
  yet is offered to the register's admission door, then asked about again.\<close>

definition admit_directory :: "'c env \<Rightarrow> rolebyte \<Rightarrow> session \<Rightarrow> moment \<Rightarrow> membership list \<Rightarrow> ('c, membership list) handler" where
  "admit_directory e rb sess mo ms =
     (if ms = [] \<and> mo = At_Sign_In \<and> s_directory_issuer sess \<noteq> [] \<and> \<not> s_directory_guest sess then
        andthen (recover (admit e rb (person_key (s_subject sess))
            \<lparr>dl_issuer = s_directory_issuer sess, dl_display_name = display_name sess\<rparr>)
            (register_unavailable (person_key (s_subject sess)))) (\<lambda>admitted.
        if admitted then ask_memberships e rb (person_key (s_subject sess)) else ret ms)
      else ret ms)"

definition outcome_of :: "membership list \<Rightarrow> string \<Rightarrow> ('c, membership_outcome) handler" where
  "outcome_of ms hint =
     (case choose_membership ms hint of (chosen, choices) \<Rightarrow>
        andthen (guard (\<not> (ms = [] \<or> (chosen = None \<and> hint \<noteq> []))) Not_Member) (\<lambda>_.
        ret (case chosen of
               None \<Rightarrow> \<lparr>uo_scopes = [], uo_tenant = [], uo_choices = choices\<rparr>
             | Some m \<Rightarrow> \<lparr>uo_scopes = m_scopes m, uo_tenant = m_tenant m, uo_choices = []\<rparr>)))"

definition baseline :: "registry \<Rightarrow> string \<Rightarrow> membership_outcome" where
  "baseline r cid =
     \<lparr>uo_scopes = (case sign_in_client_of r cid of Some c \<Rightarrow> si_baseline_scopes c | None \<Rightarrow> []),
      uo_tenant = [], uo_choices = []\<rparr>"

definition user_scopes :: "'c env \<Rightarrow> session \<Rightarrow> string \<Rightarrow> string \<Rightarrow> moment \<Rightarrow> ('c, membership_outcome) handler" where
  "user_scopes e sess cid hint mo =
     (case en_register e of
        None \<Rightarrow> ret (baseline (en_registry e) cid)
      | Some rb \<Rightarrow>
          if \<not> membership_required (en_registry e) cid True then ret (baseline (en_registry e) cid)
          else
            andthen (ask_memberships e rb (person_key (s_subject sess))) (\<lambda>ms.
            andthen (admit_directory e rb sess mo ms) (\<lambda>ms'. outcome_of ms' hint)))"

definition service_account_scopes :: "'c env \<Rightarrow> string \<Rightarrow> string \<Rightarrow> string list \<Rightarrow> ('c, string list) handler" where
  "service_account_scopes e cid tenant allowed =
     (case en_register e of
        None \<Rightarrow> refuse Not_Member
      | Some rb \<Rightarrow>
          andthen (ask_memberships e rb cid) (\<lambda>ms.
          andthen (from_option (fst (choose_membership ms tenant)) (refuse Not_Member)) (\<lambda>m.
          andthen (guard (intersect_scopes allowed (m_scopes m) \<noteq> []) Forbidden) (\<lambda>_.
          ret (intersect_scopes allowed (m_scopes m))))))"

section \<open>Facts\<close>

lemma set_intersect_scopes [simp]: "set (intersect_scopes a g) = set a \<inter> set g"
  by (auto simp: intersect_scopes_def)

lemma choose_named: "fst (choose_membership ms hint) = Some m \<Longrightarrow> hint \<noteq> [] \<Longrightarrow> m \<in> set ms \<and> m_tenant m = hint"
  by (auto simp: choose_membership_def dest: first_SomeD)

lemma choose_some: "fst (choose_membership ms hint) = Some m \<Longrightarrow> m \<in> set ms \<and> (hint = [] \<longrightarrow> ms = [m])"
  by (auto simp: choose_membership_def dest: first_SomeD split: list.splits if_splits)

lemma choose_none: "choose_membership ms [] = (None, choices) \<Longrightarrow> length ms \<noteq> 1 \<and> choices = map m_tenant ms"
  by (auto simp: choose_membership_def split: list.splits)

text \<open>An outcome is one membership's scopes and tenant, or nothing but the choice among several.\<close>

definition one_membership :: "membership list \<Rightarrow> string \<Rightarrow> membership_outcome \<Rightarrow> bool" where
  "one_membership ms hint out \<longleftrightarrow>
     (\<exists>m\<in>set ms. uo_scopes out = m_scopes m \<and> uo_tenant out = m_tenant m \<and> uo_choices out = []
        \<and> (if hint = [] then ms = [m] else m_tenant m = hint))
     \<or> hint = [] \<and> 2 \<le> length ms \<and> uo_scopes out = [] \<and> uo_tenant out = [] \<and> uo_choices out = map m_tenant ms"

lemma outcome_of_Inr: "outcome_of ms hint w = (Inr out, w') \<Longrightarrow> w' = w \<and> one_membership ms hint out"
proof -
  assume run: "outcome_of ms hint w = (Inr out, w')"
  obtain chosen choices where ch: "choose_membership ms hint = (chosen, choices)" by fastforce
  with run have w: "w' = w" and ms: "ms \<noteq> []" and hint: "chosen = None \<Longrightarrow> hint = []"
    and out: "out = (case chosen of None \<Rightarrow> \<lparr>uo_scopes = [], uo_tenant = [], uo_choices = choices\<rparr>
             | Some m \<Rightarrow> \<lparr>uo_scopes = m_scopes m, uo_tenant = m_tenant m, uo_choices = []\<rparr>)"
    by (auto simp: outcome_of_def act_simps)
  show ?thesis
  proof (cases chosen)
    case None
    with ch hint have "length ms \<noteq> 1 \<and> choices = map m_tenant ms" using choose_none by blast
    moreover have "length ms \<noteq> 0" using ms by simp
    ultimately have "2 \<le> length ms \<and> choices = map m_tenant ms" by linarith
    with None hint out w show ?thesis by (simp add: one_membership_def)
  next
    case (Some m)
    with ch have "m \<in> set ms \<and> (if hint = [] then ms = [m] else m_tenant m = hint)"
      using choose_some[of ms hint m] choose_named[of ms hint m] by auto
    with Some out w show ?thesis by (auto simp: one_membership_def)
  qed
qed

lemma ask_memberships_Inr:
  "ask_memberships e rb key w = (Inr ms, w') \<Longrightarrow>
     \<exists>b. door_answered e rb key Memberships_Door b \<and> db_subject_key b = key \<and> ms = db_memberships b"
  unfolding ask_memberships_def by (auto simp: recover_Inr register_unavailable_Inr dest: memberships_Inr)

text \<open>Asking for a person's scopes changes nothing but the register calls, all about that person, and
  the record of an answer about another.\<close>

lemma refuse_same [simp]: "snd (refuse p w) = w"
  by (simp add: refuse_def)

lemma ask_memberships_about:
  "ask_memberships e rb key w = (Inr ms, w') \<Longrightarrow> asked_about e rb key w w'"
  unfolding ask_memberships_def by (auto simp: recover_Inr register_unavailable_Inr intro: keepsD[OF memberships_asks])

lemma ask_memberships_at:
  "ask_memberships e rb key w = (Inr ms, w') \<Longrightarrow> asked_at {Claims_Door, Memberships_Door} w w'"
  unfolding ask_memberships_def by (auto simp: recover_Inr register_unavailable_Inr intro: keepsD[OF memberships_asks_at])

lemma admit_directory_Inr:
  assumes "admit_directory e rb sess mo ms w = (Inr ms', w')"
  shows "asked_about e rb (person_key (s_subject sess)) w w'"
    and "ms' = ms \<or> (\<exists>b. door_answered e rb (person_key (s_subject sess)) Memberships_Door b
           \<and> db_subject_key b = person_key (s_subject sess) \<and> ms' = db_memberships b)"
    and "w' = w \<or> mo = At_Sign_In \<and> s_directory_issuer sess \<noteq> [] \<and> \<not> s_directory_guest sess \<and> ms = []"
proof -
  let ?key = "person_key (s_subject sess)"
  show "w' = w \<or> mo = At_Sign_In \<and> s_directory_issuer sess \<noteq> [] \<and> \<not> s_directory_guest sess \<and> ms = []"
    using assms by (auto simp: admit_directory_def split: if_splits)
  have "asked_about e rb ?key w w' \<and> (ms' = ms \<or> (\<exists>b. door_answered e rb ?key Memberships_Door b
           \<and> db_subject_key b = ?key \<and> ms' = db_memberships b))"
  proof (cases "ms = [] \<and> mo = At_Sign_In \<and> s_directory_issuer sess \<noteq> [] \<and> \<not> s_directory_guest sess")
    case True
    then obtain ad v where "admit e rb ?key \<lparr>dl_issuer = s_directory_issuer sess, dl_display_name = display_name sess\<rparr> w = (Inr ad, v)"
      and next_step: "(if ad then ask_memberships e rb ?key else ret ms) v = (Inr ms', w')"
      using assms by (auto simp: admit_directory_def andthen_Inr recover_Inr register_unavailable_Inr)
    then have wv: "asked_about e rb ?key w v" by (blast intro: keepsD[OF admit_asks])
    show ?thesis
    proof (cases ad)
      case True
      with next_step have "ask_memberships e rb ?key v = (Inr ms', w')" by simp
      from ask_memberships_Inr[OF this] ask_memberships_about[OF this] show ?thesis
        using wv asked_transp[of e rb ?key] by (blast dest: transpD)
    next
      case False
      with next_step wv show ?thesis by simp
    qed
  next
    case False
    with assms asked_reflp[of e rb ?key] show ?thesis by (auto simp: admit_directory_def reflp_def)
  qed
  then show "asked_about e rb ?key w w'" "ms' = ms \<or> (\<exists>b. door_answered e rb ?key Memberships_Door b
           \<and> db_subject_key b = ?key \<and> ms' = db_memberships b)" by blast+
qed

lemma user_scopes_Inr:
  assumes "user_scopes e sess cid hint mo w = (Inr out, w')"
  shows "(en_register e = None \<or> \<not> membership_required (en_registry e) cid True) \<and> out = baseline (en_registry e) cid \<and> w' = w
    \<or> (\<exists>rb b. en_register e = Some rb \<and> membership_required (en_registry e) cid True
        \<and> door_answered e rb (person_key (s_subject sess)) Memberships_Door b
        \<and> db_subject_key b = person_key (s_subject sess)
        \<and> one_membership (db_memberships b) hint out
        \<and> asked_about e rb (person_key (s_subject sess)) w w'
        \<and> (mo = At_Refresh \<or> s_directory_issuer sess = [] \<or> s_directory_guest sess \<longrightarrow>
             asked_at {Claims_Door, Memberships_Door} w w'))"
proof (cases "en_register e")
  case (Some rb)
  let ?key = "person_key (s_subject sess)"
  show ?thesis
  proof (cases "membership_required (en_registry e) cid True")
    case True
    obtain ms u ms' where q: "ask_memberships e rb ?key w = (Inr ms, u)" "admit_directory e rb sess mo ms u = (Inr ms', w')"
      and o: "one_membership ms' hint out"
      using assms Some True by (auto simp: user_scopes_def andthen_Inr dest!: outcome_of_Inr)
    have "asked_about e rb ?key w w'"
      using ask_memberships_about[OF q(1)] admit_directory_Inr(1)[OF q(2)] asked_transp[of e rb ?key] by (blast dest: transpD)
    moreover have "\<exists>b. door_answered e rb ?key Memberships_Door b \<and> db_subject_key b = ?key \<and> ms' = db_memberships b"
      using ask_memberships_Inr[OF q(1)] admit_directory_Inr(2)[OF q(2)] by blast
    moreover have "asked_at {Claims_Door, Memberships_Door} w w'"
      if "mo = At_Refresh \<or> s_directory_issuer sess = [] \<or> s_directory_guest sess"
      using ask_memberships_at[OF q(1)] admit_directory_Inr(3)[OF q(2)] that by auto
    ultimately show ?thesis using Some True o by blast
  qed (use assms Some in \<open>simp add: user_scopes_def\<close>)
qed (use assms in \<open>simp add: user_scopes_def\<close>)

section \<open>What a person's token may carry\<close>

lemma no_admission:
  "asked_at {Claims_Door, Memberships_Door} w w' \<Longrightarrow> \<exists>new. wo_calls w' = wo_calls w @ new \<and> Admissions_Door \<notin> dc_door ` set new"
  unfolding asked_at_def by blast

text \<open>
  C12. A person's token carries either the sign-in client's own baseline, when its people need no
  membership, and then the register is asked nothing; or exactly one membership's scopes and tenant
  out of the register's answer about that very person, the one named when one was named and the only
  one when none was; or, when there are several and none was named, no scopes, no tenant and the
  organisations to choose from. It never joins two memberships' scopes. A refresh, a card sign-in and
  a directory's guest are never offered to the admission door.
\<close>

theorem person_scopes_from_one_membership:
  assumes "user_scopes e sess cid hint mo w = (Inr out, w')"
  shows "(en_register e = None \<or> \<not> membership_required (en_registry e) cid True) \<and> out = baseline (en_registry e) cid \<and> w' = w
    \<or> (\<exists>rb b. en_register e = Some rb \<and> membership_required (en_registry e) cid True
        \<and> door_answered e rb (person_key (s_subject sess)) Memberships_Door b
        \<and> db_subject_key b = person_key (s_subject sess)
        \<and> ((\<exists>m\<in>set (db_memberships b). uo_scopes out = m_scopes m \<and> uo_tenant out = m_tenant m \<and> uo_choices out = []
                \<and> (if hint = [] then db_memberships b = [m] else m_tenant m = hint))
            \<or> hint = [] \<and> 2 \<le> length (db_memberships b) \<and> uo_scopes out = [] \<and> uo_tenant out = []
                \<and> uo_choices out = map m_tenant (db_memberships b))
        \<and> (mo = At_Refresh \<or> s_directory_issuer sess = [] \<or> s_directory_guest sess \<longrightarrow>
             (\<exists>new. wo_calls w' = wo_calls w @ new \<and> Admissions_Door \<notin> dc_door ` set new)))"
proof (rule disjE[OF user_scopes_Inr[OF assms]], rule disjI1, assumption, rule disjI2, elim exE conjE)
  fix rb b
  assume r: "en_register e = Some rb" "membership_required (en_registry e) cid True"
    "door_answered e rb (person_key (s_subject sess)) Memberships_Door b" "db_subject_key b = person_key (s_subject sess)"
    and one: "one_membership (db_memberships b) hint out"
    and at: "mo = At_Refresh \<or> s_directory_issuer sess = [] \<or> s_directory_guest sess \<longrightarrow> asked_at {Claims_Door, Memberships_Door} w w'"
  show "\<exists>rb b. en_register e = Some rb \<and> membership_required (en_registry e) cid True
        \<and> door_answered e rb (person_key (s_subject sess)) Memberships_Door b
        \<and> db_subject_key b = person_key (s_subject sess)
        \<and> ((\<exists>m\<in>set (db_memberships b). uo_scopes out = m_scopes m \<and> uo_tenant out = m_tenant m \<and> uo_choices out = []
                \<and> (if hint = [] then db_memberships b = [m] else m_tenant m = hint))
            \<or> hint = [] \<and> 2 \<le> length (db_memberships b) \<and> uo_scopes out = [] \<and> uo_tenant out = []
                \<and> uo_choices out = map m_tenant (db_memberships b))
        \<and> (mo = At_Refresh \<or> s_directory_issuer sess = [] \<or> s_directory_guest sess \<longrightarrow>
             (\<exists>new. wo_calls w' = wo_calls w @ new \<and> Admissions_Door \<notin> dc_door ` set new))"
    using r one[unfolded one_membership_def] at no_admission[of w w'] by (intro exI[of _ rb] exI[of _ b] conjI) simp_all
qed

lemmas run_membership = run_register user_scopes_def ask_memberships_def admit_directory_def outcome_of_def
  choose_membership_def baseline_def register_unavailable_def service_account_scopes_def intersect_scopes_def

definition example_session :: session where
  "example_session = empty_session\<lparr>s_subject := ''p1'', s_name := ''Anna'', s_serial_number := ''PNOLV-1'', s_loa := ''high'',
     s_login_method := ''webEid'', s_client_id := ''shop-app'', s_tenant := ''t1'', s_thumbprint := ''jkt'',
     s_expires_at := example_now + 3600 * second, s_refresh_key := ''key'', s_sid := ''sid''\<rparr>"

lemma example_rows:
  "map_of (sign_ins example_registry) ''shop-app'' = Some (sign_in_clients example_document ! 0)"
  "map_of (sign_ins example_registry) ''assistant-app'' = Some (sign_in_clients example_document ! 1)"
  "map_of (sign_ins example_registry) ''portal-app'' = Some (sign_in_clients example_document ! 2)"
  "map_of (clients example_registry) ''edge'' = Some (service_clients example_document ! 0)"
  "map_of (secrets example_registry) ''edge'' = Some ''secret of edge''"
  "map_of (secrets example_registry) ''shop-app'' = Some ''secret of shop-app''"
  by (simp_all add: example_registry_def example_document_def)

lemmas example_row_defs = example_document_def client_confidential_def client_public_def kind_ai_app_def

lemma example_outcome:
  "fst (user_scopes staff_env example_session ''shop-app'' [] At_Refresh (example_world []))
     = Inr \<lparr>uo_scopes = [''staff:lead'', ''orders/list:read''], uo_tenant = ''t1'', uo_choices = []\<rparr>"
  by (simp add: run_membership example_defs membership_required_def example_rows example_row_defs example_session_def
      empty_session_def staff_def)

theorem person_scopes_from_one_membership_witness:
  "\<exists>w rb b. user_scopes staff_env example_session ''shop-app'' [] At_Refresh (example_world [])
       = (Inr \<lparr>uo_scopes = [''staff:lead'', ''orders/list:read''], uo_tenant = ''t1'', uo_choices = []\<rparr>, w)
     \<and> en_register staff_env = Some rb \<and> door_answered staff_env rb (person_key ''p1'') Memberships_Door b"
proof -
  define out w where "out = \<lparr>uo_scopes = [''staff:lead'', ''orders/list:read''], uo_tenant = ''t1'', uo_choices = []\<rparr>"
    and "w = snd (user_scopes staff_env example_session ''shop-app'' [] At_Refresh (example_world []))"
  have run: "user_scopes staff_env example_session ''shop-app'' [] At_Refresh (example_world []) = (Inr out, w)"
    unfolding out_def w_def by (rule ran[OF example_outcome])
  have req: "membership_required (en_registry staff_env) ''shop-app'' True" and reg: "en_register staff_env = Some staff_register"
    by (simp_all add: membership_required_def example_defs example_rows example_row_defs)
  have sub: "person_key (s_subject example_session) = person_key ''p1''" by (simp add: example_session_def)
  from person_scopes_from_one_membership[OF run] obtain rb b where "en_register staff_env = Some rb"
    "door_answered staff_env rb (person_key ''p1'') Memberships_Door b"
    using req reg unfolding sub by (elim disjE conjE exE) simp_all
  with run show ?thesis unfolding out_def by (intro exI conjI)
qed

end
