(* ===== verification/Store_Frames.thy ===== *)
theory Store_Frames
  imports Membership
begin

text \<open>
  What a handler leaves as it was in the session store: the frame lemmas the token and revocation
  handlers share. An action either never touches the store, or touches it through one operation,
  whose outcome (\<open>Session_Spec\<close>) says which part of the view it changes.
\<close>

section \<open>Actions that leave the store alone\<close>

definition storeless :: "('c world, 'e, 'a) act \<Rightarrow> bool" where
  "storeless m \<longleftrightarrow> keeps (\<lambda>w w'. wo_store w' = wo_store w) m"

lemma same_store_reflp: "reflp (\<lambda>w w'. wo_store w' = wo_store w)"
  by (simp add: reflp_def)

lemma same_store_transp: "transp (\<lambda>w w'. wo_store w' = wo_store w)"
  by (simp add: transp_def)

named_theorems storeless_intros \<open>actions that never touch the session store\<close>

lemma storelessD: "storeless m \<Longrightarrow> m w = (r, w') \<Longrightarrow> wo_store w' = wo_store w"
  unfolding storeless_def by (rule keepsD)

lemma storelessI: "(\<And>w r w'. m w = (r, w') \<Longrightarrow> wo_store w' = wo_store w) \<Longrightarrow> storeless m"
  unfolding storeless_def by (rule keepsI)

lemma storeless_steps [storeless_intros]:
  "storeless (ret x)" "storeless (stop x')" "storeless (refuse p)" "storeless (guard b p)" "storeless (need_field rq k)"
  "storeless (record_event ev)" "storeless (set_header k v)" "storeless (store_refusal err)" "storeless (random_token e n)"
  by (auto simp: storeless_def keeps_def refuse_def guard_def need_field_def set_header_def store_refusal_def
      split: option.splits)

lemma storeless_andthen [storeless_intros]:
  "storeless m \<Longrightarrow> (\<And>x. storeless (f x)) \<Longrightarrow> storeless (andthen m f)"
  unfolding storeless_def by (rule keeps_andthen[OF same_store_transp])

lemma storeless_recover [storeless_intros]:
  "storeless m \<Longrightarrow> (\<And>x. storeless (h x)) \<Longrightarrow> storeless (recover m h)"
  unfolding storeless_def by (rule keeps_recover[OF same_store_transp])

lemma storeless_from [storeless_intros]:
  "(\<And>x. storeless (h x)) \<Longrightarrow> storeless (from_sum r h)" "storeless n \<Longrightarrow> storeless (from_option m n)"
  unfolding storeless_def by (simp_all add: keeps_from_sum[OF same_store_reflp] keeps_from_option[OF same_store_reflp])

lemma storeless_if [storeless_intros]:
  "(b \<Longrightarrow> storeless m) \<Longrightarrow> (\<not> b \<Longrightarrow> storeless n) \<Longrightarrow> storeless (if b then m else n)"
  by simp

lemma storeless_oauth_error [storeless_intros]: "storeless (oauth_error s c)"
  unfolding oauth_error_def no_store_def by (intro storeless_intros)

text \<open>Asking the register never touches the store.\<close>

lemma storeless_asking:
  "keeps (asked_about e rb key) m \<Longrightarrow> storeless m"
  unfolding storeless_def keeps_def by (blast dest: asked_keeps_store)

lemma storeless_user_scopes [storeless_intros]: "storeless (user_scopes e sess cid hint mo)"
  unfolding user_scopes_def admit_directory_def outcome_of_def ask_memberships_def register_unavailable_def
  by (cases "en_register e")
    (auto intro!: storeless_intros storeless_asking[OF memberships_asks] storeless_asking[OF admit_asks] split: prod.splits)

lemma storeless_service_scopes [storeless_intros]: "storeless (service_account_scopes e cid tenant allowed)"
  unfolding service_account_scopes_def ask_memberships_def register_unavailable_def
  by (cases "en_register e") (auto intro!: storeless_intros storeless_asking[OF memberships_asks])

lemma storeless_client_auth [storeless_intros]: "storeless (authenticate_sign_in_request e rq cid)"
  unfolding authenticate_sign_in_request_def client_secret_def
  by (auto intro!: storeless_intros split: prod.splits option.splits)

section \<open>Actions that leave a part of the view as it was\<close>

text \<open>The view of the store a handler's run works on, at the one time the run reads.\<close>

definition sees :: "(time \<Rightarrow> 'c \<Rightarrow> view) \<Rightarrow> 'c env \<Rightarrow> 'c world \<Rightarrow> view" where
  "sees V e w = V (en_now e) (wo_store w)"

definition leaves :: "(time \<Rightarrow> 'c \<Rightarrow> view) \<Rightarrow> 'c env \<Rightarrow> (view \<Rightarrow> 'b) \<Rightarrow> ('c world, 'e, 'a) act \<Rightarrow> bool" where
  "leaves V e F m \<longleftrightarrow> keeps (\<lambda>w w'. F (sees V e w') = F (sees V e w)) m"

named_theorems leaves_intros \<open>actions that leave a part of the view as it was\<close>

lemma leavesD: "leaves V e F m \<Longrightarrow> m w = (r, w') \<Longrightarrow> F (sees V e w') = F (sees V e w)"
  unfolding leaves_def by (rule keepsD)

lemma leaves_storeless: "storeless m \<Longrightarrow> leaves V e F m"
  by (simp add: leaves_def storeless_def keeps_def sees_def)

lemma leaves_andthen [leaves_intros]:
  "leaves V e F m \<Longrightarrow> (\<And>x. leaves V e F (f x)) \<Longrightarrow> leaves V e F (andthen m f)"
  unfolding leaves_def by (rule keeps_andthen) (simp_all add: transp_def)

lemma leaves_recover [leaves_intros]:
  "leaves V e F m \<Longrightarrow> (\<And>x. leaves V e F (h x)) \<Longrightarrow> leaves V e F (recover m h)"
  unfolding leaves_def by (rule keeps_recover) (simp_all add: transp_def)

lemma leaves_if [leaves_intros]:
  "(b \<Longrightarrow> leaves V e F m) \<Longrightarrow> (\<not> b \<Longrightarrow> leaves V e F n) \<Longrightarrow> leaves V e F (if b then m else n)"
  by simp

text \<open>An operation whose outcome never changes a part of the view leaves it, answered or not.\<close>

lemma refines_frame:
  assumes "refines V m S" "\<And>v r v'. S v r v' \<Longrightarrow> F v' = F v" "m c = (r, c')"
  shows "F (V c') = F (V c)"
  using assms unfolding refines_def by metis

lemma leaves_stored:
  assumes "refines (V (en_now e)) (op (en_now e)) S" "\<And>v r v'. S v r v' \<Longrightarrow> F v' = F v"
  shows "leaves V e F (stored e op)"
  unfolding leaves_def
proof (rule keepsI)
  fix w r w' assume "stored e op w = (r, w')"
  then obtain c where "op (en_now e) (wo_store w) = (r, c)" "w' = w\<lparr>wo_store := c\<rparr>"
    by (auto simp: stored_def split: prod.splits)
  then show "F (sees V e w') = F (sees V e w)"
    using refines_frame[of "V (en_now e)" "op (en_now e)" S F, OF assms] by (simp add: sees_def)
qed

context session_store begin

lemma leaves_ops [leaves_intros]:
  assumes "0 \<le> en_now e"
  shows "leaves V e v_codes (stored e (op_load_session ops sid))"
    "leaves V e v_codes (stored e (op_save_refresh ops k g till))"
    "leaves V e v_codes (stored e (op_replace_session ops sid s))"
    "leaves V e F (stored e (op_load_session ops sid))"
    "leaves V e F (stored e (op_load_refresh ops k))"
    "leaves V e F (stored e (op_load_shared ops i))"
    "leaves V e v_sessions (stored e (op_save_refresh ops k g till))"
    "leaves V e v_sessions (stored e (op_take_refresh ops k))"
    "leaves V e v_sessions (stored e (op_delete_refresh ops k))"
    "leaves V e v_refresh (stored e (op_replace_session ops sid s))"
    "leaves V e v_refresh (stored e (op_delete_session ops sid))"
    "0 < life \<Longrightarrow> leaves V e v_refresh (stored e (op_create_session ops sid s life))"
proof -
  show "leaves V e v_codes (stored e (op_load_session ops sid))"
    by (rule leaves_stored[where V = V and e = e and op = "op_load_session ops sid", OF load_session[OF assms]]) (auto simp: spec_defs)
  show "leaves V e v_codes (stored e (op_save_refresh ops k g till))"
    by (rule leaves_stored[where V = V and e = e and op = "op_save_refresh ops k g till", OF save_refresh[OF assms]]) (auto simp: spec_defs split: if_splits)
  show "leaves V e v_codes (stored e (op_replace_session ops sid s))"
    by (rule leaves_stored[where V = V and e = e and op = "op_replace_session ops sid s", OF replace_session[OF assms]]) (auto simp: spec_defs split: if_splits)
  show "leaves V e F (stored e (op_load_session ops sid))"
    by (rule leaves_stored[where V = V and e = e and op = "op_load_session ops sid", OF load_session[OF assms]]) (auto simp: spec_defs)
  show "leaves V e F (stored e (op_load_refresh ops k))"
    by (rule leaves_stored[where V = V and e = e and op = "op_load_refresh ops k", OF load_refresh[OF assms]]) (auto simp: spec_defs)
  show "leaves V e F (stored e (op_load_shared ops i))"
    by (rule leaves_stored[where V = V and e = e and op = "op_load_shared ops i", OF load_shared[OF assms]]) (auto simp: spec_defs)
  show "leaves V e v_sessions (stored e (op_save_refresh ops k g till))"
    by (rule leaves_stored[where V = V and e = e and op = "op_save_refresh ops k g till", OF save_refresh[OF assms]]) (auto simp: spec_defs split: if_splits)
  show "leaves V e v_sessions (stored e (op_take_refresh ops k))"
    by (rule leaves_stored[where V = V and e = e and op = "op_take_refresh ops k", OF take_refresh[OF assms]]) (auto simp: spec_defs split: option.splits)
  show "leaves V e v_sessions (stored e (op_delete_refresh ops k))"
    by (rule leaves_stored[where V = V and e = e and op = "op_delete_refresh ops k", OF delete_refresh[OF assms]]) (auto simp: spec_defs)
  show "leaves V e v_refresh (stored e (op_replace_session ops sid s))"
    by (rule leaves_stored[where V = V and e = e and op = "op_replace_session ops sid s", OF replace_session[OF assms]]) (auto simp: spec_defs split: if_splits)
  show "leaves V e v_refresh (stored e (op_delete_session ops sid))"
    by (rule leaves_stored[where V = V and e = e and op = "op_delete_session ops sid", OF delete_session[OF assms]]) (auto simp: spec_defs)
  show "leaves V e v_refresh (stored e (op_create_session ops sid s life))" if "0 < life"
    by (rule leaves_stored[where V = V and e = e and op = "op_create_session ops sid s life", OF create_session[OF assms that]]) (auto simp: spec_defs Let_def split: if_splits)
qed

end

end
