(* ===== verification/Code_Grant.thy ===== *)
theory Code_Grant
  imports Store_Frames
begin

text \<open>
  The two user grants of the token endpoint, from \<open>src/routes/token.go\<close> and
  \<open>src/routes/refresh.go\<close>: exchanging an application code for a key-bound token and a refresh
  token, and renewing within the session the refresh token names.
\<close>

definition refresh_token_bytes :: nat where "refresh_token_bytes = 32"
definition token_type_dpop :: string where "token_type_dpop = ''DPoP''"

text \<open>The user token of a session for a sign-in client, with the personal claims its row lists.\<close>

definition user_input :: "sign_in_client \<Rightarrow> session \<Rightarrow> membership_outcome \<Rightarrow> string \<Rightarrow> user_token_input" where
  "user_input c sess out thumbprint =
     \<lparr>ut_subject = s_subject sess, ut_audience = si_audience c, ut_scopes = uo_scopes out, ut_loa = s_loa sess,
      ut_login_method = s_login_method sess, ut_name = listed_claim c claim_name (s_name sess),
      ut_given_name = listed_claim c claim_given_name (s_given_name sess),
      ut_family_name = listed_claim c claim_family_name (s_family_name sess),
      ut_serial_number = listed_claim c claim_serial_number (s_serial_number sess),
      ut_tenant = uo_tenant out, ut_thumbprint = thumbprint, ut_client_id = si_id c\<rparr>"

definition mint_user :: "'c env \<Rightarrow> user_token_input \<Rightarrow> ('c, string \<times> int) handler" where
  "mint_user e u =
     andthen (random_token e 16) (\<lambda>jti.
     from_option (issue_user (en_crypto e) (en_issuer e) (en_now e) jti u) (refuse Internal))"

definition bound_session :: "session \<Rightarrow> string \<Rightarrow> string \<Rightarrow> membership_outcome \<Rightarrow> string \<Rightarrow> session" where
  "bound_session sess cid thumbprint out key =
     sess\<lparr>s_thumbprint := thumbprint, s_client_id := cid, s_tenant := uo_tenant out, s_refresh_key := key\<rparr>"

definition sign_in_id_token :: "'c env \<Rightarrow> sign_in_client \<Rightarrow> session \<Rightarrow> app_code \<Rightarrow> ('c, string) handler" where
  "sign_in_id_token e c sess ac =
     (if ac_openid ac then
        from_option (issue_id (en_crypto e) (en_issuer e) (en_now e)
          \<lparr>it_subject = s_subject sess, it_client_id = si_id c, it_nonce = ac_nonce ac, it_auth_time = s_auth_time sess,
           it_acr = s_login_method sess, it_amr = s_amr sess, it_sid = s_sid sess\<rparr>) (refuse Internal)
      else ret [])"

definition token_issued :: "session \<Rightarrow> sign_in_client \<Rightarrow> membership_outcome \<Rightarrow> ('c, unit) handler" where
  "token_issued sess c out =
     record_event (User_Token_Issued (s_subject sess) (s_loa sess) (s_login_method sess) (si_audience c) (uo_scopes out))"

definition grant_authorization_code :: "'c env \<Rightarrow> request \<Rightarrow> string \<Rightarrow> ('c, reply) handler" where
  "grant_authorization_code e rq thumbprint =
     andthen (need_field rq ''code'') (\<lambda>code.
     andthen (need_field rq ''code_verifier'') (\<lambda>verifier.
     andthen (need_field rq ''client_id'') (\<lambda>cid.
     andthen (need_field rq ''redirect_uri'') (\<lambda>uri.
     andthen (authenticate_sign_in_request e rq cid) (\<lambda>c.
     andthen (recover (stored e (op_consume_app_code (en_ops e) code)) (\<lambda>_. refuse Unauthorized)) (\<lambda>ac.
     andthen (guard (ac_client_id ac = cid \<and> ac_redirect_uri ac = uri) Unauthorized) (\<lambda>_.
     andthen (guard (verify_pkce (en_crypto e) verifier (ac_code_challenge ac) (ac_code_challenge_method ac)) Unauthorized) (\<lambda>_.
     andthen (recover (stored e (op_load_session (en_ops e) (ac_session_id ac))) (\<lambda>_. refuse Unauthorized)) (\<lambda>sess.
     andthen (user_scopes e sess cid (ac_tenant ac) At_Sign_In) (\<lambda>out.
     andthen (random_token e refresh_token_bytes) (\<lambda>refresh.
     let key = refresh_key (en_crypto e) refresh; sess' = bound_session sess cid thumbprint out key in
     andthen (recover (stored e (op_save_refresh (en_ops e) key
         \<lparr>rg_session = ac_session_id ac, rg_client = cid, rg_rotated = False\<rparr> (s_expires_at sess))) store_refusal) (\<lambda>_.
     andthen (recover (stored e (op_replace_session (en_ops e) (ac_session_id ac) sess')) store_refusal) (\<lambda>_.
     andthen (mint_user e (user_input c sess' out thumbprint)) (\<lambda>(tok, secs).
     andthen (sign_in_id_token e c sess' ac) (\<lambda>idtok.
     andthen (token_issued sess' c out) (\<lambda>_.
     ret (Token_Reply ((plain_token tok token_type_dpop secs)
       \<lparr>tk_refresh := refresh, tk_id := idtok, tk_tenants := uo_choices out, tk_capabilities := s_capabilities sess'\<rparr>))))))))))))))))))"

text \<open>Following a refresh token to the session it renews, for the client it was issued to, and for the
  key that session is bound to.\<close>

definition refreshed_session :: "'c env \<Rightarrow> string \<Rightarrow> string \<Rightarrow> ('c, session \<times> string) handler" where
  "refreshed_session e token cid =
     andthen (recover (stored e (op_load_refresh (en_ops e) (refresh_key (en_crypto e) token))) store_refusal) (\<lambda>g.
     andthen (guard (\<not> (rg_client g = [] \<or> rg_client g \<noteq> cid)) Unauthorized) (\<lambda>_.
     andthen (recover (stored e (op_load_session (en_ops e) (rg_session g))) store_refusal) (\<lambda>sess.
     ret (sess, rg_session g))))"

definition refresh_bound_session :: "'c env \<Rightarrow> string \<Rightarrow> string \<Rightarrow> string \<Rightarrow> ('c, session \<times> string) handler" where
  "refresh_bound_session e token cid thumbprint =
     andthen (refreshed_session e token cid) (\<lambda>(sess, sid).
     andthen (guard (\<not> (s_thumbprint sess = [] \<or> s_thumbprint sess \<noteq> thumbprint)) Unauthorized) (\<lambda>_.
     ret (sess, sid)))"

definition grant_refresh_token :: "'c env \<Rightarrow> request \<Rightarrow> string \<Rightarrow> ('c, reply) handler" where
  "grant_refresh_token e rq thumbprint =
     andthen (need_field rq ''refresh_token'') (\<lambda>refresh.
     andthen (need_field rq ''client_id'') (\<lambda>cid.
     andthen (authenticate_sign_in_request e rq cid) (\<lambda>c.
     andthen (refresh_bound_session e refresh cid thumbprint) (\<lambda>(sess, sid).
     andthen (user_scopes e sess (s_client_id sess) (s_tenant sess) At_Refresh) (\<lambda>out.
     andthen (mint_user e (user_input c sess out thumbprint)) (\<lambda>(tok, secs).
     andthen (token_issued sess c out) (\<lambda>_.
     ret (Token_Reply ((plain_token tok token_type_dpop secs)
       \<lparr>tk_refresh := refresh, tk_tenants := uo_choices out\<rparr>)))))))))"

section \<open>What the grants rest on\<close>

lemma mint_user_Inr [act_simps]:
  "mint_user e u w = (Inr p, w') \<longleftrightarrow>
     issue_user (en_crypto e) (en_issuer e) (en_now e) (raw_url_encode (en_rand e (wo_draws w) 16)) u = Some p
     \<and> w' = w\<lparr>wo_draws := Suc (wo_draws w)\<rparr>"
  by (auto simp: mint_user_def act_simps)

lemma storeless_mint_user [storeless_intros]: "storeless (mint_user e u)"
  unfolding mint_user_def by (intro storeless_intros)

lemma storeless_id_token [storeless_intros]: "storeless (sign_in_id_token e c sess ac)"
  unfolding sign_in_id_token_def by (intro storeless_intros)

lemma token_issued_Inr [act_simps]:
  "token_issued sess c out w = (Inr u, w') \<longleftrightarrow>
     w' = w\<lparr>wo_events := wo_events w @ [User_Token_Issued (s_subject sess) (s_loa sess) (s_login_method sess) (si_audience c) (uo_scopes out)]\<rparr>"
  by (auto simp: token_issued_def act_simps)

lemma storeless_token_issued [storeless_intros]: "storeless (token_issued sess c out)"
  unfolding token_issued_def by (intro storeless_intros)

lemma sign_in_id_token_same: "sign_in_id_token e c sess ac w = (Inr t, w') \<Longrightarrow> w' = w"
  by (auto simp: sign_in_id_token_def act_simps split: if_splits)

lemma sees_update [simp]:
  "sees V e (w\<lparr>wo_draws := n\<rparr>) = sees V e w" "sees V e (w\<lparr>wo_events := ev\<rparr>) = sees V e w"
  "sees V e (w\<lparr>wo_store := c\<rparr>) = V (en_now e) c" "sees V e (w\<lparr>wo_seen := sn\<rparr>) = sees V e w"
  "sees V e (w\<lparr>wo_headers := hs\<rparr>) = sees V e w" "sees V e (w\<lparr>wo_cookies := ck\<rparr>) = sees V e w"
  by (simp_all add: sees_def)

lemma stored_or_refused [act_simps]:
  "recover (stored e op) store_refusal w = (Inr x, w') \<longleftrightarrow> stored e op w = (Inr x, w')"
  "recover (stored e op) (\<lambda>_. refuse p) w = (Inr x, w') \<longleftrightarrow> stored e op w = (Inr x, w')"
  by (auto simp: recover_Inr act_simps)

text \<open>The first half of the exchange, up to the scopes the session may carry.\<close>

definition exchange_starts :: "(time \<Rightarrow> 'c \<Rightarrow> view) \<Rightarrow> 'c env \<Rightarrow> request \<Rightarrow> 'c world \<Rightarrow> string \<Rightarrow> sign_in_client \<Rightarrow> app_code \<Rightarrow> session \<Rightarrow> bool" where
  "exchange_starts V e rq w code c ac sess \<longleftrightarrow>
     rq_string rq ''code'' = Some code
     \<and> rq_string rq ''client_id'' = Some (ac_client_id ac) \<and> rq_string rq ''redirect_uri'' = Some (ac_redirect_uri ac)
     \<and> (\<exists>verifier. rq_string rq ''code_verifier'' = Some verifier
          \<and> raw_url_encode (cr_sha256 (en_crypto e) verifier) = ac_code_challenge ac)
     \<and> ac_code_challenge_method ac = ''S256''
     \<and> sign_in_client_of (en_registry e) (ac_client_id ac) = Some c
     \<and> (if si_type c = client_public then presents rq (ac_client_id ac) None
        else \<exists>s. presents rq (ac_client_id ac) (Some s) \<and> s \<noteq> [] \<and> map_of (secrets (en_registry e)) (ac_client_id ac) = Some s)
     \<and> v_codes (sees V e w) code = Some ac
     \<and> v_sessions (sees V e w) (ac_session_id ac) = Some sess \<and> \<not> session_expired sess (en_now e)"

lemmas run_handler = act_simps Let_def split_paired_Ex prod.case

lemma exchange_needs_code:
  assumes store: "session_store (en_ops e) V" and now: "0 \<le> en_now e"
    and run: "grant_authorization_code e rq jkt w = (Inr r, w')"
  shows "\<exists>code c ac sess. exchange_starts V e rq w code c ac sess"
  using run[unfolded grant_authorization_code_def, simplified run_handler, simplified]
proof (elim exE conjE, goal_cases)
  case (1 code verifier cid uri c ac w1 c1 sess w2 c2)
  have "exchange_starts V e rq w code c ac sess"
    using 1(1-7,10,11) session_store.consumed_code[OF store now 1(8)] session_store.loaded_session[OF store now 1(12)] 1(9)
    by (simp add: exchange_starts_def verify_pkce_def pkce_s256_def sees_def)
  then show ?case by blast
qed

text \<open>
  C1. An application code buys a token only from the client it was issued to, authenticated, with the
  redirect URI and the PKCE verifier it was issued for, and while its session lives. The exchange takes
  the code away, saves one refresh grant for that client and session under the hash of the refresh token
  it answers, binds the session to the proven key, and changes nothing else in the store; the access
  token is minted for the session as it then stands, bound to that key, with the scopes of the one
  membership chosen. No client, row, register answer or missing field makes it answer otherwise.
\<close>

theorem code_exchange_binds_the_session:
  assumes store: "session_store (en_ops e) V" and now: "0 \<le> en_now e"
    and run: "grant_authorization_code e rq jkt w = (Inr r, w')"
  shows "\<exists>code c ac sess out u v refresh t.
     exchange_starts V e rq w code c ac sess
     \<and> user_scopes e sess (ac_client_id ac) (ac_tenant ac) At_Sign_In u = (Inr out, v)
     \<and> r = Token_Reply t \<and> tk_refresh t = refresh \<and> tk_type t = ''DPoP'' \<and> tk_tenants t = uo_choices out
     \<and> (let key = refresh_key (en_crypto e) refresh;
            sess' = bound_session sess (ac_client_id ac) jkt out key
        in (\<exists>jti. issue_user (en_crypto e) (en_issuer e) (en_now e) jti (user_input c sess' out jkt) = Some (tk_access t, tk_expires_in t))
         \<and> sees V e w' = (sees V e w)
             \<lparr>v_codes := (v_codes (sees V e w))(code := None),
              v_refresh := (v_refresh (sees V e w))(key \<mapsto> \<lparr>rg_session = ac_session_id ac, rg_client = ac_client_id ac, rg_rotated = False\<rparr>),
              v_sessions := (v_sessions (sees V e w))(ac_session_id ac \<mapsto> sess')\<rparr>)"
using run[unfolded grant_authorization_code_def, simplified run_handler, simplified]
proof (elim exE conjE, goal_cases)
  case (1 code verifier cid uri c ac w1 c1 sess w2 c2 out v w3 c3 w4 c4 tok secs idtok w5)
  let ?refresh = "raw_url_encode (en_rand e (wo_draws v) refresh_token_bytes)"
  let ?key = "refresh_key (en_crypto e) ?refresh"
  let ?sess = "bound_session sess cid jkt out ?key"
  note take = session_store.consumed_code[OF store now 1(8)]
  note load = session_store.loaded_session[OF store now 1(12)]
  have v: "wo_store v = c2" using storelessD[OF storeless_user_scopes 1(14)] 1(13) by simp
  note save = session_store.saved_refresh[OF store now 1(15)]
  note repl = session_store.replaced_session[OF store now 1(17)]
  have view: "sees V e w' = (sees V e w)
       \<lparr>v_codes := (v_codes (sees V e w))(code := None),
        v_refresh := (v_refresh (sees V e w))(?key \<mapsto> \<lparr>rg_session = ac_session_id ac, rg_client = cid, rg_rotated = False\<rparr>),
        v_sessions := (v_sessions (sees V e w))(ac_session_id ac \<mapsto> ?sess)\<rparr>"
    using sign_in_id_token_same[OF 1(20)] take load save repl v 1(9,13,16,18) unfolding 1(22)[symmetric] by (simp add: sees_def)
  have starts: "exchange_starts V e rq w code c ac sess"
    using 1(1-7,10,11) take load 1(9) by (simp add: exchange_starts_def verify_pkce_def pkce_s256_def sees_def)
  show ?case
    using starts 1(14,19) view 1(7)
    by (intro exI[of _ code] exI[of _ c] exI[of _ ac] exI[of _ sess] exI[of _ out] exI[of _ w2] exI[of _ v] exI[of _ ?refresh])
      (auto simp: Let_def 1(21)[symmetric] plain_token_def token_type_dpop_def)
qed

text \<open>Whatever follows, a code that was looked for is gone once the store answered.\<close>

lemma looked_for_code_is_gone:
  assumes store: "session_store (en_ops e) V" and now: "0 \<le> en_now e"
    and up: "fst (op_consume_app_code (en_ops e) code (en_now e) (wo_store w)) \<noteq> Inl Unavailable"
    and run: "andthen (recover (stored e (op_consume_app_code (en_ops e) code)) (\<lambda>_. refuse p)) f w = (res, w')"
    and f: "\<And>ac. leaves V e v_codes (f ac)"
  shows "v_codes (sees V e w') code = None"
proof -
  obtain q c where take: "op_consume_app_code (en_ops e) code (en_now e) (wo_store w) = (q, c)" by fastforce
  have gone: "v_codes (V (en_now e) c) code = None"
  proof (cases q)
    case (Inl x)
    then show ?thesis
      using refines_Inl[OF session_store.consume_app_code[OF store now] take[unfolded Inl]] up take
      by (auto simp: spec_defs split: option.splits)
  next
    case (Inr x)
    then show ?thesis
      using session_store.consumed_code[OF store now take[unfolded Inr]] by simp
  qed
  show ?thesis
  proof (cases q)
    case (Inl x)
    then show ?thesis
      using run take gone by (auto simp: recover_def stored_def refuse_def andthen_def sees_def)
  next
    case (Inr x)
    then have "f x (w\<lparr>wo_store := c\<rparr>) = (res, w')"
      using run take by (simp add: recover_def stored_def andthen_def)
    from leavesD[OF f this] gone show ?thesis by simp
  qed
qed

lemma exchanged_code_is_gone:
  assumes store: "session_store (en_ops e) V" and now: "0 \<le> en_now e"
    and fields: "rq_string rq ''code'' = Some code" "rq_string rq ''code_verifier'' = Some verifier"
      "rq_string rq ''client_id'' = Some cid" "rq_string rq ''redirect_uri'' = Some uri"
    and auth: "authenticate_sign_in_request e rq cid w = (Inr c, w)"
    and up: "fst (op_consume_app_code (en_ops e) code (en_now e) (wo_store w)) \<noteq> Inl Unavailable"
    and run: "grant_authorization_code e rq jkt w = (res, w')"
  shows "v_codes (sees V e w') code = None"
  using run unfolding grant_authorization_code_def need_field_def fields option.case andthen_ret(1) andthen_run(2)[where m = "authenticate_sign_in_request e rq cid", OF auth]
  by (rule looked_for_code_is_gone[OF store now up])
    (auto simp: Let_def split_beta intro!: session_store.leaves_ops[OF store now] leaves_intros storeless_intros intro: leaves_storeless)

text \<open>
  C2. An application code is good for one attempt. Once an authenticated client has presented it with the
  other fields, and the store answered, it is gone for good: whatever became of the attempt, a wrong
  verifier or another client's redirect URI included, no later exchange of that code is answered.
\<close>

theorem code_good_for_one_attempt:
  assumes store: "session_store (en_ops e) V" and now: "0 \<le> en_now e"
    and fields: "rq_string rq ''code'' = Some code" "rq_string rq ''code_verifier'' = Some verifier"
      "rq_string rq ''client_id'' = Some cid" "rq_string rq ''redirect_uri'' = Some uri"
    and auth: "authenticate_sign_in_request e rq cid w = (Inr c, w)"
    and up: "fst (op_consume_app_code (en_ops e) code (en_now e) (wo_store w)) \<noteq> Inl Unavailable"
    and run: "grant_authorization_code e rq jkt w = (res, w')"
    and later: "en_ops e' = en_ops e" "en_now e \<le> en_now e'" "wo_store u = wo_store w'" "rq_string rq' ''code'' = Some code"
  shows "\<exists>r. fst (grant_authorization_code e' rq' jkt' u) = Inl r"
proof -
  have "v_codes (V (en_now e) (wo_store w')) code = None"
    using exchanged_code_is_gone[OF store now fields auth up run] by (simp add: sees_def)
  then have gone: "v_codes (V (en_now e') (wo_store u)) code = None"
    using session_store.later[OF store later(2), of "wo_store u"] later(3) by (auto simp: view_le_def map_le_def dom_def)
  have store': "session_store (en_ops e') V" and now': "0 \<le> en_now e'"
    using store now later(1,2) by simp_all
  show ?thesis
  proof (rule ccontr)
    assume "\<nexists>r. fst (grant_authorization_code e' rq' jkt' u) = Inl r"
    then obtain r x where "grant_authorization_code e' rq' jkt' u = (Inr r, x)"
      by (cases "grant_authorization_code e' rq' jkt' u"; cases "fst (grant_authorization_code e' rq' jkt' u)") auto
    from exchange_needs_code[OF store' now' this] gone later(4) show False by (auto simp: exchange_starts_def sees_def)
  qed
qed

section \<open>The grants on an example\<close>

definition example_code :: app_code where
  "example_code = empty_code\<lparr>ac_session_id := ''S1'', ac_code_challenge := raw_url_encode ''verifier'',
     ac_code_challenge_method := ''S256'', ac_client_id := ''shop-app'', ac_redirect_uri := ''https://shop.test/cb''\<rparr>"

definition example_entries :: "(string \<times> entry) list" where
  "example_entries =
     [(''code:C1'', \<lparr>e_value = Code_V example_code, e_expires = example_now + 60 * second\<rparr>),
      (''sess:S1'', \<lparr>e_value = Session_V example_session, e_expires = example_now + 3600 * second\<rparr>),
      (''refresh:'' @ refresh_key (run_crypto []) ''r1'', \<lparr>e_value = Refresh_V \<lparr>rg_session = ''S1'', rg_client = ''shop-app'', rg_rotated = False\<rparr>,
         e_expires = example_now + 3600 * second\<rparr>)]"

definition exchange_form :: request where
  "exchange_form = post_form [(''grant_type'', ''authorization_code''), (''code'', ''C1''), (''code_verifier'', ''verifier''),
     (''client_id'', ''shop-app''), (''client_secret'', ''secret of shop-app''), (''redirect_uri'', ''https://shop.test/cb'')] ''P1''"

definition refresh_form :: request where
  "refresh_form = post_form [(''grant_type'', ''refresh_token''), (''refresh_token'', ''r1''),
     (''client_id'', ''shop-app''), (''client_secret'', ''secret of shop-app'')] ''P1''"

lemmas run_store = mem_consume_app_code_def mem_read_def mem_get_def mem_load_session_def mem_save_refresh_def mem_load_refresh_def
  mem_replace_session_def mem_put_def set_entry_def del_entry_def lookup_live_def live_def time_sub_def session_expired_def
lemmas run_client_auth = authenticate_sign_in_request_def client_secret_def basic_credentials_def authenticate_sign_in_def
  sign_in_client_of_def subtle_mismatch_def equal_fold_def fold_case.simps cut.simps
lemmas run_user_grant = example_rows example_row_defs membership_required_def type_access_token_def run_membership run_store run_client_auth mint_user_def issue_user_def sign_in_id_token_def token_issued_def
  Let_def

lemmas example_grant_defs = example_defs exchange_form_def refresh_form_def example_entries_def staff_def example_code_def
  example_session_def empty_session_def empty_code_def second_def example_now_def of_unix_def

lemma example_exchange:
  "\<exists>t. fst (grant_authorization_code staff_env exchange_form ''jkt'' (example_world example_entries)) = Inr (Token_Reply t)"
  by (simp add: grant_authorization_code_def run_user_grant example_grant_defs verify_pkce_def pkce_s256_def bound_session_def)

lemma example_refresh:
  "\<exists>t. fst (grant_refresh_token staff_env refresh_form ''jkt'' (example_world example_entries)) = Inr (Token_Reply t)"
  by (simp add: grant_refresh_token_def refresh_bound_session_def refreshed_session_def run_user_grant example_grant_defs)

lemma example_now_0: "0 \<le> en_now staff_env"
  by (simp add: example_grant_defs)

lemma example_store: "session_store (en_ops staff_env) memory_view"
  by (simp add: example_defs mem.session_store_axioms)

theorem code_exchange_binds_the_session_witness:
  "\<exists>r w. grant_authorization_code staff_env exchange_form ''jkt'' (example_world example_entries) = (Inr r, w)
     \<and> v_codes (sees memory_view staff_env w) ''C1'' = None"
proof -
  obtain r w where run: "grant_authorization_code staff_env exchange_form ''jkt'' (example_world example_entries) = (Inr r, w)"
    using example_exchange by (auto dest: ran)
  have "rq_string exchange_form ''code'' = Some ''C1''" by (simp add: example_grant_defs)
  with code_exchange_binds_the_session[OF example_store example_now_0 run]
  have "v_codes (sees memory_view staff_env w) ''C1'' = None"
    by (auto simp: exchange_starts_def Let_def)
  with run show ?thesis by blast
qed

theorem code_good_for_one_attempt_witness:
  "\<exists>p r w. grant_authorization_code staff_env (post_form [(''code'', ''C1''), (''code_verifier'', ''guess''),
       (''client_id'', ''portal-app''), (''redirect_uri'', ''elsewhere'')] ''P1'') ''jkt'' (example_world example_entries) = (Inl r, w)
     \<and> fst (grant_authorization_code staff_env exchange_form ''jkt'' w) = Inl p"
proof -
  let ?rq = "post_form [(''code'', ''C1''), (''code_verifier'', ''guess''), (''client_id'', ''portal-app''), (''redirect_uri'', ''elsewhere'')] ''P1''"
  obtain r w where run: "grant_authorization_code staff_env ?rq ''jkt'' (example_world example_entries) = (Inl r, w)"
    by (rule that[OF ran]) (simp add: grant_authorization_code_def run_user_grant example_grant_defs)
  have f: "rq_string ?rq ''code'' = Some ''C1''" "rq_string ?rq ''code_verifier'' = Some ''guess''"
    "rq_string ?rq ''client_id'' = Some ''portal-app''" "rq_string ?rq ''redirect_uri'' = Some ''elsewhere''"
    "rq_string exchange_form ''code'' = Some ''C1''"
    by (simp_all add: example_grant_defs)
  have auth: "authenticate_sign_in_request staff_env ?rq ''portal-app'' (example_world example_entries)
      = (Inr (sign_in_clients example_document ! 2), example_world example_entries)"
    by (simp add: run_client_auth step_defs example_grant_defs example_rows example_row_defs)
  have up: "fst (op_consume_app_code (en_ops staff_env) ''C1'' (en_now staff_env) (wo_store (example_world example_entries))) \<noteq> Inl Unavailable"
    by (simp add: run_store example_grant_defs)
  from code_good_for_one_attempt[OF example_store example_now_0 f(1-4) auth up run refl order_refl refl f(5)] run
  show ?thesis by blast
qed

section \<open>Renewing\<close>

text \<open>
  C3. A refresh token renews a token only for the client it was issued to, which authenticates again,
  only with a proof of the very key its session is bound to, and only while that session lives. The
  scopes are asked for anew, as at no sign-in, for the organisation the session is for. It answers the
  same refresh token and no ID token, and changes nothing in the store.
\<close>

theorem refresh_for_its_client_and_key:
  assumes store: "session_store (en_ops e) V" and now: "0 \<le> en_now e"
    and run: "grant_refresh_token e rq jkt w = (Inr r, w')"
  shows "\<exists>refresh cid c g sess out u v t jti.
     rq_string rq ''refresh_token'' = Some refresh \<and> rq_string rq ''client_id'' = Some cid \<and> cid \<noteq> []
     \<and> authenticate_sign_in_request e rq cid w = (Inr c, w)
     \<and> v_refresh (sees V e w) (refresh_key (en_crypto e) refresh) = Some g \<and> rg_client g = cid
     \<and> v_sessions (sees V e w) (rg_session g) = Some sess \<and> \<not> session_expired sess (en_now e)
     \<and> jkt \<noteq> [] \<and> s_thumbprint sess = jkt
     \<and> user_scopes e sess (s_client_id sess) (s_tenant sess) At_Refresh u = (Inr out, v)
     \<and> r = Token_Reply t \<and> tk_refresh t = refresh \<and> tk_id t = [] \<and> tk_type t = ''DPoP''
     \<and> issue_user (en_crypto e) (en_issuer e) (en_now e) jti (user_input c sess out jkt) = Some (tk_access t, tk_expires_in t)
     \<and> sees V e w' = sees V e w"
  using run[unfolded grant_refresh_token_def refresh_bound_session_def refreshed_session_def, simplified run_handler, simplified]
proof (elim exE conjE, goal_cases)
  case (1 refresh cid c sess sid w2 g w1 c1 out v tok secs c2)
  note grant = session_store.loaded_refresh[OF store now 1(8)]
  note live = session_store.loaded_session[OF store now 1(16)]
  have view: "sees V e w' = sees V e w"
    using storelessD[OF storeless_user_scopes 1(10)] grant live 1(9,17) unfolding 1(15)[symmetric] by (simp add: sees_def)
  have auth: "authenticate_sign_in_request e rq cid w = (Inr c, w)"
    using 1(3,4) by (simp add: authenticate_sign_in_request_Inr)
  show ?case
    by (rule exI[of _ refresh], rule exI[of _ cid], rule exI[of _ c], rule exI[of _ g], rule exI[of _ sess], rule exI[of _ out],
        rule exI[of _ w2], rule exI[of _ v], rule exI, rule exI[of _ "raw_url_encode (en_rand e (wo_draws v) 16)"])
      (use 1(1,2,5-7,10-14) auth view grant live 1(9) in \<open>auto simp: plain_token_def token_type_dpop_def sees_def\<close>)
qed

theorem refresh_for_its_client_and_key_witness:
  "\<exists>t w. grant_refresh_token staff_env refresh_form ''jkt'' (example_world example_entries) = (Inr (Token_Reply t), w)
     \<and> tk_refresh t = ''r1'' \<and> sees memory_view staff_env w = sees memory_view staff_env (example_world example_entries)"
proof -
  obtain t w where run: "grant_refresh_token staff_env refresh_form ''jkt'' (example_world example_entries) = (Inr (Token_Reply t), w)"
    using example_refresh by (auto dest: ran)
  have "rq_string refresh_form ''refresh_token'' = Some ''r1''" by (simp add: example_grant_defs)
  with refresh_for_its_client_and_key[OF example_store example_now_0 run] run show ?thesis by auto
qed

end
