(* ===== verification/App_Grant.thy ===== *)
theory App_Grant
  imports Code_Grant
begin

text \<open>
  AI apps at the token and revocation endpoints, \<open>src/routes/aiapp.go\<close>: the code exchange that makes a
  connection, its refreshes, each good once, the ending of a connection, and the check that a token's
  connection is still live when another service exchanges it.

  A handler of the code that answers \<open>ok = false\<close> has written the answer: here it stops with it.
\<close>

section \<open>The person's assistants and the ending of a connection\<close>

definition is_ai_app :: "'c env \<Rightarrow> string \<Rightarrow> bool" where
  "is_ai_app e cid \<longleftrightarrow> ai_app (en_registry e) cid \<noteq> None"

definition persons_assistants :: "'c env \<Rightarrow> string \<Rightarrow> ('c, assistant list) asking" where
  "persons_assistants e subject =
     (case en_register e of None \<Rightarrow> ret [] | Some rb \<Rightarrow> assistants e rb (person_key subject))"

definition assistant_way :: "assistant \<Rightarrow> string" where
  "assistant_way a = a_tenant a @ ''/'' @ a_key a"

fun delete_refreshes :: "'c env \<Rightarrow> string list \<Rightarrow> ('c, unit) handler" where
  "delete_refreshes e [] = ret ()"
| "delete_refreshes e (k # ks) =
     (if k = [] then delete_refreshes e ks
      else andthen (recover (stored e (op_delete_refresh (en_ops e) k))
             (\<lambda>err. if err \<noteq> Not_Found then store_refusal err else ret ())) (\<lambda>_. delete_refreshes e ks))"

definition end_connection :: "'c env \<Rightarrow> string \<Rightarrow> session \<Rightarrow> string list \<Rightarrow> ('c, unit) handler" where
  "end_connection e sid sess keys =
     andthen (recover (stored e (op_delete_session (en_ops e) sid))
        (\<lambda>err. if err \<noteq> Not_Found then store_refusal err else ret ())) (\<lambda>_.
     andthen (delete_refreshes e (s_refresh_key sess # keys)) (\<lambda>_.
     andthen (if s_sid sess \<noteq> [] then
         attempt (stored e (op_remove_connection (en_ops e) (s_tenant sess) (s_assistant sess)
           \<lparr>con_id = s_sid sess, con_session = sid\<rparr>)) else ret (Inr ())) (\<lambda>_.
     record_event (Session_Ended (s_subject sess) login_assistant))))"

text \<open>A grant that is gone is the app's to hear, \<open>invalid_grant\<close>; a store that could not answer is 503.\<close>

definition invalid_grant :: "('c, 'a) handler" where
  "invalid_grant = oauth_error 400 ''invalid_grant''"

definition grant_refusal :: "store_error \<Rightarrow> ('c, 'a) handler" where
  "grant_refusal err = (if err \<noteq> Not_Found then store_refusal err else invalid_grant)"

definition connection_scopes :: "'c env \<Rightarrow> sign_in_client \<Rightarrow> string \<Rightarrow> session \<Rightarrow> string list \<Rightarrow> ('c, string list) handler" where
  "connection_scopes e app sid sess keys =
     andthen (recover (persons_assistants e (s_subject sess)) (register_unavailable (person_key (s_subject sess)))) (\<lambda>own.
     andthen (from_option (if s_assistant sess = [] then None
           else first (\<lambda>a. a_tenant a = s_tenant sess \<and> a_key a = s_assistant sess) own)
         (andthen (end_connection e sid sess keys) (\<lambda>_. invalid_grant))) (\<lambda>a.
     ret (intersect_scopes (intersect_scopes (s_app_scopes sess) (si_scopes app)) (a_scopes a))))"

definition token_type_bearer :: string where "token_type_bearer = ''Bearer''"

definition app_input :: "'c env \<Rightarrow> sign_in_client \<Rightarrow> session \<Rightarrow> string list \<Rightarrow> app_token_input" where
  "app_input e app sess scopes =
     \<lparr>at_subject = s_subject sess, at_audience = si_audience app, at_client_id = si_id app, at_scopes = scopes,
      at_tenant = s_tenant sess, at_assistant = s_assistant sess, at_loa = loa_low, at_login_method = login_assistant,
      at_connection = s_sid sess, at_ttl = cf_app_token_ttl (en_config e)\<rparr>"

definition answer_app_token :: "'c env \<Rightarrow> sign_in_client \<Rightarrow> session \<Rightarrow> string list \<Rightarrow> string \<Rightarrow> ('c, reply) handler" where
  "answer_app_token e app sess scopes refresh =
     andthen (random_token e 16) (\<lambda>jti.
     andthen (from_option (issue_app (en_crypto e) (en_issuer e) (en_now e) jti (app_input e app sess scopes)) (refuse Internal)) (\<lambda>(tok, secs).
     andthen (record_event (User_Token_Issued (s_subject sess) loa_low login_assistant (si_audience app) scopes)) (\<lambda>_.
     ret (Token_Reply ((plain_token tok token_type_bearer secs)\<lparr>tk_refresh := refresh, tk_scope := join '' '' scopes\<rparr>)))))"

section \<open>The code exchange\<close>

definition truncate_second :: "time \<Rightarrow> time" where
  "truncate_second t = t - t mod second"

definition connected_session :: "session \<Rightarrow> string \<Rightarrow> string \<Rightarrow> time \<Rightarrow> session" where
  "connected_session sess key sid now =
     sess\<lparr>s_refresh_key := key, s_sid := sid, s_connected_at := truncate_second now\<rparr>"

definition app_code_exchange :: "'c env \<Rightarrow> request \<Rightarrow> sign_in_client \<Rightarrow> ('c, reply) handler" where
  "app_code_exchange e rq app =
     (let code = peek rq ''code''; verifier = peek rq ''code_verifier''; uri = peek rq ''redirect_uri'' in
      if code = [] \<or> verifier = [] \<or> uri = [] then oauth_error 400 ''invalid_request''
      else
        andthen (recover (stored e (op_consume_app_code (en_ops e) code)) grant_refusal) (\<lambda>ac.
        if ac_client_id ac \<noteq> si_id app \<or> ac_redirect_uri ac \<noteq> uri \<or> ac_assistant ac = []
           \<or> \<not> verify_pkce (en_crypto e) verifier (ac_code_challenge ac) (ac_code_challenge_method ac) then invalid_grant
        else
          andthen (recover (stored e (op_load_session (en_ops e) (ac_session_id ac))) (\<lambda>_. invalid_grant)) (\<lambda>sess.
          if s_assistant sess \<noteq> ac_assistant ac \<or> s_client_id sess \<noteq> si_id app then invalid_grant
          else
            andthen (connection_scopes e app (ac_session_id ac) sess []) (\<lambda>scopes.
            andthen (random_token e refresh_token_bytes) (\<lambda>refresh.
            andthen (random_token e 24) (\<lambda>sid.
            let key = refresh_key (en_crypto e) refresh; sess' = connected_session sess key sid (en_now e) in
            andthen (recover (stored e (op_save_refresh (en_ops e) key
                \<lparr>rg_session = ac_session_id ac, rg_client = si_id app, rg_rotated = False\<rparr> (s_expires_at sess))) store_refusal) (\<lambda>_.
            andthen (recover (stored e (op_replace_session (en_ops e) (ac_session_id ac) sess')) store_refusal) (\<lambda>_.
            andthen (recover (stored e (op_add_connection (en_ops e) (s_tenant sess) (s_assistant sess)
                \<lparr>con_id = sid, con_session = ac_session_id ac\<rparr> (s_expires_at sess))) store_refusal) (\<lambda>_.
            answer_app_token e app sess' scopes refresh)))))))))"

section \<open>A refresh\<close>

definition reused_refresh :: "'c env \<Rightarrow> string \<Rightarrow> session \<Rightarrow> string \<Rightarrow> ('c, 'a) handler" where
  "reused_refresh e sid sess key =
     andthen (record_event (Login_Failure ''an AI app's refresh token used a second time; the connection is ended'')) (\<lambda>_.
     andthen (end_connection e sid sess [key]) (\<lambda>_. invalid_grant))"

definition app_refresh :: "'c env \<Rightarrow> request \<Rightarrow> sign_in_client \<Rightarrow> ('c, reply) handler" where
  "app_refresh e rq app =
     (let token = peek rq ''refresh_token''; key = refresh_key (en_crypto e) token in
      if token = [] then oauth_error 400 ''invalid_request''
      else
        andthen (recover (stored e (op_load_refresh (en_ops e) key)) grant_refusal) (\<lambda>g.
        if rg_client g \<noteq> si_id app then invalid_grant
        else
          andthen (recover (stored e (op_load_session (en_ops e) (rg_session g)))
             (\<lambda>err. if err \<noteq> Not_Found then store_refusal err
                    else andthen (attempt (stored e (op_delete_refresh (en_ops e) key))) (\<lambda>_. invalid_grant))) (\<lambda>sess.
          if rg_rotated g then reused_refresh e (rg_session g) sess key
          else
            andthen (connection_scopes e app (rg_session g) sess [key]) (\<lambda>scopes.
            andthen (recover (stored e (op_take_refresh (en_ops e) key)) grant_refusal) (\<lambda>claimed.
            if rg_rotated claimed \<or> rg_session claimed \<noteq> rg_session g then reused_refresh e (rg_session g) sess key
            else
              andthen (random_token e refresh_token_bytes) (\<lambda>next.
              let next_key = refresh_key (en_crypto e) next in
              andthen (recover (stored e (op_save_refresh (en_ops e) next_key
                  \<lparr>rg_session = rg_session g, rg_client = si_id app, rg_rotated = False\<rparr> (s_expires_at sess))) store_refusal) (\<lambda>_.
              andthen (recover (stored e (op_save_refresh (en_ops e) key
                  \<lparr>rg_session = rg_session g, rg_client = si_id app, rg_rotated = True\<rparr> (s_expires_at sess))) store_refusal) (\<lambda>_.
              andthen (recover (stored e (op_replace_session (en_ops e) (rg_session g) (sess\<lparr>s_refresh_key := next_key\<rparr>))) grant_refusal) (\<lambda>_.
              answer_app_token e app (sess\<lparr>s_refresh_key := next_key\<rparr>) scopes next)))))))))"

definition grant_for_app :: "'c env \<Rightarrow> request \<Rightarrow> string \<Rightarrow> sign_in_client \<Rightarrow> ('c, reply) handler" where
  "grant_for_app e rq grant app =
     andthen (authenticate_sign_in_request e rq (si_id app)) (\<lambda>_.
     let resources = rq_peek rq ''resource'' in
     if 1 < length resources \<or> (length resources = 1 \<and> \<not> same_resource (si_audience app) (resources ! 0))
        \<or> (resources = [] \<and> grant = ''authorization_code'') then oauth_error 400 ''invalid_target''
     else if grant = ''authorization_code'' then app_code_exchange e rq app
     else app_refresh e rq app)"

section \<open>Whether a token's connection is live\<close>

fun named_connection :: "'c env \<Rightarrow> string \<Rightarrow> string \<Rightarrow> string \<Rightarrow> connection list \<Rightarrow> ('c, (string \<times> session) option) handler" where
  "named_connection e tenant assistant connection [] = ret None"
| "named_connection e tenant assistant connection (c # cs) =
     (if con_id c \<noteq> connection then named_connection e tenant assistant connection cs
      else
        andthen (attempt (stored e (op_load_session (en_ops e) (con_session c)))) (\<lambda>r.
        case r of
          Inl err \<Rightarrow>
            if err = Not_Found then
              andthen (attempt (stored e (op_remove_connection (en_ops e) tenant assistant c))) (\<lambda>_. ret None)
            else store_refusal err
        | Inr sess \<Rightarrow>
            if s_assistant sess \<noteq> assistant \<or> s_tenant sess \<noteq> tenant \<or> s_sid sess \<noteq> connection then ret None
            else ret (Some (con_session c, sess))))"

definition find_connection :: "'c env \<Rightarrow> string \<Rightarrow> string \<Rightarrow> string \<Rightarrow> ('c, (string \<times> session) option) handler" where
  "find_connection e tenant assistant connection =
     andthen (recover (stored e (op_connections (en_ops e) tenant assistant)) store_refusal)
       (named_connection e tenant assistant connection)"

definition connection_ended :: "string \<Rightarrow> string \<Rightarrow> string \<Rightarrow> ('c, 'a) handler" where
  "connection_ended client subject reason =
     andthen (record_event (Delegation_Refused client subject reason)) (\<lambda>_. refuse Connection_Ended)"

definition actor_name :: "actor option \<Rightarrow> string" where
  "actor_name a = (case a of Some (Actor s _) \<Rightarrow> s | None \<Rightarrow> [])"

definition app_connection_live :: "'c env \<Rightarrow> string \<Rightarrow> claim_set \<Rightarrow> string \<Rightarrow> ('c, unit) handler" where
  "app_connection_live e client subject connection =
     (let assistant = actor_name (cl_act subject) in
      if \<not> is_ai_app e (cl_client_id subject) then connection_ended client (cl_subject subject) ''the AI app is no longer enabled''
      else if connection = [] \<or> assistant = [] \<or> cl_tenant subject = [] then connection_ended client (cl_subject subject) ''an AI app's token names no connection''
      else
        andthen (find_connection e (cl_tenant subject) assistant connection) (\<lambda>found.
        andthen (from_option (case found of
              None \<Rightarrow> None
            | Some (sid, sess) \<Rightarrow>
                if sid = [] \<or> s_subject sess \<noteq> cl_subject subject \<or> s_client_id sess \<noteq> cl_client_id subject then None
                else Some (sid, sess))
            (connection_ended client (cl_subject subject) ''the AI app's connection has ended'')) (\<lambda>(sid, sess).
        if time_sub (en_now e) (s_last_used sess) < 60 * second then ret ()
        else
          recover (stored e (op_replace_session (en_ops e) sid (sess\<lparr>s_last_used := truncate_second (en_now e)\<rparr>)))
            (\<lambda>err. if err = Not_Found then connection_ended client (cl_subject subject) ''the AI app's connection has ended'' else store_refusal err))))"

section \<open>Revocation and narrowing\<close>

definition revoke_app :: "'c env \<Rightarrow> sign_in_client \<Rightarrow> string \<Rightarrow> ('c, reply) handler" where
  "revoke_app e app token =
     (let key = refresh_key (en_crypto e) token in
      andthen (recover (stored e (op_load_refresh (en_ops e) key))
         (\<lambda>err. if err = Not_Found then stop (Status_Reply 200) else store_refusal err)) (\<lambda>g.
      andthen (guard (rg_client g = si_id app) Unauthorized) (\<lambda>_.
      andthen (recover (stored e (op_load_session (en_ops e) (rg_session g)))
         (\<lambda>_. andthen (attempt (stored e (op_delete_refresh (en_ops e) key))) (\<lambda>_. stop (Status_Reply 200)))) (\<lambda>sess.
      andthen (end_connection e (rg_session g) sess [key]) (\<lambda>_. ret (Status_Reply 200))))))"

definition narrow_for_assistant :: "string list \<Rightarrow> string \<Rightarrow> string list \<Rightarrow> string list" where
  "narrow_for_assistant scopes subject_scope named =
     filter (\<lambda>s. is_level s \<and> s \<in> set named \<or> is_box s \<and> s \<in> set (parse_scope_string subject_scope)) scopes"

section \<open>Facts\<close>

lemma refusals_Inr [act_simps]:
  "invalid_grant w = (Inr x, w') \<longleftrightarrow> False" "grant_refusal err w = (Inr x, w') \<longleftrightarrow> False"
  "connection_ended client subj why w = (Inr x, w') \<longleftrightarrow> False"
  by (simp_all add: invalid_grant_def grant_refusal_def connection_ended_def act_simps)

lemma if_refused [act_simps]:
  "(if b then m else n) s = (Inr x, t) \<longleftrightarrow> (if b then m s = (Inr x, t) else n s = (Inr x, t))"
  "(if b then False else P) \<longleftrightarrow> \<not> b \<and> P"
  by simp_all

lemma reused_refresh_Inr [act_simps]: "reused_refresh e sid sess key w = (Inr x, w') \<longleftrightarrow> False"
  by (simp add: reused_refresh_def act_simps)

lemma stored_or_grant_refusal [act_simps]:
  "recover (stored e op) grant_refusal w = (Inr x, w') \<longleftrightarrow> stored e op w = (Inr x, w')"
  "recover (stored e op) (\<lambda>_. invalid_grant) w = (Inr x, w') \<longleftrightarrow> stored e op w = (Inr x, w')"
  by (auto simp: recover_Inr act_simps)

lemma storeless_refusals [storeless_intros]:
  "storeless invalid_grant" "storeless (grant_refusal err)" "storeless (connection_ended client subj why)"
  unfolding invalid_grant_def grant_refusal_def connection_ended_def by (auto intro!: storeless_intros)

lemma persons_assistants_Inr:
  "persons_assistants e subj w = (Inr own, w') \<Longrightarrow>
     en_register e = None \<and> own = []
     \<or> (\<exists>rb b. en_register e = Some rb \<and> door_answered e rb (person_key subj) Assistants_Door b
          \<and> db_subject_key b = person_key subj \<and> own = db_assistants b)"
  by (cases "en_register e") (auto simp: persons_assistants_def dest: assistants_Inr)

lemma storeless_persons_assistants [storeless_intros]: "storeless (persons_assistants e subj)"
  by (cases "en_register e") (auto simp: persons_assistants_def intro!: storeless_intros storeless_asking[OF assistants_asks])

lemma storeless_register_unavailable [storeless_intros]: "storeless (register_unavailable key err)"
  unfolding register_unavailable_def by (intro storeless_intros)

text \<open>The scopes of a connection: what the app asked for, its row allows and the assistant holds, as the
  register answers now about that very person.\<close>

definition assistant_now :: "'c env \<Rightarrow> session \<Rightarrow> assistant \<Rightarrow> bool" where
  "assistant_now e sess a \<longleftrightarrow> s_assistant sess \<noteq> [] \<and> a_key a = s_assistant sess \<and> a_tenant a = s_tenant sess
     \<and> (\<exists>rb b. en_register e = Some rb \<and> door_answered e rb (person_key (s_subject sess)) Assistants_Door b
          \<and> db_subject_key b = person_key (s_subject sess) \<and> a \<in> set (db_assistants b))"

lemma connection_scopes_Inr:
  assumes "connection_scopes e app sid sess keys w = (Inr scopes, w')"
  shows "wo_store w' = wo_store w"
    and "\<exists>a. assistant_now e sess a
       \<and> scopes = filter (\<lambda>s. s \<in> set (si_scopes app) \<and> s \<in> set (a_scopes a)) (s_app_scopes sess)"
proof -
  obtain own u a where own: "persons_assistants e (s_subject sess) w = (Inr own, w')"
    and a: "s_assistant sess \<noteq> []" "first (\<lambda>a. a_tenant a = s_tenant sess \<and> a_key a = s_assistant sess) own = Some a"
    and sc: "scopes = intersect_scopes (intersect_scopes (s_app_scopes sess) (si_scopes app)) (a_scopes a)"
    using assms unfolding connection_scopes_def
    by (auto simp: act_simps recover_Inr register_unavailable_Inr split: if_splits)
  show "wo_store w' = wo_store w" by (rule storelessD[OF storeless_persons_assistants own])
  have "assistant_now e sess a"
    using persons_assistants_Inr[OF own] first_SomeD[OF a(2)] a(1) by (auto simp: assistant_now_def)
  then show "\<exists>a. assistant_now e sess a
       \<and> scopes = filter (\<lambda>s. s \<in> set (si_scopes app) \<and> s \<in> set (a_scopes a)) (s_app_scopes sess)"
    using sc by (auto simp: intersect_scopes_def intro!: exI[of _ a] filter_cong)
qed

text \<open>Ending a connection that did not fail took its session and its refresh grants away, and no other's.\<close>

lemma del_answered:
  assumes "refines (V (en_now e)) (op (en_now e)) (spec_put f)"
    and "recover (stored e op) (\<lambda>err. if err \<noteq> Not_Found then store_refusal err else ret ()) w = (Inr u, w')"
  shows "sees V e w' = f (sees V e w)"
proof -
  obtain r c where run: "op (en_now e) (wo_store w) = (r, c)" "w' = w\<lparr>wo_store := c\<rparr>" "r \<noteq> Inl Unavailable"
    using assms(2) by (cases "op (en_now e) (wo_store w)")
      (auto simp: recover_def stored_def store_refusal_def refuse_def split: sum.splits if_splits)
  with assms(1) show ?thesis
    unfolding refines_def by (fastforce simp: spec_put_def does_def sees_def)
qed

text \<open>A map without some keys; an empty key names nothing, and is passed over.\<close>

definition without :: "string list \<Rightarrow> (string \<rightharpoonup> 'a) \<Rightarrow> string \<rightharpoonup> 'a" where
  "without ks m = (\<lambda>x. if x \<noteq> [] \<and> x \<in> set ks then None else m x)"

lemma without_simps [simp]:
  "without [] m = m" "without ([] # ks) m = without ks m"
  "k \<noteq> [] \<Longrightarrow> without ks (m(k := None)) = without (k # ks) m"
  "k \<noteq> [] \<Longrightarrow> without (k # ks) m k = None"
  by (auto simp: without_def fun_eq_iff)

lemma delete_refreshes_Inr:
  assumes "session_store (en_ops e) V" "0 \<le> en_now e" "delete_refreshes e ks w = (Inr u, w')"
  shows "sees V e w' = (sees V e w)\<lparr>v_refresh := without ks (v_refresh (sees V e w))\<rparr>"
  using assms(3)
proof (induction ks arbitrary: w)
  case (Cons k ks)
  show ?case
  proof (cases "k = []")
    case False
    with Cons.prems obtain v where v: "recover (stored e (op_delete_refresh (en_ops e) k))
             (\<lambda>err. if err \<noteq> Not_Found then store_refusal err else ret ()) w = (Inr (), v)" "delete_refreshes e ks v = (Inr u, w')"
      by (auto simp: andthen_Inr)
    have "sees V e v = (sees V e w)\<lparr>v_refresh := (v_refresh (sees V e w))(k := None)\<rparr>"
      by (rule del_answered[where V = V and e = e and op = "op_delete_refresh (en_ops e) k", OF session_store.delete_refresh[OF assms(1,2)] v(1)])
    then show ?thesis using Cons.IH[OF v(2)] False by (simp del: fun_upd_apply)
  qed (use Cons in simp)
qed simp

text \<open>What is left of a view when a connection ends: its session is gone, and the grants named.\<close>

lemma recovered_Inr [act_simps]:
  "recover (stored e op) (\<lambda>err. if err \<noteq> Not_Found then store_refusal err else ret ()) w = (Inr u, w') \<longleftrightarrow>
     stored e op w = (Inr u, w') \<or> stored e op w = (Inl Not_Found, w')"
  by (auto simp: recover_Inr store_refusal_Inr split: if_splits)

lemma refines_some:
  "refines W m S \<Longrightarrow> m c = (r, c') \<Longrightarrow> W c' = W c \<or> (\<exists>q. S (W c) q (W c'))"
  unfolding refines_def by blast

lemma end_connection_Inr:
  assumes store: "session_store (en_ops e) V" and now: "0 \<le> en_now e"
    and run: "end_connection e sid sess ks w = (Inr u, w')"
  shows "\<exists>conns. sees V e w' = (sees V e w)
      \<lparr>v_sessions := (v_sessions (sees V e w))(sid := None),
       v_refresh := without (s_refresh_key sess # ks) (v_refresh (sees V e w)), v_conns := conns\<rparr>
      \<and> (CHR '' '' \<notin> set (s_sid sess) \<longrightarrow> (\<forall>k. conns k \<subseteq> v_conns (sees V e w) k))"
    and "Session_Ended (s_subject sess) login_assistant \<in> set (wo_events w')"
proof -
  obtain u1 u2 w1 w2 w3 where del: "recover (stored e (op_delete_session (en_ops e) sid))
        (\<lambda>err. if err \<noteq> Not_Found then store_refusal err else ret ()) w = (Inr u1, w1)"
    and refr: "delete_refreshes e (s_refresh_key sess # ks) w1 = (Inr u2, w2)"
    and idx: "w3 = w2 \<or> (\<exists>r. stored e (op_remove_connection (en_ops e) (s_tenant sess) (s_assistant sess)
           \<lparr>con_id = s_sid sess, con_session = sid\<rparr>) w2 = (r, w3))"
    and w': "w' = w3\<lparr>wo_events := wo_events w3 @ [Session_Ended (s_subject sess) login_assistant]\<rparr>"
    using run unfolding end_connection_def andthen_Inr record_event_Inr
    by (elim exE conjE) (rule that, assumption, assumption, auto simp: act_simps split: if_splits)
  show "Session_Ended (s_subject sess) login_assistant \<in> set (wo_events w')" using w' by simp
  have 1: "sees V e w1 = (sees V e w)\<lparr>v_sessions := (v_sessions (sees V e w))(sid := None)\<rparr>"
    by (rule del_answered[where V = V and e = e and op = "op_delete_session (en_ops e) sid", OF session_store.delete_session[OF store now] del])
  have 3: "\<exists>conns. sees V e w3 = (sees V e w2)\<lparr>v_conns := conns\<rparr>
      \<and> (CHR '' '' \<notin> set (s_sid sess) \<longrightarrow> (\<forall>k. conns k \<subseteq> v_conns (sees V e w2) k))"
    using idx
  proof (elim disjE exE)
    fix r assume "stored e (op_remove_connection (en_ops e) (s_tenant sess) (s_assistant sess) \<lparr>con_id = s_sid sess, con_session = sid\<rparr>) w2 = (r, w3)"
    then obtain c where c: "op_remove_connection (en_ops e) (s_tenant sess) (s_assistant sess) \<lparr>con_id = s_sid sess, con_session = sid\<rparr> (en_now e) (wo_store w2) = (r, c)"
      "w3 = w2\<lparr>wo_store := c\<rparr>"
      by (auto simp: stored_def split: prod.splits)
    then have v3: "sees V e w3 = V (en_now e) c" by (simp add: sees_def)
    from refines_some[OF session_store.remove_connection[OF store now] c(1)] show ?thesis
    proof (elim disjE exE)
      assume "V (en_now e) c = V (en_now e) (wo_store w2)"
      then show ?thesis unfolding v3 by (intro exI[of _ "v_conns (sees V e w2)"]) (simp add: sees_def)
    next
      fix q assume "spec_remove_connection (s_tenant sess) (s_assistant sess) \<lparr>con_id = s_sid sess, con_session = sid\<rparr>
         (V (en_now e) (wo_store w2)) q (V (en_now e) c)"
      then obtain S where S: "CHR '' '' \<notin> set (s_sid sess) \<longrightarrow>
           S = v_conns (sees V e w2) (conn_key (s_tenant sess) (s_assistant sess)) - {\<lparr>con_id = s_sid sess, con_session = sid\<rparr>}"
        "V (en_now e) c = (sees V e w2)\<lparr>v_conns := (v_conns (sees V e w2))(conn_key (s_tenant sess) (s_assistant sess) := S)\<rparr>"
        unfolding spec_remove_connection_def sees_def by auto
      show ?thesis unfolding v3
        by (rule exI, rule conjI, rule S(2)) (use S(1) in auto)
    qed
  qed (auto intro: exI[of _ "v_conns (sees V e w2)"])
  then obtain conns where c: "sees V e w3 = (sees V e w2)\<lparr>v_conns := conns\<rparr>"
    "CHR '' '' \<notin> set (s_sid sess) \<longrightarrow> (\<forall>k. conns k \<subseteq> v_conns (sees V e w2) k)" by blast
  have "sees V e w2 = (sees V e w)\<lparr>v_sessions := (v_sessions (sees V e w))(sid := None),
       v_refresh := without (s_refresh_key sess # ks) (v_refresh (sees V e w))\<rparr>"
    using 1 delete_refreshes_Inr[OF store now refr] by simp
  then show "\<exists>conns. sees V e w' = (sees V e w)
      \<lparr>v_sessions := (v_sessions (sees V e w))(sid := None),
       v_refresh := without (s_refresh_key sess # ks) (v_refresh (sees V e w)), v_conns := conns\<rparr>
      \<and> (CHR '' '' \<notin> set (s_sid sess) \<longrightarrow> (\<forall>k. conns k \<subseteq> v_conns (sees V e w) k))"
    using c w' by (intro exI[of _ conns]) simp
qed

section \<open>What the grants rest on\<close>

lemmas run_app = act_simps Let_def split_paired_Ex prod.case

lemma added_connection:
  assumes "session_store ops V" "0 \<le> now" "op_add_connection ops t a c till now s = (Inr u, s')" "CHR '' '' \<notin> set (con_id c)"
  shows "\<exists>S. V now s' = (V now s)\<lparr>v_conns := (v_conns (V now s))(conn_key t a := S)\<rparr>
     \<and> S \<subseteq> insert c (v_conns (V now s) (conn_key t a))
     \<and> (now + millisecond \<le> till \<longrightarrow> S = insert c (v_conns (V now s) (conn_key t a)))"
proof -
  have "spec_add_connection t a c till now (V now s) (Inr u) (V now s')"
    by (rule refines_Inr[OF session_store.add_connection[OF assms(1,2)] assms(3)])
  then show ?thesis
    using assms(4) by (auto simp: spec_add_connection_def split: if_splits)
qed

text \<open>
  C4. An AI app's code makes a connection only for the app it was issued to, with its redirect URI and
  verifier, while its session lives and only if the register answers now that the session's person has
  that very assistant in that organisation. The token carries, of the boxes the app asked for, those its
  row allows and the assistant holds; it names the connection and is bound to no key. The connection is
  listed under its assistant, its refresh token's hash leads to it, and nothing else changes.
\<close>

theorem app_code_makes_connection:
  assumes store: "session_store (en_ops e) V" and now: "0 \<le> en_now e"
    and run: "app_code_exchange e rq app w = (Inr r, w')"
  shows "\<exists>ac sess a refresh sid t jti S.
     v_codes (sees V e w) (peek rq ''code'') = Some ac \<and> ac_client_id ac = si_id app
     \<and> ac_redirect_uri ac = peek rq ''redirect_uri'' \<and> ac_assistant ac \<noteq> []
     \<and> verify_pkce (en_crypto e) (peek rq ''code_verifier'') (ac_code_challenge ac) (ac_code_challenge_method ac)
     \<and> v_sessions (sees V e w) (ac_session_id ac) = Some sess \<and> \<not> session_expired sess (en_now e)
     \<and> s_client_id sess = si_id app \<and> s_assistant sess = ac_assistant ac
     \<and> assistant_now e sess a
     \<and> (let key = refresh_key (en_crypto e) refresh; sess' = connected_session sess key sid (en_now e);
            scopes = filter (\<lambda>s. s \<in> set (si_scopes app) \<and> s \<in> set (a_scopes a)) (s_app_scopes sess);
            c = \<lparr>con_id = sid, con_session = ac_session_id ac\<rparr>; k = conn_key (s_tenant sess) (s_assistant sess)
        in issue_app (en_crypto e) (en_issuer e) (en_now e) jti (app_input e app sess' scopes) = Some (tk_access t, tk_expires_in t)
         \<and> r = Token_Reply t \<and> tk_refresh t = refresh \<and> tk_scope t = join '' '' scopes \<and> tk_type t = ''Bearer''
         \<and> S \<subseteq> insert c (v_conns (sees V e w) k)
         \<and> (en_now e + millisecond \<le> s_expires_at sess \<longrightarrow> S = insert c (v_conns (sees V e w) k))
         \<and> sees V e w' = (sees V e w)
             \<lparr>v_codes := (v_codes (sees V e w))(peek rq ''code'' := None),
              v_refresh := (v_refresh (sees V e w))(key \<mapsto> \<lparr>rg_session = ac_session_id ac, rg_client = si_id app, rg_rotated = False\<rparr>),
              v_sessions := (v_sessions (sees V e w))(ac_session_id ac \<mapsto> sess'),
              v_conns := (v_conns (sees V e w))(k := S)\<rparr>)"
  using run[unfolded app_code_exchange_def answer_app_token_def, simplified run_app, simplified]
proof (elim exE conjE, goal_cases)
  case (1 ac w1 c1 sess w2 c2 scopes v w3 c3 w4 c4 w5 c5 tok secs)
  let ?refresh = "raw_url_encode (en_rand e (wo_draws v) refresh_token_bytes)"
  let ?key = "refresh_key (en_crypto e) ?refresh" and ?sid = "raw_url_encode (en_rand e (Suc (wo_draws v)) 24)"
  let ?sess = "connected_session sess ?key ?sid (en_now e)"
  let ?c = "\<lparr>con_id = ?sid, con_session = ac_session_id ac\<rparr>"
  note take = session_store.consumed_code[OF store now 1(5)]
  note live = session_store.loaded_session[OF store now 1(11)]
  note sc = connection_scopes_Inr[OF 1(14)]
  note save = session_store.saved_refresh[OF store now 1(15)]
  note repl = session_store.replaced_session[OF store now 1(17)]
  have "CHR '' '' \<notin> set (con_id ?c)" by (simp add: raw_url_encode_no_space)
  from added_connection[OF store now 1(19) this] obtain S where conns:
    "V (en_now e) c5 = (V (en_now e) (wo_store w4))\<lparr>v_conns := (v_conns (V (en_now e) (wo_store w4)))(conn_key (s_tenant sess) (s_assistant sess) := S)\<rparr>"
    "S \<subseteq> insert ?c (v_conns (V (en_now e) (wo_store w4)) (conn_key (s_tenant sess) (s_assistant sess)))"
    "en_now e + millisecond \<le> s_expires_at sess \<longrightarrow> S = insert ?c (v_conns (V (en_now e) (wo_store w4)) (conn_key (s_tenant sess) (s_assistant sess)))"
    by blast
  obtain a where a: "assistant_now e sess a"
    "scopes = filter (\<lambda>s. s \<in> set (si_scopes app) \<and> s \<in> set (a_scopes a)) (s_app_scopes sess)" using sc(2) by blast
  have view4: "V (en_now e) (wo_store w4) = (sees V e w)
       \<lparr>v_codes := (v_codes (sees V e w))(peek rq ''code'' := None),
        v_refresh := (v_refresh (sees V e w))(?key \<mapsto> \<lparr>rg_session = ac_session_id ac, rg_client = si_id app, rg_rotated = False\<rparr>),
        v_sessions := (v_sessions (sees V e w))(ac_session_id ac \<mapsto> ?sess)\<rparr>"
    using take live sc(1) save repl 1(6,12,16,18) by (simp add: sees_def)
  let ?t = "(plain_token tok token_type_bearer secs)\<lparr>tk_refresh := ?refresh, tk_scope := join '' '' scopes\<rparr>"
  have w': "sees V e w' = V (en_now e) c5" using 1(20) unfolding 1(23)[symmetric] by (simp add: sees_def)
  show ?case
    unfolding Let_def
    by (rule exI[of _ ac], rule exI[of _ sess], rule exI[of _ a], rule exI[of _ ?refresh], rule exI[of _ ?sid], rule exI[of _ ?t],
        rule exI[of _ "raw_url_encode (en_rand e (wo_draws w5) 16)"], rule exI[of _ S], intro conjI)
      (use 1(4,6-10,13,21,22) take live a(1) conns view4 w' in \<open>simp_all add: plain_token_def token_type_bearer_def sees_def a(2)[symmetric]\<close>)
qed

text \<open>
  C5. A refresh of an AI app's connection is answered only for the app the token was issued to, while
  its session lives and the register answers now that the person still has the assistant. The token is
  used up by it: what it led to is marked as used, the next one leads to the same session, and nothing
  else in the store changes. The boxes are narrowed anew, as at the connection's start.
\<close>

theorem app_refresh_rotates:
  assumes store: "session_store (en_ops e) V" and now: "0 \<le> en_now e"
    and run: "app_refresh e rq app w = (Inr r, w')"
  shows "\<exists>g sess a next t jti.
     v_refresh (sees V e w) (refresh_key (en_crypto e) (peek rq ''refresh_token'')) = Some g
     \<and> \<not> rg_rotated g \<and> rg_client g = si_id app
     \<and> v_sessions (sees V e w) (rg_session g) = Some sess \<and> \<not> session_expired sess (en_now e)
     \<and> assistant_now e sess a
     \<and> (let key = refresh_key (en_crypto e) (peek rq ''refresh_token''); next_key = refresh_key (en_crypto e) next;
            sess' = sess\<lparr>s_refresh_key := next_key\<rparr>;
            scopes = filter (\<lambda>s. s \<in> set (si_scopes app) \<and> s \<in> set (a_scopes a)) (s_app_scopes sess)
        in issue_app (en_crypto e) (en_issuer e) (en_now e) jti (app_input e app sess' scopes) = Some (tk_access t, tk_expires_in t)
         \<and> r = Token_Reply t \<and> tk_refresh t = next \<and> tk_scope t = join '' '' scopes \<and> tk_type t = ''Bearer''
         \<and> sees V e w' = (sees V e w)
             \<lparr>v_refresh := (v_refresh (sees V e w))
                (next_key \<mapsto> g, key \<mapsto> g\<lparr>rg_rotated := True\<rparr>),
              v_sessions := (v_sessions (sees V e w))(rg_session g \<mapsto> sess')\<rparr>)"
  using run[unfolded app_refresh_def answer_app_token_def, simplified run_app, simplified]
proof (elim exE conjE, goal_cases)
  case (1 g w1 c1 sess w2 c2 scopes v claimed w3 c3 w4 c4 w5 c5 w6 c6 tok secs)
  let ?key = "refresh_key (en_crypto e) (peek rq ''refresh_token'')"
  let ?next = "raw_url_encode (en_rand e (wo_draws w3) refresh_token_bytes)"
  let ?next_key = "refresh_key (en_crypto e) ?next"
  have g: "g = \<lparr>rg_session = rg_session g, rg_client = si_id app, rg_rotated = False\<rparr>" using 1(2,5) by simp
  note load = session_store.loaded_refresh[OF store now 1(3)]
  note live = session_store.loaded_session[OF store now 1(6)]
  note sc = connection_scopes_Inr[OF 1(8)]
  note take = session_store.taken_refresh[OF store now 1(10)]
  note fresh = session_store.saved_refresh[OF store now 1(13)[folded g]]
  note used = session_store.saved_refresh[OF store now 1(15)]
  note repl = session_store.replaced_session[OF store now 1(17)]
  obtain a where a: "assistant_now e sess a"
    "scopes = filter (\<lambda>s. s \<in> set (si_scopes app) \<and> s \<in> set (a_scopes a)) (s_app_scopes sess)" using sc(2) by blast
  let ?t = "(plain_token tok token_type_bearer secs)\<lparr>tk_refresh := ?next, tk_scope := join '' '' scopes\<rparr>"
  have g': "\<lparr>rg_session = rg_session g, rg_client = si_id app, rg_rotated = True\<rparr> = g\<lparr>rg_rotated := True\<rparr>"
    using g by (cases g) simp
  have view: "sees V e w' = (sees V e w)
       \<lparr>v_refresh := (v_refresh (sees V e w))(?next_key \<mapsto> g, ?key \<mapsto> g\<lparr>rg_rotated := True\<rparr>),
        v_sessions := (v_sessions (sees V e w))(rg_session g \<mapsto> sess\<lparr>s_refresh_key := ?next_key\<rparr>)\<rparr>"
    unfolding 1(21)[symmetric]
    using load live sc(1) take fresh used[unfolded g'] repl 1(4,7,11,14,16,18) by (simp add: sees_def fun_upd_twist)
  show ?case
    unfolding Let_def
    by (rule exI[of _ g], rule exI[of _ sess], rule exI[of _ a], rule exI[of _ ?next], rule exI[of _ ?t],
        rule exI[of _ "raw_url_encode (en_rand e (wo_draws w6) 16)"], intro conjI)
      (use 1(2,4,5,19,20) load live a(1) view in \<open>simp_all add: plain_token_def token_type_bearer_def sees_def a(2)[symmetric]\<close>)
qed

text \<open>A store that has what is looked for answers it, or could not answer.\<close>

lemma got_or_unavailable:
  assumes "refines W op (spec_get f)" "f (W c) = Some x" "op c = (r, c')"
  shows "(r = Inr x \<or> r = Inl Unavailable) \<and> W c' = W c"
  using assms unfolding refines_def spec_get_def does_def by fastforce

lemma delete_refreshes_Inl: "delete_refreshes e ks w = (Inl x, w') \<Longrightarrow> x = Refused Store_Unavailable"
  by (induction ks arbitrary: w)
    (auto simp: andthen_Inl recover_Inl store_refusal_def refuse_def split: if_splits)

lemma end_connection_Inl: "end_connection e sid sess ks w = (Inl x, w') \<Longrightarrow> x = Refused Store_Unavailable"
  by (auto simp: end_connection_def andthen_Inl recover_Inl store_refusal_def refuse_def record_event_def
      split: if_splits dest: delete_refreshes_Inl)

lemma invalid_grant_run: "\<exists>w'. invalid_grant w = (Inl (OAuth_Refused 400 ''invalid_grant''), w') \<and> wo_store w' = wo_store w"
  by (simp add: invalid_grant_def oauth_error_def no_store_def set_header_def andthen_def)

lemma app_refresh_needs_session:
  assumes store: "session_store (en_ops e) V" and now: "0 \<le> en_now e"
    and run: "app_refresh e rq app w = (Inr r, w')"
  shows "\<exists>g. v_refresh (sees V e w) (refresh_key (en_crypto e) (peek rq ''refresh_token'')) = Some g
     \<and> v_sessions (sees V e w) (rg_session g) \<noteq> None"
  using run[unfolded app_refresh_def answer_app_token_def, simplified run_app, simplified]
proof (elim exE conjE, goal_cases)
  case (1 g w1 c1 sess)
  from session_store.loaded_refresh[OF store now 1(3)] session_store.loaded_session[OF store now 1(6)] 1(4)
  show ?case by (auto simp: sees_def)
qed

text \<open>
  C6. A refresh token used a second time ends its connection, or the store could not answer: the app
  hears \<open>invalid_grant\<close>, the connection's session is gone with the token presented and the one the
  session last answered, and no token is ever answered again for that session, whichever refresh token
  leads to it.
\<close>

theorem reused_refresh_ends_connection:
  assumes store: "session_store (en_ops e) V" and now: "0 \<le> en_now e"
    and token: "peek rq ''refresh_token'' \<noteq> []" "key = refresh_key (en_crypto e) (peek rq ''refresh_token'')"
    and grant: "v_refresh (sees V e w) key = Some g" "rg_rotated g" "rg_client g = si_id app"
    and live: "v_sessions (sees V e w) (rg_session g) = Some sess" "\<not> session_expired sess (en_now e)"
    and run: "app_refresh e rq app w = (q, w')"
  shows "q = Inl (Refused Store_Unavailable)
    \<or> q = Inl (OAuth_Refused 400 ''invalid_grant'')
      \<and> v_sessions (sees V e w') (rg_session g) = None
      \<and> v_refresh (sees V e w') = without [s_refresh_key sess, key] (v_refresh (sees V e w))
      \<and> (\<forall>e' rq' app' u g'. en_ops e' = en_ops e \<longrightarrow> en_now e \<le> en_now e' \<longrightarrow> wo_store u = wo_store w' \<longrightarrow>
           v_refresh (sees V e' u) (refresh_key (en_crypto e') (peek rq' ''refresh_token'')) = Some g' \<longrightarrow>
           rg_session g' = rg_session g \<longrightarrow> (\<exists>p. fst (app_refresh e' rq' app' u) = Inl p))"
proof -
  obtain r1 c1 where l1: "op_load_refresh (en_ops e) key (en_now e) (wo_store w) = (r1, c1)" by fastforce
  have g: "(r1 = Inr g \<or> r1 = Inl Unavailable) \<and> V (en_now e) c1 = sees V e w"
    using got_or_unavailable[OF session_store.load_refresh[OF store now] _ l1] grant(1) by (simp add: sees_def)
  obtain r2 c2 where l2: "op_load_session (en_ops e) (rg_session g) (en_now e) c1 = (r2, c2)" by fastforce
  have s: "(r2 = Inr sess \<or> r2 = Inl Unavailable) \<and> V (en_now e) c2 = V (en_now e) c1"
    using got_or_unavailable[OF session_store.load_session[OF store now] _ l2] g live by (simp add: live_session_def)
  show ?thesis
  proof (cases "r1 = Inr g \<and> r2 = Inr sess")
    case False
    then show ?thesis
      using run token l1 l2 g s grant(3)
      by (auto simp: app_refresh_def Let_def andthen_def recover_def stored_def grant_refusal_def store_refusal_def refuse_def)
  next
    case True
    let ?w = "w\<lparr>wo_store := c2\<rparr>"
    have run2: "reused_refresh e (rg_session g) sess key ?w = (q, w')"
      using run token l1 l2 True grant(2,3) by (simp add: app_refresh_def Let_def andthen_def recover_def stored_def)
    let ?w1 = "?w\<lparr>wo_events := wo_events w @ [Login_Failure ''an AI app's refresh token used a second time; the connection is ended'']\<rparr>"
    have run3: "andthen (end_connection e (rg_session g) sess [key]) (\<lambda>_. invalid_grant) ?w1 = (q, w')"
      using run2 by (simp add: reused_refresh_def andthen_def record_event_def)
    obtain x v where ec: "end_connection e (rg_session g) sess [key] ?w1 = (x, v)" by fastforce
    show ?thesis
    proof (cases x)
      case (Inl y)
      with ec run3 end_connection_Inl[of e "rg_session g" sess "[key]" ?w1 y v] show ?thesis by simp
    next
      case (Inr y)
      then have "invalid_grant v = (q, w')" using ec run3 by simp
      then have q: "q = Inl (OAuth_Refused 400 ''invalid_grant'')" "wo_store w' = wo_store v"
        using invalid_grant_run[of v] by (metis Pair_inject)+
      obtain conns where v: "sees V e v = (sees V e ?w1)\<lparr>v_sessions := (v_sessions (sees V e ?w1))(rg_session g := None),
         v_refresh := without (s_refresh_key sess # [key]) (v_refresh (sees V e ?w1)), v_conns := conns\<rparr>"
        using end_connection_Inr(1)[OF store now ec[unfolded Inr]] by blast
      have "sees V e ?w1 = sees V e w" using g s by (simp add: sees_def)
      with v q have view: "v_sessions (sees V e w') (rg_session g) = None"
        "v_refresh (sees V e w') = without [s_refresh_key sess, key] (v_refresh (sees V e w))"
        by (simp_all add: sees_def)
      have never: "\<exists>p. fst (app_refresh e' rq' app' u) = Inl p"
        if "en_ops e' = en_ops e" "en_now e \<le> en_now e'" "wo_store u = wo_store w'"
          "v_refresh (sees V e' u) (refresh_key (en_crypto e') (peek rq' ''refresh_token'')) = Some g'"
          "rg_session g' = rg_session g" for e' :: "'a env" and rq' app' u g'
      proof -
        have "v_sessions (sees V e' u) (rg_session g) = None"
          using session_store.later[OF store that(2), of "wo_store w'"] view(1) that(3)
          by (auto simp: sees_def view_le_def map_le_def dom_def)
        moreover have "session_store (en_ops e') V" "0 \<le> en_now e'" using store now that(1,2) by simp_all
        ultimately show ?thesis
          using app_refresh_needs_session[of e' V rq' app' u] that(4,5)
          by (cases "app_refresh e' rq' app' u"; cases "fst (app_refresh e' rq' app' u)") auto
      qed
      with q view show ?thesis by blast
    qed
  qed
qed

section \<open>The grants on an example\<close>

definition example_assistant :: assistant where
  "example_assistant = \<lparr>a_tenant = ''t1'', a_tenant_name = ''Firm'', a_key = ''svc:assistant-1'', a_name = ''Helper'',
     a_scopes = [''orders/list:read'', ''orders/list:write'']\<rparr>"

definition assistant_env :: "(string \<times> jose_header \<times> claim_set) list \<Rightarrow> memory env" where
  "assistant_env known = example_env (Some (example_register ''sub:p1'' staff [example_assistant])) known"

definition app_session :: session where
  "app_session = example_session\<lparr>s_client_id := ''assistant-app'', s_assistant := ''svc:assistant-1'',
     s_app_scopes := [''orders/list:read'', ''orders/list:write''], s_thumbprint := [], s_last_used := example_now - 30 * second,
     s_refresh_key := refresh_key (run_crypto []) ''r2''\<rparr>"

definition app_code_entry :: app_code where
  "app_code_entry = empty_code\<lparr>ac_session_id := ''S2'', ac_code_challenge := raw_url_encode ''verifier'',
     ac_code_challenge_method := ''S256'', ac_client_id := ''assistant-app'', ac_redirect_uri := ''http://127.0.0.1:8080/cb'',
     ac_assistant := ''svc:assistant-1''\<rparr>"

definition app_grant_entry :: "bool \<Rightarrow> refresh_grant" where
  "app_grant_entry rotated = \<lparr>rg_session = ''S2'', rg_client = ''assistant-app'', rg_rotated = rotated\<rparr>"

text \<open>A code, its session, a refresh token still good and one already used, and the connection's index.\<close>

definition app_entries :: "(string \<times> entry) list" where
  "app_entries =
     [(''code:A1'', \<lparr>e_value = Code_V app_code_entry, e_expires = example_now + 60 * second\<rparr>),
      (''sess:S2'', \<lparr>e_value = Session_V app_session, e_expires = example_now + 3600 * second\<rparr>),
      (''refresh:'' @ refresh_key (run_crypto []) ''r2'', \<lparr>e_value = Refresh_V (app_grant_entry False), e_expires = example_now + 3600 * second\<rparr>),
      (''refresh:'' @ refresh_key (run_crypto []) ''r1'', \<lparr>e_value = Refresh_V (app_grant_entry True), e_expires = example_now + 3600 * second\<rparr>),
      (''conn:t1/svc:assistant-1'', \<lparr>e_value = Index_V [(''sid S2'', unix_milli (example_now + 3600 * second))],
         e_expires = example_now + 3600 * second\<rparr>)]"

definition app_row :: sign_in_client where
  "app_row = sign_in_clients example_document ! 1"

definition app_code_form :: request where
  "app_code_form = post_form [(''code'', ''A1''), (''code_verifier'', ''verifier''), (''redirect_uri'', ''http://127.0.0.1:8080/cb''),
     (''client_id'', ''assistant-app''), (''resource'', ''https://mcp.test/orders'')] []"

definition app_refresh_form :: "string \<Rightarrow> request" where
  "app_refresh_form token = post_form [(''refresh_token'', token), (''client_id'', ''assistant-app'')] []"

lemmas run_app_store = run_store mem_add_connection_def mem_index_def mem_remove_connection_def mem_take_refresh_def
  mem_delete_refresh_def mem_delete_session_def mem_connections_def

lemmas run_app_grant = run_user_grant run_app_store persons_assistants_def connection_scopes_def answer_app_token_def issue_app_def
  app_input_def peek_def reused_refresh_def end_connection_def invalid_grant_def grant_refusal_def

lemmas app_defs = example_defs assistant_env_def app_row_def app_code_form_def app_refresh_form_def app_entries_def app_code_entry_def
  app_grant_entry_def app_session_def example_assistant_def example_session_def empty_session_def empty_code_def
  second_def example_now_def of_unix_def staff_def

lemma example_app_exchange:
  "\<exists>t. fst (app_code_exchange (assistant_env []) app_code_form app_row (example_world app_entries)) = Inr (Token_Reply t)"
  by (simp add: app_code_exchange_def run_app_grant app_defs verify_pkce_def pkce_s256_def connected_session_def)


lemma example_keys_apart: "refresh_key (run_crypto []) ''r2'' \<noteq> refresh_key (run_crypto []) ''r1''"
  unfolding refresh_key_def run_crypto_parts by code_simp

lemma example_app_refresh:
  "\<exists>t. fst (app_refresh (assistant_env []) (app_refresh_form ''r2'') app_row (example_world app_entries)) = Inr (Token_Reply t)"
  by (simp add: app_refresh_def run_app_grant app_defs)

lemma assistant_store: "session_store (en_ops (assistant_env known)) memory_view" "0 \<le> en_now (assistant_env known)"
  by (simp_all add: app_defs mem.session_store_axioms)

lemma app_view:
  "v_refresh (sees memory_view (assistant_env known) (example_world app_entries)) (refresh_key (run_crypto []) ''r1'') = Some (app_grant_entry True)"
  "v_sessions (sees memory_view (assistant_env known) (example_world app_entries)) ''S2'' = Some app_session"
  unfolding sees_def memory_view_def view.select_convs
  using example_keys_apart by (simp_all add: lookup_live_def live_def app_defs)

theorem app_code_makes_connection_witness:
  "\<exists>r w. app_code_exchange (assistant_env []) app_code_form app_row (example_world app_entries) = (Inr r, w)
     \<and> v_codes (sees memory_view (assistant_env []) w) ''A1'' = None"
proof -
  obtain r w where run: "app_code_exchange (assistant_env []) app_code_form app_row (example_world app_entries) = (Inr r, w)"
    using example_app_exchange by (auto dest: ran)
  have "peek app_code_form ''code'' = ''A1''" by (simp add: app_defs peek_def)
  from app_code_makes_connection[OF assistant_store run, unfolded Let_def this]
  have "v_codes (sees memory_view (assistant_env []) w) ''A1'' = None" by (elim exE conjE) simp
  with run show ?thesis by blast
qed

theorem app_refresh_rotates_witness:
  "\<exists>r w g. app_refresh (assistant_env []) (app_refresh_form ''r2'') app_row (example_world app_entries) = (Inr r, w)
     \<and> v_refresh (sees memory_view (assistant_env []) w) (refresh_key (run_crypto []) ''r2'') = Some g \<and> rg_rotated g"
proof -
  obtain r w where run: "app_refresh (assistant_env []) (app_refresh_form ''r2'') app_row (example_world app_entries) = (Inr r, w)"
    using example_app_refresh by (auto dest: ran)
  have "refresh_key (en_crypto (assistant_env [])) (peek (app_refresh_form ''r2'') ''refresh_token'') = refresh_key (run_crypto []) ''r2''"
    by (simp add: app_defs peek_def)
  from app_refresh_rotates[OF assistant_store run, unfolded Let_def this]
  have "\<exists>g. v_refresh (sees memory_view (assistant_env []) w) (refresh_key (run_crypto []) ''r2'') = Some g \<and> rg_rotated g"
    by (elim exE conjE) simp
  with run show ?thesis by blast
qed

theorem reused_refresh_ends_connection_witness:
  "\<exists>w. app_refresh (assistant_env []) (app_refresh_form ''r1'') app_row (example_world app_entries)
      = (Inl (OAuth_Refused 400 ''invalid_grant''), w)
     \<and> v_sessions (sees memory_view (assistant_env []) w) ''S2'' = None"
proof -
  have q: "fst (app_refresh (assistant_env []) (app_refresh_form ''r1'') app_row (example_world app_entries))
      = Inl (OAuth_Refused 400 ''invalid_grant'')"
    using example_keys_apart by (simp add: app_refresh_def run_app_grant app_defs)
  note run = ran[OF q]
  have k: "peek (app_refresh_form ''r1'') ''refresh_token'' \<noteq> []"
    "refresh_key (run_crypto []) ''r1'' = refresh_key (en_crypto (assistant_env [])) (peek (app_refresh_form ''r1'') ''refresh_token'')"
    by (simp_all add: app_defs peek_def)
  have g: "rg_rotated (app_grant_entry True)" "rg_client (app_grant_entry True) = si_id app_row" "rg_session (app_grant_entry True) = ''S2''"
    by (simp_all add: app_grant_entry_def app_row_def example_document_def)
  have live: "v_sessions (sees memory_view (assistant_env []) (example_world app_entries)) (rg_session (app_grant_entry True)) = Some app_session"
    "\<not> session_expired app_session (en_now (assistant_env []))"
    using app_view(2) by (simp_all add: g session_expired_def app_defs)
  from reused_refresh_ends_connection[OF assistant_store k app_view(1) g(1,2) live run] run show ?thesis
    unfolding g(3) by blast
qed


end
