(* ===== verification/Token.thy ===== *)
theory Token
  imports App_Grant
begin

text \<open>
  The token endpoint, \<open>src/routes/token.go\<close>: its dispatch on the grant type, the service grant, and the
  token exchange, by which a service obtains a token that acts for the person another token names.
\<close>

definition grant_token_exchange :: string where "grant_token_exchange = ''urn:ietf:params:oauth:grant-type:token-exchange''"
definition token_type_access_token :: string where "token_type_access_token = ''urn:ietf:params:oauth:token-type:access_token''"

text \<open>A service client's secret must be presented, by one way.\<close>

definition presented_secret :: "request \<Rightarrow> string \<Rightarrow> ('c, string) handler" where
  "presented_secret rq cid =
     andthen (client_secret rq cid) (\<lambda>(secret, presented).
     andthen (guard presented Unauthorized) (\<lambda>_. ret secret))"

definition requested_scopes :: "request \<Rightarrow> string list" where
  "requested_scopes rq = (case rq_optional rq ''scope'' of Some s \<Rightarrow> parse_scope_string s | None \<Rightarrow> [])"

definition allowed_or_refused :: "'c env \<Rightarrow> string \<Rightarrow> string \<Rightarrow> string list \<Rightarrow> ('c, string list) handler" where
  "allowed_or_refused e cid audience requested =
     from_sum (allowed_scopes (en_registry e) cid audience requested)
       (\<lambda>err. refuse (case err of Grant_Denied _ \<Rightarrow> Forbidden | _ \<Rightarrow> Unauthorized))"

definition grant_client_credentials :: "'c env \<Rightarrow> request \<Rightarrow> string \<Rightarrow> ('c, reply) handler" where
  "grant_client_credentials e rq thumbprint =
     andthen (need_field rq ''client_id'') (\<lambda>cid.
     andthen (presented_secret rq cid) (\<lambda>secret.
     andthen (need_field rq ''audience'') (\<lambda>audience.
     let requested = requested_scopes rq; tenant = (case rq_optional rq ''tenant'' of Some t \<Rightarrow> t | None \<Rightarrow> []) in
     andthen (from_sum (authenticate (en_registry e) cid secret) (\<lambda>_. refuse Unauthorized)) (\<lambda>_.
     andthen (allowed_or_refused e cid audience requested) (\<lambda>allowed.
     andthen (if tenant \<noteq> [] then service_account_scopes e cid tenant allowed else ret allowed) (\<lambda>scopes.
     andthen (random_token e 16) (\<lambda>jti.
     andthen (from_option (issue_service (en_crypto e) (en_issuer e) (en_now e) jti
        \<lparr>st_client_id = cid, st_audience = audience, st_scopes = scopes, st_tenant = tenant, st_thumbprint = thumbprint\<rparr>)
        (refuse Internal)) (\<lambda>(tok, secs).
     andthen (record_event (Service_Token_Issued cid audience tenant scopes)) (\<lambda>_.
     ret (Token_Reply (plain_token tok token_type_dpop secs)))))))))))"

section \<open>Acting for somebody\<close>

definition may_be_acted_for :: "'c env \<Rightarrow> claim_set \<Rightarrow> bool" where
  "may_be_acted_for e subject \<longleftrightarrow> \<not> en_is_service e subject \<or> cl_tenant subject \<noteq> []"

definition delegation_refused :: "string \<Rightarrow> string \<Rightarrow> string \<Rightarrow> ('c, 'a) handler" where
  "delegation_refused cid subject why =
     andthen (record_event (Delegation_Refused cid subject why)) (\<lambda>_. refuse Forbidden)"

definition delegated_input :: "string \<Rightarrow> string \<Rightarrow> claim_set \<Rightarrow> string list \<Rightarrow> string \<Rightarrow> delegated_token_input" where
  "delegated_input cid audience subject scopes thumbprint =
     \<lparr>dt_subject = cl_subject subject, dt_audience = audience, dt_scopes = scopes, dt_loa = cl_loa subject,
      dt_login_method = cl_login_method subject, dt_serial_number = cl_serial_number subject,
      dt_tenant = cl_tenant subject, dt_actor = Some (Actor cid (cl_act subject)), dt_thumbprint = thumbprint, dt_ttl = 0\<rparr>"

definition exchange_scopes :: "'c env \<Rightarrow> string \<Rightarrow> string \<Rightarrow> claim_set \<Rightarrow> string list \<Rightarrow> string list" where
  "exchange_scopes e cid audience subject scopes =
     (if cl_login_method subject = login_assistant
      then narrow_for_assistant scopes (cl_scope subject) (assistant_levels (en_registry e) cid audience) else scopes)"

definition grant_exchange :: "'c env \<Rightarrow> request \<Rightarrow> string \<Rightarrow> ('c, reply) handler" where
  "grant_exchange e rq thumbprint =
     andthen (need_field rq ''client_id'') (\<lambda>cid.
     andthen (presented_secret rq cid) (\<lambda>secret.
     andthen (need_field rq ''audience'') (\<lambda>audience.
     andthen (need_field rq ''subject_token'') (\<lambda>subject_token.
     andthen (guard (rq_optional rq ''subject_token_type'' \<in> {None, Some token_type_access_token}) (Param_Invalid ''subject_token_type'')) (\<lambda>_.
     andthen (from_sum (authenticate (en_registry e) cid secret) (\<lambda>_. refuse Unauthorized)) (\<lambda>_.
     andthen (from_option (parse_subject_token (en_crypto e) (en_issuer e) (en_now e) subject_token) (refuse Unauthorized)) (\<lambda>(subject, connection).
     andthen (if may_be_acted_for e subject then ret ()
        else delegation_refused cid (cl_subject subject) ''a platform service acting as itself cannot be acted for'') (\<lambda>_.
     andthen (if may_act_from (en_registry e) cid (cl_audience subject) then ret ()
        else delegation_refused cid (cl_subject subject) ''the subject token was issued for an audience this client does not act from'') (\<lambda>_.
     andthen (if cl_login_method subject = login_assistant \<and> cl_client_id subject \<noteq> []
        then app_connection_live e cid subject connection else ret ()) (\<lambda>_.
     andthen (allowed_or_refused e cid audience (requested_scopes rq)) (\<lambda>allowed.
     let scopes = exchange_scopes e cid audience subject allowed in
     andthen (random_token e 16) (\<lambda>jti.
     andthen (from_option (issue_delegated (en_crypto e) (en_issuer e) (en_now e) jti
        (delegated_input cid audience subject scopes thumbprint)) (refuse Internal)) (\<lambda>(tok, secs).
     andthen (record_event (Delegated_Token_Issued cid (cl_subject subject) audience scopes)) (\<lambda>_.
     ret (Token_Reply ((plain_token tok token_type_dpop secs)\<lparr>tk_issued_type := token_type_access_token\<rparr>))))))))))))))))"

section \<open>The endpoint\<close>

definition app_at_token :: "'c env \<Rightarrow> request \<Rightarrow> string \<Rightarrow> sign_in_client option" where
  "app_at_token e rq grant =
     (if grant = ''authorization_code'' \<or> grant = ''refresh_token''
      then Option.bind (rq_optional rq ''client_id'') (ai_app (en_registry e)) else None)"

definition token :: "'c env \<Rightarrow> request \<Rightarrow> ('c, reply) handler" where
  "token e rq =
     andthen no_store (\<lambda>_.
     andthen (need_field rq ''grant_type'') (\<lambda>grant.
     case app_at_token e rq grant of
       Some app \<Rightarrow> grant_for_app e rq grant app
     | None \<Rightarrow>
         andthen (verify_endpoint_dpop e rq []) (\<lambda>thumbprint.
         if grant = ''authorization_code'' then grant_authorization_code e rq thumbprint
         else if grant = ''client_credentials'' then grant_client_credentials e rq thumbprint
         else if grant = ''refresh_token'' then grant_refresh_token e rq thumbprint
         else if grant = grant_token_exchange then grant_exchange e rq thumbprint
         else refuse (Param_Invalid ''grant_type''))))"

section \<open>Facts\<close>

lemma case_runs [act_simps]:
  "(case r of Inl x \<Rightarrow> f x | Inr y \<Rightarrow> g y) s = (Inr z, t) \<longleftrightarrow>
     (\<exists>x. r = Inl x \<and> f x s = (Inr z, t)) \<or> (\<exists>y. r = Inr y \<and> g y s = (Inr z, t))"
  "(case m of None \<Rightarrow> n | Some y' \<Rightarrow> h y') s = (Inr z, t) \<longleftrightarrow>
     m = None \<and> n s = (Inr z, t) \<or> (\<exists>y'. m = Some y' \<and> h y' s = (Inr z, t))"
  by (auto split: sum.splits option.splits)

lemma presented_secret_Inr [act_simps]:
  "presented_secret rq cid w = (Inr s, w') \<longleftrightarrow> w' = w \<and> presents rq cid (Some s)"
  by (auto simp: presented_secret_def act_simps client_secret_Inr)

lemma allowed_or_refused_Inr [act_simps]:
  "allowed_or_refused e cid aud req w = (Inr ss, w') \<longleftrightarrow> w' = w \<and> allowed_scopes (en_registry e) cid aud req = Inr ss"
  by (auto simp: allowed_or_refused_def act_simps)

lemma delegation_refused_Inr [act_simps]: "delegation_refused cid subj why w = (Inr x, w') \<longleftrightarrow> False"
  by (simp add: delegation_refused_def act_simps)

text \<open>The connection a live answer found is the one named, in the assistant's index, its session live.\<close>

definition live_connection :: "(time \<Rightarrow> 'c \<Rightarrow> view) \<Rightarrow> 'c env \<Rightarrow> 'c world \<Rightarrow> string \<Rightarrow> string \<Rightarrow> string \<Rightarrow> string \<Rightarrow> session \<Rightarrow> bool" where
  "live_connection V e w tenant assistant connection sid sess \<longleftrightarrow>
     \<lparr>con_id = connection, con_session = sid\<rparr> \<in> v_conns (sees V e w) (conn_key tenant assistant)
     \<and> v_sessions (sees V e w) sid = Some sess \<and> \<not> session_expired sess (en_now e)
     \<and> s_assistant sess = assistant \<and> s_tenant sess = tenant \<and> s_sid sess = connection"

lemma named_connection_Inr:
  assumes "session_store (en_ops e) V" "0 \<le> en_now e"
    and "named_connection e t a con cs w = (Inr (Some (sid, sess)), w')"
  shows "\<lparr>con_id = con, con_session = sid\<rparr> \<in> set cs \<and> sees V e w' = sees V e w
     \<and> v_sessions (sees V e w) sid = Some sess \<and> \<not> session_expired sess (en_now e)
     \<and> s_assistant sess = a \<and> s_tenant sess = t \<and> s_sid sess = con"
  using assms(3)
proof (induction cs arbitrary: w)
  case (Cons c cs)
  show ?case
  proof (cases "con_id c = con")
    case False
    with Cons show ?thesis by simp
  next
    case True
    with Cons.prems obtain s1 where l: "op_load_session (en_ops e) sid (en_now e) (wo_store w) = (Inr sess, s1)" "w' = w\<lparr>wo_store := s1\<rparr>"
      "con_session c = sid" "s_assistant sess = a" "s_tenant sess = t" "s_sid sess = con"
      by (auto simp: act_simps stored_Inl split: if_split_asm)
    moreover have "c = \<lparr>con_id = con, con_session = sid\<rparr>" using True l(3) by (cases c) simp
    ultimately show ?thesis
      using session_store.loaded_session[OF assms(1,2) l(1)] by (simp add: sees_def)
  qed
qed simp

lemma app_connection_live_Inr:
  assumes store: "session_store (en_ops e) V" and now: "0 \<le> en_now e"
    and run: "app_connection_live e cid c con w = (Inr u, w')"
  shows "is_ai_app e (cl_client_id c) \<and> con \<noteq> [] \<and> cl_tenant c \<noteq> [] \<and> actor_name (cl_act c) \<noteq> [] \<and>
    (\<exists>sid sess. live_connection V e w (cl_tenant c) (actor_name (cl_act c)) con sid sess
      \<and> s_subject sess = cl_subject c \<and> s_client_id sess = cl_client_id c
      \<and> sees V e w' = (if time_sub (en_now e) (s_last_used sess) < 60 * second then sees V e w
          else (sees V e w)\<lparr>v_sessions := (v_sessions (sees V e w))(sid \<mapsto> sess\<lparr>s_last_used := truncate_second (en_now e)\<rparr>)\<rparr>))"
  using run[unfolded app_connection_live_def find_connection_def, simplified run_app, simplified]
proof (elim exE conjE, goal_cases)
  case (1 found v cs sid w1 sess c1)
  have found: "found = Some (sid, sess)" "s_subject sess = cl_subject c" "s_client_id sess = cl_client_id c"
    using 1(6) by (auto split: option.splits prod.splits if_splits)
  have cs: "set cs = v_conns (sees V e w) (conn_key (cl_tenant c) (actor_name (cl_act c))) \<and> V (en_now e) c1 = sees V e w"
    using refines_Inr[OF session_store.connections[OF store now] 1(8)] by (auto simp: spec_connections_def sees_def)
  note nc = named_connection_Inr[OF store now 1(5)[unfolded found(1)]]
  have live: "live_connection V e w (cl_tenant c) (actor_name (cl_act c)) con sid sess"
    and v: "sees V e v = sees V e w"
    using nc cs 1(9) by (simp_all add: live_connection_def sees_def)
  have "sees V e w' = (if time_sub (en_now e) (s_last_used sess) < 60 * second then sees V e w
          else (sees V e w)\<lparr>v_sessions := (v_sessions (sees V e w))(sid \<mapsto> sess\<lparr>s_last_used := truncate_second (en_now e)\<rparr>)\<rparr>)"
  proof (cases "time_sub (en_now e) (s_last_used sess) < 60 * second")
    case True
    then show ?thesis using 1(7) v by simp
  next
    case False
    then obtain c2 where "op_replace_session (en_ops e) sid (sess\<lparr>s_last_used := truncate_second (en_now e)\<rparr>) (en_now e) (wo_store v) = (Inr u, c2)"
      "w' = v\<lparr>wo_store := c2\<rparr>"
      using 1(7) by auto
    then show ?thesis using session_store.replaced_session[OF store now] v False by (simp add: sees_def)
  qed
  with live found 1(1-4) show ?case by blast
qed


section \<open>An exchange on an example\<close>

definition example_subject :: claim_set where
  "example_subject = user_claims (example_issuer ''K1'' []) example_now ''j'' example_user"

definition known_subject :: "(string \<times> jose_header \<times> claim_set) list" where
  "known_subject = [(''subject'', \<lparr>jh_alg = es256, jh_kid = ''K1'', jh_typ = type_access_token\<rparr>, example_subject)]"

definition exchange_form_of :: "string \<Rightarrow> request" where
  "exchange_form_of audience = post_form [(''grant_type'', grant_token_exchange), (''client_id'', ''edge''),
     (''client_secret'', ''secret of edge''), (''audience'', audience), (''subject_token'', ''subject'')] ''P1''"

lemma example_subject_parses:
  "parse_subject_token (run_crypto known_subject) (example_issuer ''K1'' []) example_now ''subject'' = Some (example_subject, [])"
  by code_simp

lemma example_edge:
  "authenticate example_registry ''edge'' ''secret of edge'' = Inr (service_clients example_document ! 0)"
  "allowed_scopes example_registry ''edge'' ''orders'' [] = Inr [''orders/list:read'', ''orders/list:write'', ''staff:lead'']"
  "may_act_from example_registry ''edge'' (cl_audience example_subject)"
  "cl_login_method example_subject = ''webEid'' \<and> cl_subject example_subject = ''p1'' \<and> cl_tenant example_subject = ''t1''"
  by code_simp+

lemma example_exchange_runs:
  "\<exists>t. fst (grant_exchange (example_env None known_subject) (exchange_form_of ''orders'') ''jkt'' (example_world [])) = Inr (Token_Reply t)"
  by (simp add: grant_exchange_def presented_secret_def allowed_or_refused_def requested_scopes_def may_be_acted_for_def
     exchange_scopes_def issue_delegated_def sign_access_def sign_typed_def client_secret_def basic_credentials_def
     equal_fold_def step_defs example_defs exchange_form_of_def example_subject_parses example_edge login_assistant_def
     Let_def delegated_input_def)


section \<open>A service's own token\<close>

lemma service_account_scopes_Inr:
  assumes "service_account_scopes e cid tenant allowed w = (Inr scopes, w')"
  shows "\<exists>rb b m. en_register e = Some rb \<and> door_answered e rb cid Memberships_Door b \<and> db_subject_key b = cid
     \<and> m \<in> set (db_memberships b) \<and> (tenant \<noteq> [] \<longrightarrow> m_tenant m = tenant)
     \<and> scopes = filter (\<lambda>s. s \<in> set (m_scopes m)) allowed \<and> scopes \<noteq> []"
proof -
  obtain rb where rb: "en_register e = Some rb"
    using assms by (cases "en_register e") (simp_all add: service_account_scopes_def refuse_def)
  then obtain ms u m where ms: "ask_memberships e rb cid w = (Inr ms, u)" and m: "fst (choose_membership ms tenant) = Some m"
    and sc: "scopes = intersect_scopes allowed (m_scopes m)" "scopes \<noteq> []"
    using assms by (auto simp: service_account_scopes_def act_simps)
  obtain b where "door_answered e rb cid Memberships_Door b" "db_subject_key b = cid" "ms = db_memberships b"
    using ask_memberships_Inr[OF ms] by blast
  with rb m sc show ?thesis
    using choose_named[OF m] choose_some[OF m] by (auto simp: intersect_scopes_def)
qed

text \<open>
  C10. A service client is answered a token of its own only having presented its secret, with scopes of
  its grant toward the audience alone. One that names an organisation is a member of it as the register
  answers now about that very client, and carries what the membership grants too, never nothing; one that
  names none carries no organisation, and the register is not asked.
\<close>

theorem service_token_within_grant:
  assumes run: "grant_client_credentials e rq jkt w = (Inr r, w')"
  shows "\<exists>cid secret row audience allowed scopes tenant jti t.
     rq_string rq ''client_id'' = Some cid \<and> presents rq cid (Some secret)
     \<and> authenticate (en_registry e) cid secret = Inr row
     \<and> rq_string rq ''audience'' = Some audience
     \<and> allowed_scopes (en_registry e) cid audience (requested_scopes rq) = Inr allowed
     \<and> tenant = (case rq_optional rq ''tenant'' of Some t \<Rightarrow> t | None \<Rightarrow> [])
     \<and> (if tenant = [] then scopes = allowed \<and> wo_calls w' = wo_calls w
        else \<exists>rb b m. en_register e = Some rb \<and> door_answered e rb cid Memberships_Door b \<and> db_subject_key b = cid
               \<and> m \<in> set (db_memberships b) \<and> m_tenant m = tenant
               \<and> scopes = filter (\<lambda>s. s \<in> set (m_scopes m)) allowed \<and> scopes \<noteq> [])
     \<and> issue_service (en_crypto e) (en_issuer e) (en_now e) jti
          \<lparr>st_client_id = cid, st_audience = audience, st_scopes = scopes, st_tenant = tenant, st_thumbprint = jkt\<rparr>
          = Some (tk_access t, tk_expires_in t)
     \<and> r = Token_Reply t \<and> tk_type t = ''DPoP'' \<and> tk_refresh t = []"
  using run[unfolded grant_client_credentials_def, simplified act_simps Let_def split_paired_Ex prod.case, simplified]
proof (elim exE conjE, goal_cases)
  case (1 cid secret audience row allowed scopes v tok secs)
  let ?tenant = "case rq_optional rq ''tenant'' of Some t \<Rightarrow> t | None \<Rightarrow> []"
  let ?t = "plain_token tok token_type_dpop secs"
  have tenant: "if ?tenant = [] then scopes = allowed \<and> wo_calls w' = wo_calls w
        else \<exists>rb b m. en_register e = Some rb \<and> door_answered e rb cid Memberships_Door b \<and> db_subject_key b = cid
               \<and> m \<in> set (db_memberships b) \<and> m_tenant m = ?tenant
               \<and> scopes = filter (\<lambda>s. s \<in> set (m_scopes m)) allowed \<and> scopes \<noteq> []"
    using 1(6,9) unfolding 1(9)[symmetric] by (auto dest!: service_account_scopes_Inr split: option.splits if_splits)
  show ?case
    by (rule exI[of _ cid], rule exI[of _ secret], rule exI[of _ row], rule exI[of _ audience], rule exI[of _ allowed],
      rule exI[of _ scopes], rule exI[of _ ?tenant], rule exI, rule exI[of _ ?t], intro conjI tenant refl)
     (use 1 in \<open>simp_all add: plain_token_def token_type_dpop_def\<close>)
qed

text \<open>What a proof is checked against: the request's method and address, with the nonce policy.\<close>

definition proof_options :: "'c env \<Rightarrow> request \<Rightarrow> string \<Rightarrow> dpop_options" where
  "proof_options e rq access_token =
     \<lparr>do_method = rq_method rq, do_url = request_url rq, do_access_token = access_token,
      do_max_age = cf_dpop_max_age (en_config e), do_leeway = cf_leeway (en_config e),
      do_require_nonce = cf_dpop_nonce (en_config e)\<rparr>"

definition proof_lifetime :: "'c env \<Rightarrow> duration" where
  "proof_lifetime e = cf_dpop_max_age (en_config e) + cf_leeway (en_config e)"

lemma verify_endpoint_dpop_Inr:
  "verify_endpoint_dpop e rq access_token w = (Inr jkt, w') \<longleftrightarrow>
     (\<exists>res. en_dpop e (rq_header rq ''DPoP'') (proof_options e rq access_token) = Inr res
        \<and> (cf_dpop_nonce (en_config e) \<longrightarrow> en_nonce_ok e (dr_nonce res))
        \<and> check_and_set e (dr_jti res) (proof_lifetime e) w = (Inr True, w') \<and> jkt = dr_thumbprint res)"
proof (cases "en_dpop e (rq_header rq ''DPoP'') (proof_options e rq access_token)")
  case (Inl err)
  then show ?thesis
    by (simp add: verify_endpoint_dpop_def proof_options_def Let_def challenge_nonce_Inr dpop_refusal_Inr)
next
  case (Inr res)
  have "(if fresh then ret (dr_thumbprint res) else dpop_refusal) v = (Inr jkt, w') \<longleftrightarrow> fresh \<and> v = w' \<and> jkt = dr_thumbprint res"
    for fresh and v :: "'a world" by (auto simp: dpop_refusal_Inr)
  with Inr show ?thesis
    by (auto simp: verify_endpoint_dpop_def proof_options_def[symmetric] proof_lifetime_def Let_def challenge_nonce_Inr andthen_Inr)
qed

lemma check_and_set_again:
  assumes "check_and_set e jti ttl w = (Inr True, w')" "en_now e' < en_now e + ttl" "set (wo_seen w') \<subseteq> set (wo_seen u)"
  shows "check_and_set e' jti ttl' u \<noteq> (Inr True, u')"
  using assms by (force simp: check_and_set_def split: if_splits)



theorem service_token_within_grant_witness:
  "\<exists>t w. grant_client_credentials (example_env None []) (exchange_form_of ''orders'') ''jkt'' (example_world []) = (Inr (Token_Reply t), w)
     \<and> tk_type t = ''DPoP'' \<and> wo_calls w = []"
proof -
  have "\<exists>t. fst (grant_client_credentials (example_env None []) (exchange_form_of ''orders'') ''jkt'' (example_world [])) = Inr (Token_Reply t)"
    by (simp add: grant_client_credentials_def presented_secret_def allowed_or_refused_def requested_scopes_def
     issue_service_def sign_access_def sign_typed_def client_secret_def basic_credentials_def
     equal_fold_def step_defs example_defs exchange_form_of_def example_edge Let_def)
  then obtain t w where run: "grant_client_credentials (example_env None []) (exchange_form_of ''orders'') ''jkt'' (example_world []) = (Inr (Token_Reply t), w)"
    by (auto dest: ran)
  have "rq_optional (exchange_form_of ''orders'') ''tenant'' = None" by (simp add: exchange_form_of_def post_form_parts)
  with service_token_within_grant[OF run] have "tk_type t = ''DPoP'' \<and> wo_calls w = []"
    by (elim exE conjE) (simp add: example_world_parts)
  with run show ?thesis by blast
qed

end
