(* ===== verification/Connections.thy ===== *)
theory Connections
  imports Token
begin

text \<open>
  The AI apps connected as assistants, behind the identity door, \<open>src/routes/connections.go\<close>: a person
  lists the apps connected as their own assistants in the workspace their token names and signs one out;
  an administrator of that workspace does the same for any of its assistants, and ends every app of one.

  A handler of the code that answers \<open>ok = false\<close> has written the answer: here it stops with it.
\<close>

section \<open>Who asks\<close>

definition service_prefix :: string where "service_prefix = ''svc:''"
definition scope_group_membership :: string where "scope_group_membership = ''membership''"
definition scope_level_administrator :: string where "scope_level_administrator = ''admin''"

definition ulid_char :: "char \<Rightarrow> bool" where
  "ulid_char c \<longleftrightarrow> c \<in> set ''0123456789ABCDEFGHJKMNPQRSTVWXYZ''"

definition assistant_key :: "string \<Rightarrow> bool" where
  "assistant_key k \<longleftrightarrow>
     (case cut_prefix k ''svc:assistant-'' of Some u \<Rightarrow> length u = 26 \<and> list_all ulid_char u | None \<Rightarrow> False)"

text \<open>A claim of the caller's token; a caller with none has it empty.\<close>

definition caller_claim :: "request \<Rightarrow> (claim_set \<Rightarrow> string) \<Rightarrow> string" where
  "caller_claim rq f = (case rq_caller rq of Some c \<Rightarrow> f c | None \<Rightarrow> [])"

definition caller_has_level :: "'c env \<Rightarrow> request \<Rightarrow> string \<Rightarrow> string \<Rightarrow> bool" where
  "caller_has_level e rq g l = (case rq_caller rq of Some c \<Rightarrow> ur_has_level (en_user e) c g l | None \<Rightarrow> False)"

definition connection_refused :: "problem \<Rightarrow> ('c, 'a) handler" where
  "connection_refused p = andthen no_store (\<lambda>_. refuse p)"

definition connection_not_found :: "('c, 'a) handler" where
  "connection_not_found = connection_refused Connection_Not_Found"

definition connection_caller :: "'c env \<Rightarrow> request \<Rightarrow> ('c, string \<times> string) handler" where
  "connection_caller e rq =
     (let person = caller_claim rq cl_subject; tenant = caller_claim rq cl_tenant in
      if person = [] \<or> tenant = [] \<or> has_prefix person service_prefix
         \<or> trim_space (caller_claim rq (ur_act (en_user e))) \<noteq> [] \<or> is_ai_app e (caller_claim rq cl_client_id)
      then connection_refused Connection_Forbidden
      else ret (person, tenant))"

definition administrator :: "'c env \<Rightarrow> request \<Rightarrow> ('c, string \<times> string \<times> string) handler" where
  "administrator e rq =
     andthen (connection_caller e rq) (\<lambda>(person, tenant).
     if \<not> caller_has_level e rq scope_group_membership scope_level_administrator
     then connection_refused Connection_Forbidden
     else
       let assistant = rq_params rq ''assistant'' in
       if \<not> assistant_key assistant then connection_not_found else ret (person, tenant, assistant))"

definition own_assistants :: "'c env \<Rightarrow> string \<Rightarrow> string \<Rightarrow> ('c, assistant list) handler" where
  "own_assistants e person tenant =
     andthen (recover (persons_assistants e person) (register_unavailable (person_key person))) (\<lambda>all.
     ret (filter (\<lambda>a. a_tenant a = tenant) all))"

section \<open>The lines of an assistant\<close>

definition app_name :: "sign_in_client \<Rightarrow> string" where
  "app_name client = (if si_client_name client \<noteq> [] then si_client_name client else si_id client)"

definition line_of :: "'c env \<Rightarrow> connection \<Rightarrow> session \<Rightarrow> connection_line" where
  "line_of e c sess =
     \<lparr>cnl_id = con_id c,
      cnl_app = (case ai_app (en_registry e) (s_client_id sess) of Some app \<Rightarrow> app_name app | None \<Rightarrow> s_client_id sess),
      cnl_connected_at = rfc3339 (s_connected_at sess),
      cnl_last_used = (if s_last_used sess = 0 then None else Some (rfc3339 (s_last_used sess)))\<rparr>"

fun lines_found :: "'c env \<Rightarrow> string \<Rightarrow> string \<Rightarrow> string \<Rightarrow> connection list \<Rightarrow> ('c, (time \<times> connection_line) list) handler" where
  "lines_found e tenant assistant person [] = ret []"
| "lines_found e tenant assistant person (c # cs) =
     andthen (attempt (stored e (op_load_session (en_ops e) (con_session c)))) (\<lambda>r.
     case r of
       Inl err \<Rightarrow>
         if err = Not_Found then
           andthen (attempt (stored e (op_remove_connection (en_ops e) tenant assistant c)))
             (\<lambda>_. lines_found e tenant assistant person cs)
         else store_refusal err
     | Inr sess \<Rightarrow>
         if s_tenant sess \<noteq> tenant \<or> s_assistant sess \<noteq> assistant \<or> s_sid sess \<noteq> con_id c
            \<or> (person \<noteq> [] \<and> s_subject sess \<noteq> person)
         then lines_found e tenant assistant person cs
         else
           andthen (lines_found e tenant assistant person cs) (\<lambda>found.
           ret ((s_connected_at sess, line_of e c sess) # found)))"

text \<open>Newest first, those of one time in the order they were found.\<close>

definition connection_lines :: "'c env \<Rightarrow> string \<Rightarrow> string \<Rightarrow> string \<Rightarrow> ('c, connection_line list) handler" where
  "connection_lines e tenant assistant person =
     andthen (recover (stored e (op_connections (en_ops e) tenant assistant)) store_refusal) (\<lambda>conns.
     andthen (lines_found e tenant assistant person conns) (\<lambda>found.
     ret (map snd (sort_key (\<lambda>d. - fst d) found))))"

section \<open>The handlers\<close>

definition sign_out :: "'c env \<Rightarrow> string \<Rightarrow> string \<Rightarrow> session \<Rightarrow> bool \<Rightarrow> ('c, unit) handler" where
  "sign_out e by sid sess is_administrator =
     andthen (end_connection e sid sess []) (\<lambda>_.
     record_event (Connection_Signed_Out by (s_subject sess) (s_client_id sess) is_administrator))"

fun own_lines :: "'c env \<Rightarrow> string \<Rightarrow> string \<Rightarrow> assistant list \<Rightarrow> ('c, (string \<times> string \<times> connection_line list) list) handler" where
  "own_lines e person tenant [] = ret []"
| "own_lines e person tenant (a # own) =
     andthen (connection_lines e tenant (a_key a) person) (\<lambda>ls.
     andthen (own_lines e person tenant own) (\<lambda>out. ret ((a_key a, a_name a, ls) # out)))"

definition own_connections :: "'c env \<Rightarrow> request \<Rightarrow> ('c, reply) handler" where
  "own_connections e rq =
     andthen (connection_caller e rq) (\<lambda>(person, tenant).
     andthen (own_assistants e person tenant) (\<lambda>own.
     andthen (own_lines e person tenant own) (\<lambda>out.
     andthen no_store (\<lambda>_. ret (Own_Connections_Reply out)))))"

definition signed_out_answer :: "('c, reply) handler" where
  "signed_out_answer = andthen no_store (\<lambda>_. ret (Status_Reply 204))"

fun sign_out_among :: "'c env \<Rightarrow> string \<Rightarrow> string \<Rightarrow> string \<Rightarrow> assistant list \<Rightarrow> ('c, reply) handler" where
  "sign_out_among e person tenant name [] = connection_not_found"
| "sign_out_among e person tenant name (a # own) =
     andthen (find_connection e tenant (a_key a) name) (\<lambda>found.
     case found of
       None \<Rightarrow> sign_out_among e person tenant name own
     | Some (sid, sess) \<Rightarrow>
         if sid = [] \<or> s_subject sess \<noteq> person then sign_out_among e person tenant name own
         else andthen (sign_out e person sid sess False) (\<lambda>_. signed_out_answer))"

definition sign_out_own_connection :: "'c env \<Rightarrow> request \<Rightarrow> ('c, reply) handler" where
  "sign_out_own_connection e rq =
     andthen (connection_caller e rq) (\<lambda>(person, tenant).
     andthen (own_assistants e person tenant) (\<lambda>own.
     sign_out_among e person tenant (rq_params rq ''id'') own))"

definition assistant_connections :: "'c env \<Rightarrow> request \<Rightarrow> ('c, reply) handler" where
  "assistant_connections e rq =
     andthen (administrator e rq) (\<lambda>(by, tenant, assistant).
     andthen (connection_lines e tenant assistant []) (\<lambda>ls.
     andthen no_store (\<lambda>_. ret (Connections_Reply ls))))"

definition sign_out_assistant_connection :: "'c env \<Rightarrow> request \<Rightarrow> ('c, reply) handler" where
  "sign_out_assistant_connection e rq =
     andthen (administrator e rq) (\<lambda>(by, tenant, assistant).
     andthen (find_connection e tenant assistant (rq_params rq ''id'')) (\<lambda>found.
     case found of
       None \<Rightarrow> connection_not_found
     | Some (sid, sess) \<Rightarrow>
         if sid = [] then connection_not_found
         else andthen (sign_out e by sid sess True) (\<lambda>_. signed_out_answer)))"

fun end_each :: "'c env \<Rightarrow> string \<Rightarrow> string \<Rightarrow> string \<Rightarrow> connection list \<Rightarrow> ('c, unit) handler" where
  "end_each e by tenant assistant [] = ret ()"
| "end_each e by tenant assistant (c # cs) =
     andthen (find_connection e tenant assistant (con_id c)) (\<lambda>found.
     andthen (case found of
         None \<Rightarrow> ret ()
       | Some (sid, sess) \<Rightarrow> if sid = [] then ret () else sign_out e by sid sess True) (\<lambda>_.
     end_each e by tenant assistant cs))"

definition end_assistant_connections :: "'c env \<Rightarrow> request \<Rightarrow> ('c, reply) handler" where
  "end_assistant_connections e rq =
     andthen (administrator e rq) (\<lambda>(by, tenant, assistant).
     andthen (recover (stored e (op_connections (en_ops e) tenant assistant)) store_refusal) (\<lambda>conns.
     andthen (end_each e by tenant assistant conns) (\<lambda>_. signed_out_answer)))"

section \<open>Who is let in\<close>

lemma connection_refused_Inr [act_simps]:
  "connection_refused p w = (Inr x, w') \<longleftrightarrow> False" "connection_not_found w = (Inr x, w') \<longleftrightarrow> False"
  by (simp_all add: connection_refused_def connection_not_found_def act_simps)

text \<open>A person signed in to a workspace, themselves: no service, no AI app, nobody acting for them.\<close>

definition themselves :: "'c env \<Rightarrow> request \<Rightarrow> string \<Rightarrow> string \<Rightarrow> bool" where
  "themselves e rq person tenant \<longleftrightarrow> (\<exists>c. rq_caller rq = Some c \<and> cl_subject c = person \<and> cl_tenant c = tenant
     \<and> person \<noteq> [] \<and> tenant \<noteq> [] \<and> \<not> has_prefix person ''svc:''
     \<and> trim_space (ur_act (en_user e) c) = [] \<and> \<not> is_ai_app e (cl_client_id c))"

lemma connection_caller_Inr [act_simps]:
  "connection_caller e rq w = (Inr pt, w') \<longleftrightarrow> w' = w \<and> themselves e rq (fst pt) (snd pt)"
  by (cases pt; cases "rq_caller rq")
    (auto simp: connection_caller_def themselves_def Let_def act_simps caller_claim_def service_prefix_def split: if_splits)

lemma administrator_Inr [act_simps]:
  "administrator e rq w = (Inr (by', t, a), w') \<longleftrightarrow> w' = w \<and> themselves e rq by' t
     \<and> caller_has_level e rq ''membership'' ''admin'' \<and> rq_params rq ''assistant'' = a \<and> assistant_key a"
  by (auto simp: administrator_def act_simps Let_def scope_group_membership_def scope_level_administrator_def split: if_splits prod.splits)

lemma no_store_Inr [act_simps]:
  "no_store w = (Inr u, w') \<longleftrightarrow>
     w' = w\<lparr>wo_headers := wo_headers w @ [(''Cache-Control'', ''no-store''), (''Pragma'', ''no-cache'')]\<rparr>"
  by (auto simp: no_store_def act_simps)

lemma signed_out_answer_Inr [act_simps]:
  "signed_out_answer w = (Inr r, w') \<longleftrightarrow> r = Status_Reply 204 \<and>
     w' = w\<lparr>wo_headers := wo_headers w @ [(''Cache-Control'', ''no-store''), (''Pragma'', ''no-cache'')]\<rparr>"
  by (auto simp: signed_out_answer_def act_simps)

section \<open>What a look at an index leaves\<close>

text \<open>Names of connections are random tokens: none holds a space, and no two of one index are the same.\<close>

definition names_ok :: "view \<Rightarrow> bool" where
  "names_ok v \<longleftrightarrow> (\<forall>k. inj_on con_id (v_conns v k) \<and> (\<forall>c\<in>v_conns v k. CHR '' '' \<notin> set (con_id c) \<and> con_session c \<noteq> []))"

text \<open>A look drops, at most, names that lead to no live session.\<close>

definition drops :: "time \<Rightarrow> view \<Rightarrow> view \<Rightarrow> bool" where
  "drops now v v' \<longleftrightarrow> (\<exists>C. v' = v\<lparr>v_conns := C\<rparr> \<and>
     (\<forall>k. C k \<subseteq> v_conns v k \<and> (\<forall>c\<in>v_conns v k - C k. live_session v now (con_session c) = None)))"

lemma drops_refl [simp]: "drops now v v"
  unfolding drops_def by (rule exI[of _ "v_conns v"]) simp

lemma live_session_conns [simp]: "live_session (v\<lparr>v_conns := C\<rparr>) now sid = live_session v now sid"
  by (simp add: live_session_def)

lemma drops_trans [trans]:
  assumes "drops now u v" "drops now v w" shows "drops now u w"
proof -
  obtain C D where C: "v = u\<lparr>v_conns := C\<rparr>" "\<And>k. C k \<subseteq> v_conns u k" "\<And>k c. c \<in> v_conns u k \<Longrightarrow> c \<notin> C k \<Longrightarrow> live_session u now (con_session c) = None"
    and D: "w = v\<lparr>v_conns := D\<rparr>" "\<And>k. D k \<subseteq> v_conns v k" "\<And>k c. c \<in> v_conns v k \<Longrightarrow> c \<notin> D k \<Longrightarrow> live_session v now (con_session c) = None"
    using assms unfolding drops_def by blast
  have "w = u\<lparr>v_conns := D\<rparr>" using C(1) D(1) by simp
  moreover have "D k \<subseteq> v_conns u k" for k using C(1,2) D(2) by (metis order.trans view.select_convs(7) view.surjective view.update_convs(7))
  moreover have "live_session u now (con_session c) = None" if "c \<in> v_conns u k" "c \<notin> D k" for k c
    using C D(3)[of c k] that by (cases "c \<in> C k") auto
  ultimately show ?thesis unfolding drops_def by blast
qed

lemma drops_sessions: "drops now v v' \<Longrightarrow> v_sessions v' = v_sessions v"
  by (auto simp: drops_def)

lemma drops_live: "drops now v v' \<Longrightarrow> live_session v' t sid = live_session v t sid"
  by (auto simp: drops_def)

lemma drops_index:
  assumes "drops now v v'" shows "v_conns v' k \<subseteq> v_conns v k"
proof -
  obtain C where "v' = v\<lparr>v_conns := C\<rparr>" "\<And>k. C k \<subseteq> v_conns v k" using assms unfolding drops_def by blast
  then show ?thesis by simp
qed

lemma drops_names: "drops now v v' \<Longrightarrow> names_ok v \<Longrightarrow> names_ok v'"
  unfolding names_ok_def by (meson drops_index inj_on_subset subsetD)

lemma removed_connection:
  assumes "session_store (en_ops e) V" "0 \<le> en_now e" "CHR '' '' \<notin> set (con_id c)"
    and "stored e (op_remove_connection (en_ops e) t a c) w = (r, w')"
  shows "sees V e w' = sees V e w
    \<or> sees V e w' = (sees V e w)\<lparr>v_conns := (v_conns (sees V e w))(conn_key t a := v_conns (sees V e w) (conn_key t a) - {c})\<rparr>"
proof -
  obtain s where "op_remove_connection (en_ops e) t a c (en_now e) (wo_store w) = (r, s)" "w' = w\<lparr>wo_store := s\<rparr>"
    using assms(4) by (auto simp: stored_def split: prod.splits)
  then show ?thesis
    using session_store.remove_connection[OF assms(1,2), of t a c] assms(3)
    unfolding refines_def spec_remove_connection_def by (fastforce simp: sees_def)
qed

lemma dropped_connection:
  assumes "session_store (en_ops e) V" "0 \<le> en_now e" "CHR '' '' \<notin> set (con_id c)"
    and "stored e (op_remove_connection (en_ops e) t a c) w = (r, w')"
    and "live_session (sees V e w) (en_now e) (con_session c) = None"
  shows "drops (en_now e) (sees V e w) (sees V e w')"
  using removed_connection[OF assms(1-4)]
proof
  assume v: "sees V e w' = (sees V e w)\<lparr>v_conns := (v_conns (sees V e w))(conn_key t a := v_conns (sees V e w) (conn_key t a) - {c})\<rparr>"
  show ?thesis unfolding drops_def
    by (rule exI, rule conjI, rule v) (use assms(5) in auto)
qed simp

lemma found_index:
  assumes "session_store (en_ops e) V" "0 \<le> en_now e"
    and "recover (stored e (op_connections (en_ops e) t a)) store_refusal w = (Inr cs, w')"
  shows "set cs = v_conns (sees V e w) (conn_key t a)" "sees V e w' = sees V e w"
proof -
  obtain s where "op_connections (en_ops e) t a (en_now e) (wo_store w) = (Inr cs, s)" "w' = w\<lparr>wo_store := s\<rparr>"
    using assms(3) by (auto simp: act_simps)
  then show "set cs = v_conns (sees V e w) (conn_key t a)" "sees V e w' = sees V e w"
    using refines_Inr[OF session_store.connections[OF assms(1,2)], of t a "wo_store w" cs s] by (auto simp: spec_connections_def sees_def)
qed

text \<open>Loading the session a name leads to.\<close>

lemma loaded_named:
  assumes "session_store (en_ops e) V" "0 \<le> en_now e" "stored e (op_load_session (en_ops e) sid) w = (r, w')"
  obtains (alive) s where "r = Inr s" "live_session (sees V e w) (en_now e) sid = Some s" "sees V e w' = sees V e w"
  | (gone) "r = Inl Not_Found" "live_session (sees V e w) (en_now e) sid = None" "sees V e w' = sees V e w"
  | (down) "r = Inl Unavailable"
proof -
  obtain s where s: "op_load_session (en_ops e) sid (en_now e) (wo_store w) = (r, s)" "w' = w\<lparr>wo_store := s\<rparr>"
    using assms(3) by (auto simp: stored_def split: prod.splits)
  then have "(case live_session (sees V e w) (en_now e) sid of Some x \<Rightarrow> r = Inr x | None \<Rightarrow> r = Inl Not_Found) \<and> sees V e w' = sees V e w
      \<or> r = Inl Unavailable"
    using session_store.load_session[OF assms(1,2), of sid]
    unfolding refines_def spec_get_def does_def by (fastforce simp: sees_def split: option.splits)
  then show thesis using alive gone down by (cases "live_session (sees V e w) (en_now e) sid") auto
qed

lemma live_connection_iff:
  "live_connection V e w t a con sid sess \<longleftrightarrow>
     \<lparr>con_id = con, con_session = sid\<rparr> \<in> v_conns (sees V e w) (conn_key t a)
     \<and> live_session (sees V e w) (en_now e) sid = Some sess
     \<and> s_assistant sess = a \<and> s_tenant sess = t \<and> s_sid sess = con"
  by (auto simp: live_connection_def live_session_def split: option.splits)

lemma drops_connection:
  assumes "drops (en_now e) (sees V e w) (sees V e w')"
  shows "live_connection V e w' t a con sid sess \<longleftrightarrow> live_connection V e w t a con sid sess"
proof -
  have "\<lparr>con_id = con, con_session = sid\<rparr> \<in> v_conns (sees V e w') (conn_key t a)"
    if "\<lparr>con_id = con, con_session = sid\<rparr> \<in> v_conns (sees V e w) (conn_key t a)"
      "live_session (sees V e w) (en_now e) sid = Some sess"
    using assms that unfolding drops_def by force
  then show ?thesis
    using drops_live[OF assms] drops_index[OF assms] by (auto simp: live_connection_iff)
qed

section \<open>Finding one connection\<close>

lemma named_connection_steps:
  assumes store: "session_store (en_ops e) V" and now: "0 \<le> en_now e"
    and named: "\<forall>c\<in>set cs. CHR '' '' \<notin> set (con_id c)"
    and run: "named_connection e t a con cs w = (Inr found, w')"
  shows "drops (en_now e) (sees V e w) (sees V e w')
    \<and> (found = None \<longrightarrow> (\<forall>sid. \<lparr>con_id = con, con_session = sid\<rparr> \<in> set cs \<longrightarrow> inj_on con_id (set cs) \<longrightarrow>
         (\<forall>sess. live_session (sees V e w) (en_now e) sid = Some sess \<longrightarrow>
            \<not> (s_assistant sess = a \<and> s_tenant sess = t \<and> s_sid sess = con))))"
  using run named
proof (induction cs)
  case (Cons c cs)
  show ?case
  proof (cases "con_id c = con")
    case False
    then show ?thesis using Cons by (auto simp: inj_on_def)
  next
    case True
    obtain r v where l: "stored e (op_load_session (en_ops e) (con_session c)) w = (r, v)" by fastforce
    have only: "sid = con_session c" if "\<lparr>con_id = con, con_session = sid\<rparr> \<in> set (c # cs)" "inj_on con_id (set (c # cs))" for sid
      using inj_onD[OF that(2), of "\<lparr>con_id = con, con_session = sid\<rparr>" c] that(1) True by auto
    from store now l show ?thesis
    proof (cases rule: loaded_named)
      case (alive s)
      have "w' = v" "found = None \<longrightarrow> \<not> (s_assistant s = a \<and> s_tenant s = t \<and> s_sid s = con)"
        using Cons.prems(1) True l alive(1) by (auto simp: andthen_Inr attempt_Inr split: if_splits)
      then show ?thesis using alive(2,3) only by fastforce
    next
      case gone
      then obtain q where q: "stored e (op_remove_connection (en_ops e) t a c) v = (q, w')" and none: "found = None"
        using Cons.prems(1) True l by (auto simp: andthen_Inr attempt_Inr)
      have "drops (en_now e) (sees V e v) (sees V e w')"
        using dropped_connection[OF store now _ q] Cons.prems(2) gone by simp
      then show ?thesis using gone only by fastforce
    next
      case down
      then show ?thesis using Cons.prems True l by (simp add: andthen_Inr attempt_Inr store_refusal_Inr)
    qed
  qed
qed simp

lemma find_connection_Inr:
  assumes store: "session_store (en_ops e) V" and now: "0 \<le> en_now e" and named: "names_ok (sees V e w)"
    and run: "find_connection e t a con w = (Inr found, w')"
  shows "drops (en_now e) (sees V e w) (sees V e w')"
    and "found = Some (sid, sess) \<Longrightarrow> live_connection V e w t a con sid sess"
    and "found = None \<Longrightarrow> \<not> live_connection V e w t a con sid sess"
proof -
  obtain cs v where cs: "recover (stored e (op_connections (en_ops e) t a)) store_refusal w = (Inr cs, v)"
    and nc: "named_connection e t a con cs v = (Inr found, w')"
    using run unfolding find_connection_def andthen_Inr by blast
  note idx = found_index[OF store now cs]
  have "\<forall>c\<in>set cs. CHR '' '' \<notin> set (con_id c)" "inj_on con_id (set cs)"
    using named by (auto simp: idx(1) names_ok_def)
  note steps = named_connection_steps[OF store now this(1) nc] this(2)
  show "drops (en_now e) (sees V e w) (sees V e w')" using steps idx(2) by simp
  show "live_connection V e w t a con sid sess" if "found = Some (sid, sess)"
    using named_connection_Inr[OF store now nc[unfolded that]] idx unfolding live_connection_def by auto
  show "found = None \<Longrightarrow> \<not> live_connection V e w t a con sid sess"
    using steps idx by (auto simp: live_connection_iff)
qed

section \<open>Signing one out, and every one of an assistant\<close>

lemma connection_eta [simp]: "\<lparr>con_id = con_id c, con_session = con_session c\<rparr> = c"
  by simp

lemma sign_out_Inr:
  assumes store: "session_store (en_ops e) V" and now: "0 \<le> en_now e"
    and named: "names_ok (sees V e w)" "live_connection V e w t a con sid sess"
    and run: "sign_out e by' sid sess adm w = (Inr u, w')"
  obtains C where "sees V e w' = (sees V e w)
      \<lparr>v_sessions := (v_sessions (sees V e w))(sid := None),
       v_refresh := without [s_refresh_key sess] (v_refresh (sees V e w)), v_conns := C\<rparr>"
    "\<And>k. C k \<subseteq> v_conns (sees V e w) k"
    "Connection_Signed_Out by' (s_subject sess) (s_client_id sess) adm \<in> set (wo_events w')"
proof -
  obtain v where ec: "end_connection e sid sess [] w = (Inr (), v)"
    and w': "w' = v\<lparr>wo_events := wo_events v @ [Connection_Signed_Out by' (s_subject sess) (s_client_id sess) adm]\<rparr>"
    using run by (auto simp: sign_out_def andthen_Inr record_event_Inr)
  have "CHR '' '' \<notin> set (s_sid sess)"
    using named unfolding live_connection_def names_ok_def by fastforce
  then show thesis
    using end_connection_Inr(1)[OF store now ec] that w' by (auto simp: sees_def)
qed

text \<open>What a pass over an assistant's connections leaves: of every name there was, the index no longer
  holds it, or it leads to no live session of the assistant. A session of any other kind stays.\<close>

definition ended :: "view \<Rightarrow> time \<Rightarrow> string \<Rightarrow> string \<Rightarrow> connection \<Rightarrow> bool" where
  "ended v now t a c \<longleftrightarrow> c \<notin> v_conns v (conn_key t a) \<or>
     (\<forall>s. live_session v now (con_session c) = Some s \<longrightarrow> \<not> (s_assistant s = a \<and> s_tenant s = t \<and> s_sid s = con_id c))"

definition pass_leaves :: "view \<Rightarrow> view \<Rightarrow> string \<Rightarrow> string \<Rightarrow> bool" where
  "pass_leaves v v' t a \<longleftrightarrow> (\<forall>k. v_conns v' k \<subseteq> v_conns v k) \<and> v_sessions v' \<subseteq>\<^sub>m v_sessions v
     \<and> (\<forall>sid s. v_sessions v sid = Some s \<longrightarrow> s_tenant s \<noteq> t \<or> s_assistant s \<noteq> a \<longrightarrow> v_sessions v' sid = Some s)"

lemma pass_leaves_refl [simp]: "pass_leaves v v t a"
  by (simp add: pass_leaves_def)

lemma pass_leaves_trans: "pass_leaves u v t a \<Longrightarrow> pass_leaves v w t a \<Longrightarrow> pass_leaves u w t a"
  unfolding pass_leaves_def by (meson map_le_trans order.trans)

lemma pass_leaves_drops: "drops now v v' \<Longrightarrow> pass_leaves v v' t a"
  by (simp add: pass_leaves_def drops_index drops_sessions)

lemma pass_leavesD:
  assumes "pass_leaves v v' t a"
  shows "v_conns v' k \<subseteq> v_conns v k" "v_sessions v' sid = Some s \<Longrightarrow> v_sessions v sid = Some s"
    "v_sessions v sid = Some s \<Longrightarrow> s_tenant s \<noteq> t \<or> s_assistant s \<noteq> a \<Longrightarrow> v_sessions v' sid = Some s"
proof -
  show "v_conns v' k \<subseteq> v_conns v k" using assms unfolding pass_leaves_def by (elim conjE) (rule spec)
  have "v_sessions v' \<subseteq>\<^sub>m v_sessions v" using assms unfolding pass_leaves_def by (elim conjE)
  then show "v_sessions v' sid = Some s \<Longrightarrow> v_sessions v sid = Some s" by (metis domI map_le_def)
  show "v_sessions v sid = Some s \<Longrightarrow> s_tenant s \<noteq> t \<or> s_assistant s \<noteq> a \<Longrightarrow> v_sessions v' sid = Some s"
    using assms unfolding pass_leaves_def by (elim conjE) blast
qed

lemma live_session_Some: "live_session v now sid = Some s \<longleftrightarrow> v_sessions v sid = Some s \<and> \<not> session_expired s now"
  by (auto simp: live_session_def split: option.splits)

lemma pass_leaves_live:
  "pass_leaves v v' t a \<Longrightarrow> live_session v' now sid = Some s \<Longrightarrow> live_session v now sid = Some s"
  unfolding live_session_Some by (blast dest: pass_leavesD(2))

lemma pass_leaves_ended: "pass_leaves v v' t a \<Longrightarrow> ended v now t a c \<Longrightarrow> ended v' now t a c"
  by (auto simp: ended_def dest: pass_leaves_live pass_leavesD(1)[THEN subsetD])

lemma pass_leaves_names: "pass_leaves v v' t a \<Longrightarrow> names_ok v \<Longrightarrow> names_ok v'"
  unfolding pass_leaves_def names_ok_def by (meson inj_on_subset subsetD)

lemma end_each_Inr:
  assumes store: "session_store (en_ops e) V" and now: "0 \<le> en_now e"
    and run: "end_each e by' t a cs w = (Inr u, w')" and named: "names_ok (sees V e w)"
  shows "pass_leaves (sees V e w) (sees V e w') t a \<and> (\<forall>c\<in>set cs. ended (sees V e w') (en_now e) t a c)"
  using run named
proof (induction cs arbitrary: w)
  case (Cons c cs)
  obtain found v1 x v2 where find: "find_connection e t a (con_id c) w = (Inr found, v1)"
    and out: "(case found of None \<Rightarrow> ret () | Some (sid, sess) \<Rightarrow> if sid = [] then ret () else sign_out e by' sid sess True) v1 = (Inr x, v2)"
    and rest: "end_each e by' t a cs v2 = (Inr u, w')"
    using Cons.prems(1) by (auto simp: andthen_Inr)
  note f = find_connection_Inr[OF store now Cons.prems(2) find]
  have n1: "names_ok (sees V e v1)" using drops_names[OF f(1) Cons.prems(2)] .
  have "pass_leaves (sees V e v1) (sees V e v2) t a \<and> ended (sees V e v2) (en_now e) t a c"
  proof (cases found)
    case None
    then have "v2 = v1" using out by simp
    moreover have "\<not> live_connection V e v1 t a (con_id c) (con_session c) sess" for sess
      using f(3)[OF None] drops_connection[OF f(1)] by simp
    ultimately show ?thesis by (auto simp: ended_def live_connection_iff)
  next
    case (Some p)
    obtain sid sess where p: "found = Some (sid, sess)" using Some by (cases p) auto
    have live: "live_connection V e v1 t a (con_id c) sid sess"
      using f(2)[OF p] drops_connection[OF f(1)] by simp
    then have sid: "sid \<noteq> []" using n1 unfolding live_connection_def names_ok_def by fastforce
    have so: "sign_out e by' sid sess True v1 = (Inr x, v2)" using out p sid by simp
    obtain C where C: "sees V e v2 = (sees V e v1)
      \<lparr>v_sessions := (v_sessions (sees V e v1))(sid := None),
       v_refresh := without [s_refresh_key sess] (v_refresh (sees V e v1)), v_conns := C\<rparr>" "\<And>k. C k \<subseteq> v_conns (sees V e v1) k"
      by (rule sign_out_Inr[OF store now n1 live so]) (rule that)
    have "con_session c = sid" if "c \<in> v_conns (sees V e v1) (conn_key t a)"
    proof -
      have "inj_on con_id (v_conns (sees V e v1) (conn_key t a))" using n1 by (simp add: names_ok_def)
      then have "\<lparr>con_id = con_id c, con_session = sid\<rparr> = c"
        by (rule inj_onD) (use live that in \<open>simp_all add: live_connection_def\<close>)
      then show ?thesis by (metis connection.select_convs(2))
    qed
    then have "ended (sees V e v2) (en_now e) t a c"
      using C(2)[of "conn_key t a"] by (auto simp: ended_def live_session_Some C(1))
    moreover have "pass_leaves (sees V e v1) (sees V e v2) t a"
      using C(2) live unfolding pass_leaves_def C(1) live_connection_def by (simp add: map_le_def)
    ultimately show ?thesis by blast
  qed
  then have p1: "pass_leaves (sees V e w) (sees V e v2) t a" and c: "ended (sees V e v2) (en_now e) t a c"
    using pass_leaves_trans[OF pass_leaves_drops[OF f(1)]] by simp_all
  have p2: "pass_leaves (sees V e v2) (sees V e w') t a" and cs: "\<forall>c\<in>set cs. ended (sees V e w') (en_now e) t a c"
    using Cons.IH[OF rest pass_leaves_names[OF p1 Cons.prems(2)]] by simp_all
  show ?case using pass_leaves_trans[OF p1 p2] pass_leaves_ended[OF p2 c] cs by simp
qed simp


section \<open>What is listed\<close>

definition matching :: "view \<Rightarrow> time \<Rightarrow> string \<Rightarrow> string \<Rightarrow> string \<Rightarrow> connection \<Rightarrow> session option" where
  "matching v now t a p c =
     (case live_session v now (con_session c) of
        Some s \<Rightarrow> if s_tenant s = t \<and> s_assistant s = a \<and> s_sid s = con_id c \<and> (p = [] \<or> s_subject s = p) then Some s else None
      | None \<Rightarrow> None)"

lemma lines_found_Inr:
  assumes store: "session_store (en_ops e) V" and now: "0 \<le> en_now e"
    and run: "lines_found e t a p cs w = (Inr ls, w')" and named: "\<forall>c\<in>set cs. CHR '' '' \<notin> set (con_id c)"
  shows "drops (en_now e) (sees V e w) (sees V e w')
    \<and> ls = map (\<lambda>(c, s). (s_connected_at s, line_of e c s))
        (concat (map (\<lambda>c. case matching (sees V e w) (en_now e) t a p c of Some s \<Rightarrow> [(c, s)] | None \<Rightarrow> []) cs))"
  using run named
proof (induction cs arbitrary: w ls)
  case (Cons c cs)
  obtain r v where l: "stored e (op_load_session (en_ops e) (con_session c)) w = (r, v)" by fastforce
  have same: "matching (sees V e v') (en_now e) t a p = matching (sees V e w) (en_now e) t a p"
    if "drops (en_now e) (sees V e w) (sees V e v')" for v'
    by (rule ext) (simp add: matching_def drops_live[OF that])
  from store now l show ?case
  proof (cases rule: loaded_named)
    case (alive s)
    let ?out = "s_tenant s \<noteq> t \<or> s_assistant s \<noteq> a \<or> s_sid s \<noteq> con_id c \<or> (p \<noteq> [] \<and> s_subject s \<noteq> p)"
    show ?thesis
    proof (cases ?out)
      case True
      then have "lines_found e t a p cs v = (Inr ls, w')" using Cons.prems(1) l alive by (simp add: andthen_Inr attempt_Inr)
      moreover have "matching (sees V e w) (en_now e) t a p c = None" using True alive by (auto simp: matching_def)
      ultimately show ?thesis using Cons.IH[of v ls] Cons.prems(2) alive(3) by simp
    next
      case False
      then obtain ls' where "lines_found e t a p cs v = (Inr ls', w')" "ls = (s_connected_at s, line_of e c s) # ls'"
        using Cons.prems(1) l alive by (auto simp: andthen_Inr attempt_Inr)
      moreover have "matching (sees V e w) (en_now e) t a p c = Some s" using False alive by (auto simp: matching_def)
      ultimately show ?thesis using Cons.IH[of v ls'] Cons.prems(2) alive(3) by simp
    qed
  next
    case gone
    then obtain q v' where q: "stored e (op_remove_connection (en_ops e) t a c) v = (q, v')" "lines_found e t a p cs v' = (Inr ls, w')"
      using Cons.prems(1) l by (auto simp: andthen_Inr attempt_Inr)
    have d: "drops (en_now e) (sees V e w) (sees V e v')"
      using dropped_connection[OF store now _ q(1)] Cons.prems(2) gone by simp
    moreover have "matching (sees V e w) (en_now e) t a p c = None" using gone by (simp add: matching_def)
    ultimately show ?thesis using Cons.IH[OF q(2)] Cons.prems(2) same[OF d] drops_trans[OF d] by simp
  next
    case down
    then show ?thesis using Cons.prems(1) l by (simp add: andthen_Inr attempt_Inr store_refusal_Inr)
  qed
qed simp

lemma insort_key_map: "insort_key f (g x) (map g xs) = map g (insort_key (\<lambda>y. f (g y)) x xs)"
  by (induction xs) auto

lemma sort_key_map: "sort_key f (map g xs) = map g (sort_key (\<lambda>y. f (g y)) xs)"
  by (induction xs) (simp_all add: insort_key_map)

text \<open>An assistant's lines: those of its live connections, of the person alone when one is named, newest
  first.\<close>

definition lists :: "(time \<Rightarrow> 'c \<Rightarrow> view) \<Rightarrow> 'c env \<Rightarrow> 'c world \<Rightarrow> string \<Rightarrow> string \<Rightarrow> string \<Rightarrow> connection_line list \<Rightarrow> bool" where
  "lists V e w t a p ls \<longleftrightarrow> (\<exists>shown. ls = map (\<lambda>(c, s). line_of e c s) shown
     \<and> sorted_wrt (\<lambda>x y. s_connected_at (snd y) \<le> s_connected_at (snd x)) shown
     \<and> set shown = {(c, s). live_connection V e w t a (con_id c) (con_session c) s \<and> (p = [] \<or> s_subject s = p)})"

lemma connection_lines_Inr:
  assumes store: "session_store (en_ops e) V" and now: "0 \<le> en_now e" and named: "names_ok (sees V e w)"
    and run: "connection_lines e t a p w = (Inr ls, w')"
  shows "drops (en_now e) (sees V e w) (sees V e w')" "lists V e w t a p ls"
proof -
  obtain cs v found where idx: "recover (stored e (op_connections (en_ops e) t a)) store_refusal w = (Inr cs, v)"
    and lf: "lines_found e t a p cs v = (Inr found, w')" and ls: "ls = map snd (sort_key (\<lambda>d. - fst d) found)"
    using run unfolding connection_lines_def by (auto simp: andthen_Inr)
  note i = found_index[OF store now idx]
  let ?m = "matching (sees V e w) (en_now e) t a p"
  let ?pairs = "concat (map (\<lambda>c. case ?m c of Some s \<Rightarrow> [(c, s)] | None \<Rightarrow> []) cs)"
  have "\<forall>c\<in>set cs. CHR '' '' \<notin> set (con_id c)" using named by (auto simp: i(1) names_ok_def)
  from lines_found_Inr[OF store now lf this]
  have d: "drops (en_now e) (sees V e w) (sees V e w')"
    and f: "found = map (\<lambda>(c, s). (s_connected_at s, line_of e c s)) ?pairs" using i(2) by simp_all
  show "drops (en_now e) (sees V e w) (sees V e w')" by (rule d)
  let ?shown = "sort_key (\<lambda>(c, s). - s_connected_at s) ?pairs"
  have "ls = map (\<lambda>(c, s). line_of e c s) ?shown"
    unfolding ls f sort_key_map by (simp add: case_prod_beta' comp_def)
  moreover have "sorted_wrt (\<lambda>x y. s_connected_at (snd y) \<le> s_connected_at (snd x)) ?shown"
    using sorted_sort_key[of "\<lambda>(c, s). - s_connected_at s" ?pairs] by (simp add: sorted_map case_prod_beta')
  moreover have "set ?shown = {(c, s). live_connection V e w t a (con_id c) (con_session c) s \<and> (p = [] \<or> s_subject s = p)}"
  proof -
    have "set ?shown = {(c, s). c \<in> set cs \<and> ?m c = Some s}" by (auto split: option.splits)
    also have "\<dots> = {(c, s). live_connection V e w t a (con_id c) (con_session c) s \<and> (p = [] \<or> s_subject s = p)}"
      by (auto simp: i(1) matching_def live_connection_iff split: option.splits if_splits)
    finally show ?thesis .
  qed
  ultimately show "lists V e w t a p ls" unfolding lists_def by blast
qed

lemma lists_drops:
  assumes "drops (en_now e) (sees V e w) (sees V e v)" shows "lists V e v t a p ls \<longleftrightarrow> lists V e w t a p ls"
  by (simp add: lists_def drops_connection[OF assms])

lemma own_lines_Inr:
  assumes store: "session_store (en_ops e) V" and now: "0 \<le> en_now e"
    and run: "own_lines e p t own w = (Inr out, w')" and named: "names_ok (sees V e w)"
  shows "drops (en_now e) (sees V e w) (sees V e w')
    \<and> list_all2 (\<lambda>a (key, name, ls). key = a_key a \<and> name = a_name a \<and> lists V e w t key p ls) own out"
  using run named
proof (induction own arbitrary: w out)
  case (Cons a own)
  obtain ls v out' where ls: "connection_lines e t (a_key a) p w = (Inr ls, v)"
    and rest: "own_lines e p t own v = (Inr out', w')" and out: "out = (a_key a, a_name a, ls) # out'"
    using Cons.prems(1) by (auto simp: andthen_Inr)
  note l = connection_lines_Inr[OF store now Cons.prems(2) ls]
  show ?case
    using Cons.IH[OF rest drops_names[OF l(1) Cons.prems(2)]] l(2) drops_trans[OF l(1)]
    by (simp add: out lists_drops[OF l(1)])
qed simp

text \<open>The person's assistants in a workspace, as the register answers now about that very person.\<close>

definition answered_own :: "'c env \<Rightarrow> string \<Rightarrow> string \<Rightarrow> assistant list \<Rightarrow> bool" where
  "answered_own e person tenant own \<longleftrightarrow> (\<exists>all. own = filter (\<lambda>a. a_tenant a = tenant) all
     \<and> (en_register e = None \<and> all = []
        \<or> (\<exists>rb b. en_register e = Some rb \<and> door_answered e rb (person_key person) Assistants_Door b
             \<and> db_subject_key b = person_key person \<and> all = db_assistants b)))"

lemma own_assistants_Inr:
  assumes "own_assistants e person tenant w = (Inr own, w')"
  shows "answered_own e person tenant own" "wo_store w' = wo_store w"
proof -
  obtain all where all: "persons_assistants e person w = (Inr all, w')" "own = filter (\<lambda>a. a_tenant a = tenant) all"
    using assms by (auto simp: own_assistants_def andthen_Inr recover_Inr register_unavailable_Inr)
  then show "answered_own e person tenant own" "wo_store w' = wo_store w"
    using persons_assistants_Inr[OF all(1)] storelessD[OF storeless_persons_assistants all(1)] by (auto simp: answered_own_def)
qed

text \<open>
  C35. A person's list of connected apps, once answered: it goes to a person acting for themselves, has one
  group per assistant of theirs in the workspace of their token, as the register answers now, and each group
  holds exactly the live connections of that assistant in that workspace that are the person's, newest
  first. Looking changes nothing but to drop names that lead to no live session.
\<close>

theorem own_connections_listed:
  assumes store: "session_store (en_ops e) V" and now: "0 \<le> en_now e" and named: "names_ok (sees V e w)"
    and run: "own_connections e rq w = (Inr r, w')"
  shows "\<exists>person tenant own groups. themselves e rq person tenant \<and> answered_own e person tenant own
    \<and> r = Own_Connections_Reply groups
    \<and> list_all2 (\<lambda>a (key, name, ls). key = a_key a \<and> name = a_name a \<and> lists V e w tenant key person ls) own groups
    \<and> drops (en_now e) (sees V e w) (sees V e w')"
proof -
  obtain person tenant own v groups u where who: "themselves e rq person tenant"
    and own: "own_assistants e person tenant w = (Inr own, v)"
    and ls: "own_lines e person tenant own v = (Inr groups, u)"
    and fin: "r = Own_Connections_Reply groups" "wo_store w' = wo_store u"
    using run unfolding own_connections_def
    by (auto simp: andthen_Inr connection_caller_Inr no_store_Inr)
  note o = own_assistants_Inr[OF own]
  have v: "sees V e v = sees V e w" "sees V e w' = sees V e u" using o(2) fin(2) by (simp_all add: sees_def)
  have "lists V e v = lists V e w"
    by (intro ext) (simp add: lists_def live_connection_iff v)
  then show ?thesis
    using own_lines_Inr[OF store now ls] named who o(1) fin(1) v
    by (intro exI[of _ person] exI[of _ tenant] exI[of _ own] exI[of _ groups]) simp
qed

lemma sign_out_among_Inr:
  assumes store: "session_store (en_ops e) V" and now: "0 \<le> en_now e"
    and run: "sign_out_among e p t name own w = (Inr r, w')" and named: "names_ok (sees V e w)"
  shows "\<exists>a sid sess C. a \<in> set own \<and> live_connection V e w t (a_key a) name sid sess \<and> s_subject sess = p
    \<and> r = Status_Reply 204
    \<and> sees V e w' = (sees V e w)\<lparr>v_sessions := (v_sessions (sees V e w))(sid := None),
         v_refresh := without [s_refresh_key sess] (v_refresh (sees V e w)), v_conns := C\<rparr>
    \<and> (\<forall>k. C k \<subseteq> v_conns (sees V e w) k)
    \<and> Connection_Signed_Out p p (s_client_id sess) False \<in> set (wo_events w')"
  using run named
proof (induction own arbitrary: w)
  case Nil
  then show ?case by (simp add: connection_refused_Inr)
next
  case (Cons a own)
  obtain found v where find: "find_connection e t (a_key a) name w = (Inr found, v)"
    and next': "(case found of None \<Rightarrow> sign_out_among e p t name own
       | Some (sid, sess) \<Rightarrow> if sid = [] \<or> s_subject sess \<noteq> p then sign_out_among e p t name own
           else andthen (sign_out e p sid sess False) (\<lambda>_. signed_out_answer)) v = (Inr r, w')"
    using Cons.prems(1) by (auto simp: andthen_Inr)
  note f = find_connection_Inr[OF store now Cons.prems(2) find]
  obtain D where D: "sees V e v = (sees V e w)\<lparr>v_conns := D\<rparr>" "\<And>k. D k \<subseteq> v_conns (sees V e w) k"
    using f(1) unfolding drops_def by blast
  show ?case
  proof (cases "\<exists>sid sess. found = Some (sid, sess) \<and> sid \<noteq> [] \<and> s_subject sess = p")
    case False
    then have "sign_out_among e p t name own v = (Inr r, w')" using next' by (auto split: option.splits prod.splits if_splits)
    from Cons.IH[OF this drops_names[OF f(1) Cons.prems(2)]] show ?thesis
      unfolding drops_connection[OF f(1)] D(1)
      by (elim exE conjE) (rule exI, rule exI, rule exI, rule exI, intro conjI, auto dest: D(2)[THEN subsetD])
  next
    case True
    then obtain sid sess where p: "found = Some (sid, sess)" "sid \<noteq> []" "s_subject sess = p" by blast
    then obtain x u where so: "sign_out e p sid sess False v = (Inr x, u)" and fin: "signed_out_answer u = (Inr r, w')"
      using next' by (auto simp: andthen_Inr)
    have live: "live_connection V e v t (a_key a) name sid sess"
      using f(2)[OF p(1)] drops_connection[OF f(1)] by simp
    obtain C where C: "sees V e u = (sees V e v)\<lparr>v_sessions := (v_sessions (sees V e v))(sid := None),
         v_refresh := without [s_refresh_key sess] (v_refresh (sees V e v)), v_conns := C\<rparr>"
      "\<And>k. C k \<subseteq> v_conns (sees V e v) k" "Connection_Signed_Out p (s_subject sess) (s_client_id sess) False \<in> set (wo_events u)"
      by (rule sign_out_Inr[OF store now drops_names[OF f(1) Cons.prems(2)] live so]) (rule that)
    have w': "r = Status_Reply 204" "sees V e w' = sees V e u" "wo_events w' = wo_events u"
      using fin by (auto simp: signed_out_answer_Inr sees_def)
    have "C k \<subseteq> v_conns (sees V e w) k" for k
      using C(2)[of k] D(2)[of k] by (auto simp: D(1))
    then show ?thesis
      using f(2)[OF p(1)] p(3) w' C(1,3)
      by (intro exI[of _ a] exI[of _ sid] exI[of _ sess] exI[of _ C]) (simp add: D(1) fun_upd_def)
  qed
qed

text \<open>
  A person's sign-out of a connected app, once answered, ended one live connection of that name: one
  of an assistant the register answers now is theirs in their token's workspace, over a session of the
  person's own. That session and its refresh grant are gone, every other session and grant is as it was,
  and the record names the person and the app.
\<close>

lemma own_connection_signed_out:
  assumes store: "session_store (en_ops e) V" and now: "0 \<le> en_now e" and named: "names_ok (sees V e w)"
    and run: "sign_out_own_connection e rq w = (Inr r, w')"
  shows "\<exists>person tenant own a sid sess C. themselves e rq person tenant \<and> answered_own e person tenant own
    \<and> a \<in> set own \<and> live_connection V e w tenant (a_key a) (rq_params rq ''id'') sid sess \<and> s_subject sess = person
    \<and> r = Status_Reply 204
    \<and> sees V e w' = (sees V e w)\<lparr>v_sessions := (v_sessions (sees V e w))(sid := None),
         v_refresh := without [s_refresh_key sess] (v_refresh (sees V e w)), v_conns := C\<rparr>
    \<and> (\<forall>k. C k \<subseteq> v_conns (sees V e w) k)
    \<and> Connection_Signed_Out person person (s_client_id sess) False \<in> set (wo_events w')"
proof -
  obtain person tenant own v where who: "themselves e rq person tenant"
    and own: "own_assistants e person tenant w = (Inr own, v)"
    and out: "sign_out_among e person tenant (rq_params rq ''id'') own v = (Inr r, w')"
    using run unfolding sign_out_own_connection_def by (auto simp: andthen_Inr connection_caller_Inr)
  note o = own_assistants_Inr[OF own]
  have v: "sees V e v = sees V e w" using o(2) by (simp add: sees_def)
  have l: "live_connection V e v = live_connection V e w" by (intro ext) (simp add: live_connection_iff v)
  have "names_ok (sees V e v)" using named v by simp
  from sign_out_among_Inr[OF store now out this, unfolded v l] show ?thesis
    by (elim exE conjE, intro exI conjI) (rule who | rule o(1) | assumption)+
qed

text \<open>
  C36. Nobody else sees or signs out a connected app: to a caller who is not a person acting for
  themselves in a workspace (a service, an AI app, someone acting for a person, or no one), each of the five routes
  answers that it is forbidden, and the three of an assistant do so to a person without the
  administering level. Neither the store nor any record is touched.
\<close>

theorem strangers_refused:
  assumes "h \<in> {own_connections e rq, sign_out_own_connection e rq, assistant_connections e rq,
      sign_out_assistant_connection e rq, end_assistant_connections e rq}"
    and "(\<nexists>person tenant. themselves e rq person tenant)
      \<or> h \<in> {assistant_connections e rq, sign_out_assistant_connection e rq, end_assistant_connections e rq}
        \<and> \<not> caller_has_level e rq ''membership'' ''admin''"
  shows "fst (h w) = Inl (Refused Connection_Forbidden)
    \<and> wo_store (snd (h w)) = wo_store w \<and> wo_events (snd (h w)) = wo_events w"
proof -
  define w1 where "w1 = w\<lparr>wo_headers := wo_headers w @ [(''Cache-Control'', ''no-store''), (''Pragma'', ''no-cache'')]\<rparr>"
  have no: "connection_refused Connection_Forbidden w = (Inl (Refused Connection_Forbidden), w1)"
    by (simp add: connection_refused_def no_store_def set_header_def refuse_def andthen_def w1_def)
  have stranger: "connection_caller e rq w = (Inl (Refused Connection_Forbidden), w1)" if "\<nexists>person tenant. themselves e rq person tenant"
  proof -
    have "\<not> themselves e rq (caller_claim rq cl_subject) (caller_claim rq cl_tenant)" using that by blast
    then show ?thesis using no
      by (cases "rq_caller rq") (auto simp: connection_caller_def themselves_def Let_def caller_claim_def service_prefix_def)
  qed
  have admin: "administrator e rq w = (Inl (Refused Connection_Forbidden), w1)"
    if "(\<nexists>person tenant. themselves e rq person tenant) \<or> \<not> caller_has_level e rq ''membership'' ''admin''"
  proof (cases "\<exists>person tenant. themselves e rq person tenant")
    case False
    then show ?thesis using stranger by (simp add: administrator_def andthen_def)
  next
    case True
    then have "connection_caller e rq w = (Inr (caller_claim rq cl_subject, caller_claim rq cl_tenant), w)"
      by (auto simp: connection_caller_Inr themselves_def caller_claim_def)
    then show ?thesis using that True no
      by (simp add: administrator_def andthen_def scope_group_membership_def scope_level_administrator_def)
  qed
  have "h w = (Inl (Refused Connection_Forbidden), w1)"
    using assms stranger admin
    by (auto simp: own_connections_def sign_out_own_connection_def assistant_connections_def
        sign_out_assistant_connection_def end_assistant_connections_def andthen_def)
  then show ?thesis by (simp add: w1_def)
qed

section \<open>On an example\<close>

definition helper_key :: string where
  "helper_key = ''svc:assistant-01ARZ3NDEKTSV4RRFFQ69G5FAV''"

definition connected_env :: "memory env" where
  "connected_env = example_env (Some (example_register ''sub:p1'' staff [example_assistant\<lparr>a_key := helper_key\<rparr>])) []"

definition helper_session :: session where
  "helper_session = app_session\<lparr>s_assistant := helper_key, s_sid := ''n1''\<rparr>"

text \<open>One live connection of the person's assistant, and a name whose session is gone.\<close>

definition connected_world :: "memory world" where
  "connected_world = example_world
     [(''sess:S2'', \<lparr>e_value = Session_V helper_session, e_expires = example_now + 3600 * second\<rparr>),
      (''conn:t1/'' @ helper_key, \<lparr>e_value = Index_V [(''n0 S0'', unix_milli (example_now + 3600 * second)), (''n1 S2'', unix_milli (example_now + 3600 * second))],
         e_expires = example_now + 3600 * second\<rparr>)]"

definition person_call :: request where
  "person_call = (post_form [] [])\<lparr>rq_caller := Some (empty_claims\<lparr>cl_subject := ''p1'', cl_tenant := ''t1'', cl_scope := ''membership:admin''\<rparr>),
     rq_params := (\<lambda>k. if k = ''id'' then ''n1'' else helper_key)\<rparr>"

lemma connected_store: "session_store (en_ops connected_env) memory_view" "0 \<le> en_now connected_env"
  by (simp_all add: connected_env_def example_env_parts memory_ops_parts mem.session_store_axioms example_now_def of_unix_def second_def)


lemma person_let_in: "connection_caller connected_env person_call w = (Inr (''p1'', ''t1''), w)"
  and person_administers: "administrator connected_env person_call w = (Inr (''p1'', ''t1'', helper_key), w)"
proof -
  have "\<not> is_ai_app connected_env []" "has_prefix ''p1'' ''svc:'' = False" "assistant_key helper_key" "trim_space [] = []" by code_simp+
  then show 1: "connection_caller connected_env person_call w = (Inr (''p1'', ''t1''), w)"
    by (simp add: connection_caller_def person_call_def caller_claim_def service_prefix_def connected_env_def example_env_parts
       example_reading_def empty_claims_def)
  have "caller_has_level connected_env person_call scope_group_membership scope_level_administrator" by code_simp
  with 1 show "administrator connected_env person_call w = (Inr (''p1'', ''t1'', helper_key), w)"
    using \<open>assistant_key helper_key\<close> by (simp add: administrator_def andthen_def Let_def person_call_def)
qed

lemma connected_parts:
  "en_ops connected_env = memory_ops" "en_now connected_env = example_now" "en_registry connected_env = example_registry"
  by (simp_all add: connected_env_def example_env_parts)

lemma helper_parts: "s_assistant helper_session = helper_key" "s_tenant helper_session = ''t1''" "s_sid helper_session = ''n1''"
  "s_subject helper_session = ''p1''" "s_expires_at helper_session = example_now + 3600 * second"
  by (simp_all add: helper_session_def app_session_def example_session_def)

lemma index_read: "index_connections example_now [(''n0 S0'', unix_milli (example_now + 3600 * second)), (''n1 S2'', unix_milli (example_now + 3600 * second))]
   = [\<lparr>con_id = ''n0'', con_session = ''S0''\<rparr>, \<lparr>con_id = ''n1'', con_session = ''S2''\<rparr>]"
  by code_simp

lemma later_now: "0 < example_now" "example_now < example_now + 3600 * second" by code_simp+

lemma index_left: "index_connections example_now [(''n1 S2'', unix_milli (example_now + 3600 * second))] = [\<lparr>con_id = ''n1'', con_session = ''S2''\<rparr>]"
  by code_simp

lemmas run_connections = connected_parts memory_ops_parts andthen_def recover_def stored_def attempt_def mem_connections_def mem_index_def
    connected_world_def example_world_def lookup_live_def live_def index_read index_left mem_load_session_def mem_read_def mem_get_def helper_parts
    session_expired_def mem_remove_connection_def set_entry_def del_entry_def mem_delete_session_def mem_delete_refresh_def
    sign_out_def end_connection_def signed_out_answer_def no_store_def set_header_def

lemma connected_ended: "fst (end_assistant_connections connected_env person_call connected_world) = Inr (Status_Reply 204)"
  using later_now
  by (simp add: end_assistant_connections_def person_administers find_connection_def run_connections Let_def)

lemma connected_own:
  "\<exists>v. own_assistants connected_env ''p1'' ''t1'' connected_world = (Inr [example_assistant\<lparr>a_key := helper_key\<rparr>], v)
     \<and> wo_store v = wo_store connected_world"
proof -
  have "fst (own_assistants connected_env ''p1'' ''t1'' connected_world) = Inr [example_assistant\<lparr>a_key := helper_key\<rparr>]"
    by (simp add: own_assistants_def connected_env_def connected_world_def run_app_grant app_defs)
  then show ?thesis using own_assistants_Inr(2) by (metis ran)
qed

lemma connected_signed_out: "fst (sign_out_own_connection connected_env person_call connected_world) = Inr (Status_Reply 204)"
proof -
  obtain v where v: "own_assistants connected_env ''p1'' ''t1'' connected_world = (Inr [example_assistant\<lparr>a_key := helper_key\<rparr>], v)"
    "wo_store v = wo_store connected_world" using connected_own by blast
  have "rq_params person_call ''id'' = ''n1''" by (simp add: person_call_def)
  with v later_now show ?thesis
    by (simp add: sign_out_own_connection_def person_let_in find_connection_def run_connections Let_def)
qed

lemma connected_listed: "\<exists>groups. fst (own_connections connected_env person_call connected_world) = Inr (Own_Connections_Reply groups)"
proof -
  obtain v where v: "own_assistants connected_env ''p1'' ''t1'' connected_world = (Inr [example_assistant\<lparr>a_key := helper_key\<rparr>], v)"
    "wo_store v = wo_store connected_world" using connected_own by blast
  with later_now show ?thesis
    by (simp add: own_connections_def person_let_in connection_lines_def run_connections Let_def)
qed

lemma no_index: "index_connections now [] = []"
  by (simp add: index_connections_def List.map_filter_simps)

lemma connected_names: "names_ok (sees memory_view connected_env connected_world)"
proof -
  have "v_conns (sees memory_view connected_env connected_world) k
      = (if k = ''t1/'' @ helper_key then {\<lparr>con_id = ''n0'', con_session = ''S0''\<rparr>, \<lparr>con_id = ''n1'', con_session = ''S2''\<rparr>} else {})" for k
    using later_now
    by (simp add: sees_def memory_view_def connected_parts connected_world_def example_world_def index_at_def lookup_live_def live_def index_read no_index)
  then show ?thesis by (simp add: names_ok_def)
qed

theorem own_connections_listed_witness:
  "\<exists>groups w. own_connections connected_env person_call connected_world = (Inr (Own_Connections_Reply groups), w)
     \<and> (\<exists>ls. groups = [(helper_key, ''Helper'', ls)])"
proof -
  obtain groups w where run: "own_connections connected_env person_call connected_world = (Inr (Own_Connections_Reply groups), w)"
    using connected_listed by (auto dest: ran)
  from own_connections_listed[OF connected_store connected_names run] obtain person tenant own where
    "themselves connected_env person_call person tenant" "answered_own connected_env person tenant own"
    "list_all2 (\<lambda>a (key, name, ls). key = a_key a \<and> name = a_name a \<and> lists memory_view connected_env connected_world tenant key person ls) own groups"
    by auto
  moreover from this have "own = [example_assistant\<lparr>a_key := helper_key\<rparr>]"
    by (auto simp: themselves_def answered_own_def person_call_def door_answered_def connected_env_def example_env_parts example_register_def example_assistant_def empty_claims_def)
  ultimately show ?thesis using run by (auto simp: list_all2_Cons1 example_assistant_def)
qed

lemma own_connection_signed_out_witness:
  "\<exists>w. sign_out_own_connection connected_env person_call connected_world = (Inr (Status_Reply 204), w)
     \<and> v_sessions (sees memory_view connected_env w) ''S2'' = None"
proof -
  obtain w where run: "sign_out_own_connection connected_env person_call connected_world = (Inr (Status_Reply 204), w)"
    using ran[OF connected_signed_out] by blast
  from own_connection_signed_out[OF connected_store connected_names run] obtain tenant a sid sess C where
    "live_connection memory_view connected_env connected_world tenant (a_key (a :: assistant)) (rq_params person_call ''id'') sid sess"
    "sees memory_view connected_env w = (sees memory_view connected_env connected_world)\<lparr>v_sessions := (v_sessions (sees memory_view connected_env connected_world))(sid := None),
         v_refresh := without [s_refresh_key sess] (v_refresh (sees memory_view connected_env connected_world)), v_conns := C\<rparr>"
    by (elim exE conjE) (rule that, assumption, assumption)
  then have "v_sessions (sees memory_view connected_env w) sid = None" "sid = ''S2'' \<or> v_sessions (sees memory_view connected_env connected_world) ''S2'' = None"
    by (auto simp: live_connection_def sees_def memory_view_def connected_parts connected_world_def example_world_def lookup_live_def split: if_splits)
  then show ?thesis using run later_now
    by (auto simp: sees_def memory_view_def connected_parts connected_world_def example_world_def lookup_live_def live_def)
qed


theorem strangers_refused_witness:
  "fst (own_connections connected_env (post_form [] []) connected_world) = Inl (Refused Connection_Forbidden)"
  by (rule strangers_refused[where e = connected_env and rq = "post_form [] []", THEN conjunct1])
    (simp_all add: themselves_def post_form_def)

end
