(* ===== verification/Identity_Store.thy ===== *)
theory Identity_Store
  imports Example_World
begin

text \<open>
  The identity store, \<open>src/store/postgres.go\<close>: each operation calls one stored procedure with a JSON
  request and reads the envelope it answers. The database is outside the repository: \<open>db n proc input\<close> is
  what the \<open>n\<close>-th call answers. JSON is \<open>encoding/json\<close>'s as the source uses it: a request is a \<open>json\<close>
  value with its keys in order, and reading one into a struct takes each field by its name, letter case
  aside, the last of several, leaves what is absent or \<open>null\<close> as it was and fails on another type.
\<close>

section \<open>Reading JSON into a struct\<close>

fun json_text :: "string \<Rightarrow> json \<Rightarrow> string option" where
  "json_text old (J_Str s) = Some s"
| "json_text old J_Null = Some old"
| "json_text old _ = None"

fun json_bool :: "bool \<Rightarrow> json \<Rightarrow> bool option" where
  "json_bool old (J_Bool b) = Some b"
| "json_bool old J_Null = Some old"
| "json_bool old _ = None"

text \<open>A number goes into an \<open>int\<close> when its text is a whole number of 64 bits.\<close>

definition whole_text :: "string \<Rightarrow> bool" where
  "whole_text t \<longleftrightarrow> (let d = (case t of c # r \<Rightarrow> if c = CHR ''-'' then r else t | [] \<Rightarrow> []) in
     d \<noteq> [] \<and> list_all (\<lambda>c. c \<in> set ''0123456789'') d)"

fun json_int :: "int \<Rightarrow> json \<Rightarrow> int option" where
  "json_int old (J_Num t n) = (if whole_text t \<and> - (2 ^ 63) \<le> n \<and> n < 2 ^ 63 then Some n else None)"
| "json_int old J_Null = Some old"
| "json_int old _ = None"

fun all_some :: "'a option list \<Rightarrow> 'a list option" where
  "all_some [] = Some []"
| "all_some (x # xs) = (case x of None \<Rightarrow> None | Some a \<Rightarrow> map_option (Cons a) (all_some xs))"

fun json_list :: "(json \<Rightarrow> 'a option) \<Rightarrow> 'a list \<Rightarrow> json \<Rightarrow> 'a list option" where
  "json_list f old (J_Arr vs) = all_some (map f vs)"
| "json_list f old J_Null = Some []"
| "json_list f old _ = None"

fun json_fields :: "json \<Rightarrow> (string \<times> json) list option" where
  "json_fields (J_Obj kvs) = Some kvs"
| "json_fields J_Null = Some []"
| "json_fields _ = None"

fun field :: "('a \<Rightarrow> json \<Rightarrow> 'a option) \<Rightarrow> 'a \<Rightarrow> string \<Rightarrow> (string \<times> json) list \<Rightarrow> 'a option" where
  "field f old name [] = Some old"
| "field f old name ((k, v) # kvs) =
     (if equal_fold k name then Option.bind (f old v) (\<lambda>x. field f x name kvs) else field f old name kvs)"

section \<open>The envelope\<close>

record envelope =
  env_result :: string
  env_data :: "json option"
  env_code :: string
  env_message :: string

text \<open>\<open>data\<close> is kept as it came: \<open>null\<close> too.\<close>

definition read_envelope :: "json \<Rightarrow> envelope option" where
  "read_envelope j =
     Option.bind (json_fields j) (\<lambda>kvs.
     Option.bind (field json_text [] ''result'' kvs) (\<lambda>result.
     Option.bind (field (\<lambda>_ v. Some (Some v)) None ''data'' kvs) (\<lambda>data.
     Option.bind (field json_text [] ''code'' kvs) (\<lambda>code.
     Option.bind (field json_text [] ''message'' kvs) (\<lambda>msg.
     Some \<lparr>env_result = result, env_data = data, env_code = code, env_message = msg\<rparr>)))))"

text \<open>What a call comes back with: a row, with its value when it decodes; a database error with its state and,
  when it decodes, its message's value; or nothing.\<close>

datatype db_answer = Db_Row "json option" | Db_Raised string "json option" | Db_Failed

type_synonym database = "nat \<Rightarrow> string \<Rightarrow> json \<Rightarrow> db_answer"

definition db_procedure :: "database \<Rightarrow> nat \<Rightarrow> string \<Rightarrow> json \<Rightarrow> people_error + json option" where
  "db_procedure db n proc input =
     (case db n proc input of
        Db_Failed \<Rightarrow> Inl People_Down
      | Db_Raised state msg \<Rightarrow>
          if state = ''P0001'' then
            (case Option.bind msg read_envelope of
               Some env \<Rightarrow> if env_result env = ''error'' then Inl (Procedure_Refused (env_code env) (env_message env)) else Inl People_Down
             | None \<Rightarrow> Inl People_Down)
          else Inl People_Down
      | Db_Row out \<Rightarrow>
          (case Option.bind out read_envelope of
             None \<Rightarrow> Inl People_Down
           | Some env \<Rightarrow> if env_result env \<noteq> ''success'' then Inl (Procedure_Refused (env_code env) (env_message env))
               else Inr (env_data env)))"

text \<open>The answer's \<open>data\<close> read as the caller needs it.\<close>

definition read_data :: "(json \<Rightarrow> 'a option) \<Rightarrow> people_error + json option \<Rightarrow> people_error + 'a" where
  "read_data f r =
     (case r of Inl err \<Rightarrow> Inl err
      | Inr data \<Rightarrow> (case Option.bind data f of Some x \<Rightarrow> Inr x | None \<Rightarrow> Inl People_Down))"

section \<open>The operations\<close>

definition upsert_input :: "string \<Rightarrow> person_profile \<Rightarrow> json" where
  "upsert_input idp_subject p = J_Obj
     [(''email'', J_Str (pp_email p)), (''family_name'', J_Str (pp_family_name p)), (''given_name'', J_Str (pp_given_name p)),
      (''idp_sub'', J_Str idp_subject), (''login_method'', J_Str (pp_login_method p)), (''name'', J_Str (pp_name p)),
      (''provider'', J_Str (pp_provider p)), (''serial_number'', J_Str (pp_serial_number p))]"

text \<open>A person's subject and whether the call created them, under the name the procedure gives the subject.\<close>

definition read_subject :: "string \<Rightarrow> json \<Rightarrow> (string \<times> bool) option" where
  "read_subject name j =
     Option.bind (json_fields j) (\<lambda>kvs.
     Option.bind (field json_text [] name kvs) (\<lambda>sub.
     Option.bind (field json_bool False ''created'' kvs) (\<lambda>created. Some (sub, created))))"

definition db_ensure_mapping :: "database \<Rightarrow> nat \<Rightarrow> string \<Rightarrow> person_profile \<Rightarrow> people_error + (string \<times> bool)" where
  "db_ensure_mapping db n idp_subject p =
     read_data (read_subject ''internal_sub'') (db_procedure db n ''identity.upsert'' (upsert_input idp_subject p))"

definition register_input :: "string \<Rightarrow> string \<Rightarrow> string \<Rightarrow> string \<Rightarrow> json" where
  "register_input code name given family = J_Obj
     [(''family_name'', J_Str family), (''given_name'', J_Str given), (''name'', J_Str name), (''national_id'', J_Str code)]"

definition db_register :: "database \<Rightarrow> nat \<Rightarrow> string \<Rightarrow> string \<Rightarrow> string \<Rightarrow> string \<Rightarrow> people_error + (string \<times> bool)" where
  "db_register db n code name given family =
     read_data (read_subject ''person_sub'') (db_procedure db n ''identity.register'' (register_input code name given family))"

definition read_mapping :: "json \<Rightarrow> mapping option" where
  "read_mapping j =
     Option.bind (json_fields j) (\<lambda>kvs.
     Option.bind (field json_text [] ''internal_sub'' kvs) (\<lambda>internal.
     Option.bind (field json_text [] ''idp_sub'' kvs) (\<lambda>idp.
     Option.bind (field json_text [] ''tenant_id'' kvs) (\<lambda>tenant.
     Option.bind (field json_text [] ''name'' kvs) (\<lambda>name.
     Option.bind (field json_text [] ''given_name'' kvs) (\<lambda>given.
     Option.bind (field json_text [] ''family_name'' kvs) (\<lambda>family.
     Option.bind (field json_text [] ''serial_number'' kvs) (\<lambda>serial.
     Some \<lparr>mp_internal_sub = internal, mp_idp_sub = idp, mp_tenant = tenant, mp_name = name, mp_given_name = given,
           mp_family_name = family, mp_serial_number = serial\<rparr>))))))))"

definition db_get :: "database \<Rightarrow> nat \<Rightarrow> string \<Rightarrow> people_error + mapping" where
  "db_get db n internal_subject =
     read_data read_mapping (db_procedure db n ''identity.get'' (J_Obj [(''internal_sub'', J_Str internal_subject)]))"

definition read_line :: "json \<Rightarrow> sign_in_line option" where
  "read_line j =
     Option.bind (json_fields j) (\<lambda>kvs.
     Option.bind (field json_text [] ''sub'' kvs) (\<lambda>sub.
     Option.bind (field json_bool False ''signsIn'' kvs) (\<lambda>signs_in.
     Option.bind (field json_text [] ''email'' kvs) (\<lambda>email.
     Option.bind (field json_text [] ''country'' kvs) (\<lambda>country.
     Option.bind (field json_int 0 ''length'' kvs) (\<lambda>len.
     Some \<lparr>sl_sub = sub, sl_signs_in = signs_in, sl_email = email, sl_country = country, sl_length = len\<rparr>))))))"

definition read_lines :: "json \<Rightarrow> sign_in_line list option" where
  "read_lines j = Option.bind (json_fields j) (\<lambda>kvs. field (json_list read_line) [] ''lines'' kvs)"

definition db_sign_in_lines :: "database \<Rightarrow> nat \<Rightarrow> string list \<Rightarrow> people_error + sign_in_line list" where
  "db_sign_in_lines db n subs =
     read_data read_lines (db_procedure db n ''identity.sign_in_lines'' (J_Obj [(''subs'', J_Arr (map J_Str subs))]))"

text \<open>The store a deployment with a database has.\<close>

definition postgres :: "database \<Rightarrow> people" where
  "postgres db = \<lparr>pe_ensure = db_ensure_mapping db, pe_register = db_register db, pe_get = db_get db,
     pe_lines = db_sign_in_lines db\<rparr>"

section \<open>Facts\<close>

lemma field_other [simp]:
  "\<not> equal_fold k name \<Longrightarrow> field f old name ((k, v) # kvs) = field f old name kvs"
  by simp

lemma all_some_Some: "all_some xs = Some ys \<longleftrightarrow> xs = map Some ys"
  by (induction xs arbitrary: ys) (auto split: option.splits)

text \<open>The error a caller may act on is the procedure's own, whether it answered it or raised it.\<close>

definition refusal_of :: "db_answer \<Rightarrow> (string \<times> string) option" where
  "refusal_of a =
     (case a of
        Db_Row (Some j) \<Rightarrow> (case read_envelope j of Some env \<Rightarrow> if env_result env \<noteq> ''success'' then Some (env_code env, env_message env) else None | None \<Rightarrow> None)
      | Db_Raised s (Some j) \<Rightarrow> (case read_envelope j of Some env \<Rightarrow> if s = ''P0001'' \<and> env_result env = ''error'' then Some (env_code env, env_message env) else None | None \<Rightarrow> None)
      | _ \<Rightarrow> None)"

lemma db_procedure_refused:
  "db_procedure db n proc input = Inl (Procedure_Refused c m) \<longleftrightarrow> refusal_of (db n proc input) = Some (c, m)"
  by (auto simp: db_procedure_def refusal_of_def split: db_answer.splits option.splits Option.bind_splits if_splits)

lemma read_data_refused: "read_data f r = Inl (Procedure_Refused c m) \<longleftrightarrow> r = Inl (Procedure_Refused c m)"
  by (auto simp: read_data_def split: sum.splits option.splits)

lemma postgres_refused:
  "pe_ensure (postgres db) n idp p = Inl (Procedure_Refused c m) \<longleftrightarrow> refusal_of (db n ''identity.upsert'' (upsert_input idp p)) = Some (c, m)"
  "pe_register (postgres db) n code a b f = Inl (Procedure_Refused c m) \<longleftrightarrow> refusal_of (db n ''identity.register'' (register_input code a b f)) = Some (c, m)"
  "pe_get (postgres db) n s = Inl (Procedure_Refused c m) \<longleftrightarrow> refusal_of (db n ''identity.get'' (J_Obj [(''internal_sub'', J_Str s)])) = Some (c, m)"
  by (simp_all add: postgres_def db_ensure_mapping_def db_register_def db_get_def read_data_refused db_procedure_refused)

end
