(* ===== verification/Audit_Records.thy ===== *)
theory Audit_Records
  imports Http
begin

text \<open>
  What a recorded event becomes, \<open>src/audit/audit.go\<close>: a security event for the log pipeline, or a record
  of access to personal data. A handler of the model keeps the event it records (\<open>audit_event\<close>, one
  constructor per method of the recorder); here is what the recorder delivers for it.

  The emitter libraries are outside the repository: the names of their event types, attributes, severities,
  purposes and channels are the constructors below, after the libraries' own constants, and what they do with
  a delivery never reaches the request. \<open>service_subject\<close> is the library's prefix of a service's subject.
\<close>

section \<open>Security events\<close>

datatype event_type = Event_Authentication | Event_Service_Token | Event_Authz_Denied | Event_Named string

datatype severity = Severity_Info | Severity_Warning

datatype event_outcome = Outcome_Success | Outcome_Failure

datatype attribute = Attr_Kind | Attr_Method | Attr_Reason | Attr_Severity | Attr_Named string

datatype attribute_value =
    Text_Value string
  | Texts_Value "string list"
  | Bool_Value bool
  | Count_Value nat
  | Severity_Value severity
  | Token_Issuance

record event_actor =
  ea_id :: string
  ea_kind :: string
  ea_assurance :: string

record security_event =
  se_type :: event_type
  se_actor :: "event_actor option"
  se_outcome :: event_outcome
  se_ip :: string
  se_attributes :: "(attribute \<times> attribute_value) list"

definition actor_ref :: "string \<Rightarrow> string \<Rightarrow> string \<Rightarrow> event_actor option" where
  "actor_ref i kind assurance =
     (if i = [] \<and> assurance = [] then None else Some \<lparr>ea_id = i, ea_kind = kind, ea_assurance = assurance\<rparr>)"

definition client_ip :: "request \<Rightarrow> string" where
  "client_ip rq = first_forwarded_value (rq_header rq ''X-Forwarded-For'')"

text \<open>An attribute named only when its value is not empty.\<close>

definition when_given :: "attribute \<Rightarrow> string \<Rightarrow> (attribute \<times> attribute_value) list" where
  "when_given k v = (if v \<noteq> [] then [(k, Text_Value v)] else [])"

definition emit :: "request \<Rightarrow> event_type \<Rightarrow> severity \<Rightarrow> event_outcome \<Rightarrow> event_actor option
    \<Rightarrow> (attribute \<times> attribute_value) list \<Rightarrow> security_event" where
  "emit rq ty sev outcome actor attrs =
     \<lparr>se_type = ty, se_actor = actor, se_outcome = outcome, se_ip = client_ip rq,
      se_attributes = attrs @ [(Attr_Severity, Severity_Value sev)]\<rparr>"

definition auth_event :: "request \<Rightarrow> string \<Rightarrow> string \<Rightarrow> string \<Rightarrow> event_outcome \<Rightarrow> string \<Rightarrow> security_event" where
  "auth_event rq actor loa login_method outcome reason =
     emit rq Event_Authentication (if outcome \<noteq> Outcome_Success then Severity_Warning else Severity_Info) outcome
       (actor_ref actor ''user'' loa)
       (when_given Attr_Method login_method @ when_given (Attr_Named ''loa'') loa @ when_given Attr_Reason reason)"

text \<open>An authentication event of the service's own kind, told apart by its kind attribute.\<close>

definition kind_event :: "request \<Rightarrow> string \<Rightarrow> event_outcome \<Rightarrow> string \<Rightarrow> (attribute \<times> attribute_value) list \<Rightarrow> security_event" where
  "kind_event rq kind outcome actor attrs =
     emit rq Event_Authentication Severity_Info outcome (actor_ref actor ''user'' [])
       ((Attr_Kind, Text_Value kind) # attrs)"

fun security_event_of :: "request \<Rightarrow> audit_event \<Rightarrow> security_event option" where
  "security_event_of rq (Login_Success actor loa login_method) = Some (auth_event rq actor loa login_method Outcome_Success [])"
| "security_event_of rq (Login_Failure reason) = Some (auth_event rq [] [] [] Outcome_Failure reason)"
| "security_event_of rq (Session_Ended actor login_method) =
     Some (kind_event rq ''session_ended'' Outcome_Success actor (when_given Attr_Method login_method))"
| "security_event_of rq (Connection_Signed_Out actor person client by_administrator) =
     Some (kind_event rq ''connection_signed_out'' Outcome_Success actor
       [(Attr_Named ''person'', Text_Value person), (Attr_Named ''client'', Text_Value client),
        (Attr_Named ''by'', Text_Value (if by_administrator then ''administrator'' else ''person''))])"
| "security_event_of rq (Logout_Event actor login_method federated) =
     Some (kind_event rq ''logout'' Outcome_Success actor
       ((Attr_Named ''federated'', Bool_Value federated) # when_given Attr_Method login_method))"
| "security_event_of rq (Shared_Session_Created actor login_method) =
     Some (kind_event rq ''shared_session_created'' Outcome_Success actor [(Attr_Method, Text_Value login_method)])"
| "security_event_of rq (Shared_Session_Reused actor client login_method) =
     Some (kind_event rq ''shared_session_reused'' Outcome_Success actor
       [(Attr_Method, Text_Value login_method), (Attr_Named ''client'', Text_Value client)])"
| "security_event_of rq (Shared_Session_Refused client reason) =
     Some (kind_event rq ''shared_session_refused'' Outcome_Failure []
       [(Attr_Reason, Text_Value reason), (Attr_Named ''client'', Text_Value client)])"
| "security_event_of rq (Shared_Session_Ended actor reason sessions) =
     Some (kind_event rq ''shared_session_ended'' Outcome_Success actor
       [(Attr_Reason, Text_Value reason), (Attr_Named ''sessions'', Count_Value sessions)])"
| "security_event_of rq (User_Token_Issued subject loa login_method audience scopes) =
     Some (emit rq (Event_Named ''auth.user_token'') Severity_Info Outcome_Success (actor_ref subject ''user'' loa)
       ([(Attr_Named ''audience'', Text_Value audience), (Attr_Named ''scopes'', Texts_Value scopes)]
        @ when_given Attr_Method login_method))"
| "security_event_of rq (Service_Token_Issued client audience tenant scopes) =
     Some (emit rq Event_Service_Token Severity_Info Outcome_Success (actor_ref client ''service'' [])
       ([(Attr_Kind, Token_Issuance), (Attr_Named ''audience'', Text_Value audience), (Attr_Named ''scopes'', Texts_Value scopes)]
        @ when_given (Attr_Named ''tenant'') tenant))"
| "security_event_of rq (Delegation_Refused client subject reason) =
     Some (emit rq Event_Authz_Denied Severity_Warning Outcome_Failure (actor_ref client ''service'' [])
       [(Attr_Kind, Text_Value ''delegation''), (Attr_Reason, Text_Value reason), (Attr_Named ''on_behalf_of'', Text_Value subject)])"
| "security_event_of rq (Answered_For_Another asked) =
     Some (emit rq Event_Authz_Denied Severity_Warning Outcome_Failure
       (actor_ref asked (if has_prefix asked ''svc:'' then ''service'' else ''user'') [])
       [(Attr_Kind, Text_Value ''sign-in''), (Attr_Reason, Text_Value ''the register answered for another subject'')])"
| "security_event_of rq (Delegated_Token_Issued client on_behalf_of audience scopes) =
     Some (emit rq Event_Service_Token Severity_Info Outcome_Success (actor_ref client ''service'' [])
       [(Attr_Kind, Token_Issuance), (Attr_Named ''delegation'', Bool_Value True), (Attr_Named ''on_behalf_of'', Text_Value on_behalf_of),
        (Attr_Named ''audience'', Text_Value audience), (Attr_Named ''scopes'', Texts_Value scopes)])"
| "security_event_of rq (Identity_Written subject loa created) = None"
| "security_event_of rq (Identity_Registered actor loa person created) = None"
| "security_event_of rq (Identity_Code_Read caller person) = None"

section \<open>Access to personal data\<close>

datatype channel = Channel_Interactive | Channel_Background

text \<open>Every record is for account management; a read of a code says what was read, of the identity record, in
  legitimate interest.\<close>

datatype access_record =
    Identity_Created event_actor string channel
  | Identity_Updated event_actor string channel
  | Identity_Read event_actor string channel "(string \<times> string) list"

fun access_record_of :: "string \<Rightarrow> audit_event \<Rightarrow> access_record option" where
  "access_record_of service_subject (Identity_Written subject loa created) =
     Some ((if created then Identity_Created else Identity_Updated)
       \<lparr>ea_id = subject, ea_kind = ''user'', ea_assurance = loa\<rparr> subject Channel_Interactive)"
| "access_record_of service_subject (Identity_Registered actor loa person created) =
     Some (let (a, c) =
         (if has_prefix actor service_subject then (\<lparr>ea_id = actor, ea_kind = ''service'', ea_assurance = []\<rparr>, Channel_Background)
          else (\<lparr>ea_id = actor, ea_kind = ''user'', ea_assurance = loa\<rparr>, Channel_Interactive))
       in (if created then Identity_Created else Identity_Updated) a person c)"
| "access_record_of service_subject (Identity_Code_Read caller person) =
     Some (Identity_Read \<lparr>ea_id = caller, ea_kind = ''service'', ea_assurance = []\<rparr> person Channel_Background
       [(''what'', ''identityCode'')])"
| "access_record_of service_subject _ = None"

text \<open>A recorder: security events always go out, access records when their service is configured.\<close>

record recorder =
  rec_security :: bool
  rec_access :: bool

definition delivered_events :: "recorder \<Rightarrow> request \<Rightarrow> audit_event list \<Rightarrow> security_event list" where
  "delivered_events rc rq evs = (if rec_security rc then List.map_filter (security_event_of rq) evs else [])"

definition delivered_records :: "recorder \<Rightarrow> string \<Rightarrow> audit_event list \<Rightarrow> access_record list" where
  "delivered_records rc service_subject evs =
     (if rec_access rc then List.map_filter (access_record_of service_subject) evs else [])"

section \<open>Facts\<close>

text \<open>Every event goes one way: to the log pipeline, or to the access records.\<close>

lemma event_goes_one_way: "security_event_of rq ev = None \<longleftrightarrow> access_record_of p ev \<noteq> None"
  by (cases ev) auto

text \<open>A denial of authorization is a warning that failed, and names the attribute of its reason.\<close>

lemma denials_warn:
  "security_event_of rq ev = Some s \<Longrightarrow> se_type s = Event_Authz_Denied \<Longrightarrow>
     se_outcome s = Outcome_Failure \<and> (Attr_Severity, Severity_Value Severity_Warning) \<in> set (se_attributes s)
     \<and> (\<exists>r. (Attr_Reason, Text_Value r) \<in> set (se_attributes s))"
  by (cases ev) (auto simp: emit_def auth_event_def kind_event_def)

end
