(* ===== verification/Persons.thy ===== *)
theory Persons
  imports Connections Identity_Store Audit_Records
begin

text \<open>
  The identity endpoints behind the identity door, \<open>src/routes/identity.go\<close> and \<open>src/routes/persons.go\<close>: what
  a token says of its person, registering a person before their first login, and the two reads of a
  person's sign-in facts, all but the first for services acting as themselves.
\<close>

definition scope_group_identity :: string where "scope_group_identity = ''identity''"
definition scope_level_admin :: string where "scope_level_admin = ''admin''"
definition scope_level_lines :: string where "scope_level_lines = ''lines''"
definition scope_level_code :: string where "scope_level_code = ''code''"
definition person_prefix :: string where "person_prefix = ''sub:''"
definition max_line_subjects :: nat where "max_line_subjects = 500"

definition person_id :: "string \<Rightarrow> bool" where
  "person_id s \<longleftrightarrow> length s = 26 \<and> list_all ulid_char s"

section \<open>The person behind a token\<close>

definition identity :: "'c env \<Rightarrow> request \<Rightarrow> ('c, reply) handler" where
  "identity e rq =
     (let login_method = caller_claim rq cl_login_method;
          flows = (case sign_in_client_of (en_registry e) (caller_claim rq cl_client_id) of
              Some client \<Rightarrow> if si_signing client then permitted_flows login_method else []
            | None \<Rightarrow> [])
      in andthen no_store (\<lambda>_. ret (Identity_Reply
        \<lparr>ia_subject = caller_claim rq cl_subject, ia_name = caller_claim rq (ur_name (en_user e)),
         ia_given_name = caller_claim rq (ur_given_name (en_user e)), ia_family_name = caller_claim rq (ur_family_name (en_user e)),
         ia_loa = caller_claim rq cl_loa, ia_login_method = login_method,
         ia_scopes = (case rq_caller rq of Some c \<Rightarrow> ur_scopes (en_user e) c | None \<Rightarrow> []), ia_flows = flows\<rparr>)))"

section \<open>Services acting as themselves\<close>

definition holds_as_itself :: "'c env \<Rightarrow> request \<Rightarrow> string \<Rightarrow> bool" where
  "holds_as_itself e rq level \<longleftrightarrow>
     has_prefix (caller_claim rq cl_subject) service_prefix
     \<and> caller_claim rq cl_client_id = caller_claim rq cl_subject
     \<and> caller_claim rq cl_tenant = []
     \<and> caller_has_level e rq scope_group_identity level"

definition require_service_scope :: "'c env \<Rightarrow> request \<Rightarrow> string \<Rightarrow> ('c, unit) handler" where
  "require_service_scope e rq level =
     guard (holds_as_itself e rq level)
       (Identity_Forbidden (''this read requires a service holding the identity:'' @ level @ '' scope''))"

definition invalid_persons :: "string \<Rightarrow> ('c, 'a) handler" where
  "invalid_persons detail = refuse (Identity_Invalid detail)"

definition cache_off :: "('c, unit) handler" where
  "cache_off = set_header ''Cache-Control'' ''no-store''"

text \<open>One call of the identity store, counted and kept.\<close>

definition people_asked :: "'c env \<Rightarrow> people_call \<Rightarrow> (people \<Rightarrow> nat \<Rightarrow> people_error + 'a) \<Rightarrow> ('c world, people_error, 'a) act" where
  "people_asked e c op w = (op (en_people e) (length (wo_people w)), w\<lparr>wo_people := wo_people w @ [c]\<rparr>)"

text \<open>A refusal of the procedure the caller acts on, by its code; any other error is the service's own.\<close>

definition procedure_refusal :: "string \<Rightarrow> (string \<Rightarrow> ('c, 'a) handler) \<Rightarrow> people_error \<Rightarrow> ('c, 'a) handler" where
  "procedure_refusal code h err =
     (case err of Procedure_Refused c m \<Rightarrow> if c = code then h m else refuse Internal | People_Down \<Rightarrow> refuse Internal)"

section \<open>The lines of several people\<close>

text \<open>The bare ids of the subjects asked about, or nothing when one is no person subject.\<close>

fun bare_ids :: "string list \<Rightarrow> string list option" where
  "bare_ids [] = Some []"
| "bare_ids (s # ss) =
     (case cut_prefix s person_prefix of
        None \<Rightarrow> None
      | Some i \<Rightarrow> if person_id i then map_option (Cons i) (bare_ids ss) else None)"

definition read_subjects :: "json option \<Rightarrow> string list option" where
  "read_subjects body =
     Option.bind body (\<lambda>j. Option.bind (json_fields j) (\<lambda>kvs. field (json_list (json_text [])) [] ''subjects'' kvs))"

definition person_lines :: "'c env \<Rightarrow> request \<Rightarrow> ('c, reply) handler" where
  "person_lines e rq =
     andthen cache_off (\<lambda>_.
     andthen (require_service_scope e rq scope_level_lines) (\<lambda>_.
     andthen (from_option (case read_subjects (rq_body rq) of Some [] \<Rightarrow> None | x \<Rightarrow> x)
       (invalid_persons ''subjects must be a non-empty list of person subjects'')) (\<lambda>subjects.
     if max_line_subjects < length subjects then invalid_persons ''at most 500 subjects can be read at once''
     else
       andthen (from_option (bare_ids subjects)
         (invalid_persons ''every subject must be a person subject typed sub: followed by a 26-character id'')) (\<lambda>subs.
       andthen (guard (en_has_store e) Identity_Store_Missing) (\<lambda>_.
       andthen (recover (people_asked e (Sign_In_Lines subs) (\<lambda>p n. pe_lines p n subs))
         (procedure_refusal ''identity:invalid'' (\<lambda>_. invalid_persons ''a subject is not a well-formed person subject''))) (\<lambda>found.
       ret (Lines_Reply (map (\<lambda>l. l\<lparr>sl_sub := person_prefix @ sl_sub l\<rparr>) found))))))))"

section \<open>One person's code\<close>

definition person_code :: "'c env \<Rightarrow> request \<Rightarrow> ('c, reply) handler" where
  "person_code e rq =
     andthen cache_off (\<lambda>_.
     andthen (require_service_scope e rq scope_level_code) (\<lambda>_.
     let person = rq_params rq ''personSub'' in
     if \<not> person_id person then invalid_persons ''the person id is not a well-formed person id''
     else
       andthen (guard (en_has_store e) Identity_Store_Missing) (\<lambda>_.
       andthen (recover (people_asked e (Get_Person person) (\<lambda>p n. pe_get p n person))
         (procedure_refusal ''identity:not_found'' (\<lambda>_. refuse Identity_Not_Found))) (\<lambda>m.
       if trim_space (mp_serial_number m) = [] then refuse Identity_Not_Found
       else
         andthen (from_option (code_country (en_codes e) (trim_space (mp_serial_number m))) (refuse Internal)) (\<lambda>country.
         andthen (record_event (Identity_Code_Read (caller_claim rq cl_subject) person)) (\<lambda>_.
         ret (Code_Reply (code_display (en_codes e) (mp_serial_number m)) country)))))))"

section \<open>Registering a person\<close>

datatype code_refusal = Code_Required | Code_Refused code_error

definition canonical_identity_code :: "codes \<Rightarrow> string \<Rightarrow> code_refusal + string" where
  "canonical_identity_code cs raw =
     (if trim_space raw = [] then Inl Code_Required else map_sum Code_Refused id (code_canonical cs raw []))"

definition identity_code_reason :: "code_refusal \<Rightarrow> string" where
  "identity_code_reason r =
     (case r of
        Code_Required \<Rightarrow> ''identityCode is required''
      | Code_Refused Country_Required \<Rightarrow> ''identityCode names no country: write it with its identity type and country, e.g. PNO<CC>-<code>''
      | Code_Refused Unknown_Semantics \<Rightarrow> ''identityCode carries an identity type this platform does not recognise''
      | Code_Refused Ambiguous_Code \<Rightarrow> ''identityCode begins like an identity type but carries none''
      | Code_Refused Malformed_Code \<Rightarrow> ''identityCode is not a well-formed identity code'')"

record registration =
  rgn_code :: string
  rgn_name :: string
  rgn_given_name :: string
  rgn_family_name :: string

definition read_registration :: "json option \<Rightarrow> registration option" where
  "read_registration body =
     Option.bind body (\<lambda>j.
     Option.bind (json_fields j) (\<lambda>kvs.
     Option.bind (field json_text [] ''identityCode'' kvs) (\<lambda>code.
     Option.bind (field json_text [] ''name'' kvs) (\<lambda>name.
     Option.bind (field json_text [] ''givenName'' kvs) (\<lambda>given.
     Option.bind (field json_text [] ''familyName'' kvs) (\<lambda>family.
     Some \<lparr>rgn_code = code, rgn_name = name, rgn_given_name = given, rgn_family_name = family\<rparr>))))))"

definition register_person :: "'c env \<Rightarrow> request \<Rightarrow> ('c, reply) handler" where
  "register_person e rq =
     andthen (guard (holds_as_itself e rq scope_level_admin)
       (Identity_Forbidden ''registering a person requires a service holding the identity:admin scope'')) (\<lambda>_.
     andthen (from_option (read_registration (rq_read_body rq)) (refuse Unreadable_Body)) (\<lambda>req.
     andthen (from_sum (canonical_identity_code (en_codes e) (rgn_code req))
       (\<lambda>err. refuse (Identity_Invalid (identity_code_reason err)))) (\<lambda>code.
     andthen (guard (en_has_store e) Identity_Store_Missing) (\<lambda>_.
     let name = trim_space (rgn_name req); given = trim_space (rgn_given_name req); family = trim_space (rgn_family_name req) in
     andthen (recover (people_asked e (Register_Person code name given family) (\<lambda>p n. pe_register p n code name given family))
       (procedure_refusal ''identity:invalid'' (\<lambda>m. refuse (Identity_Invalid m)))) (\<lambda>(person, created).
     andthen (record_event (Identity_Registered (caller_claim rq cl_subject) (caller_claim rq cl_loa) person created)) (\<lambda>_.
     ret (Registered_Reply (if created then 201 else 200) person created)))))))"

section \<open>Who is answered, and what\<close>

text \<open>A service acting as itself, holding a level of the identity scope.\<close>

definition service_itself :: "'c env \<Rightarrow> request \<Rightarrow> string \<Rightarrow> claim_set \<Rightarrow> bool" where
  "service_itself e rq level c \<longleftrightarrow> rq_caller rq = Some c \<and> has_prefix (cl_subject c) ''svc:''
     \<and> cl_client_id c = cl_subject c \<and> cl_tenant c = [] \<and> ur_has_level (en_user e) c ''identity'' level"

lemma holds_as_itself_iff: "holds_as_itself e rq level \<longleftrightarrow> (\<exists>c. service_itself e rq level c)"
  by (cases "rq_caller rq") (auto simp: holds_as_itself_def service_itself_def caller_claim_def caller_has_level_def
      service_prefix_def scope_group_identity_def)

lemma service_itself_claim: "service_itself e rq level c \<Longrightarrow> caller_claim rq f = f c"
  by (simp add: service_itself_def caller_claim_def)

lemma persons_steps [act_simps]:
  "require_service_scope e rq level w = (Inr u, w') \<longleftrightarrow> holds_as_itself e rq level \<and> w' = w"
  "invalid_persons detail w = (Inr x, w') \<longleftrightarrow> False"
  "cache_off w = (Inr u, w') \<longleftrightarrow> w' = w\<lparr>wo_headers := wo_headers w @ [(''Cache-Control'', ''no-store'')]\<rparr>"
  "people_asked e c op w = (q, w') \<longleftrightarrow> op (en_people e) (length (wo_people w)) = q \<and> w' = w\<lparr>wo_people := wo_people w @ [c]\<rparr>"
  by (auto simp: require_service_scope_def invalid_persons_def cache_off_def act_simps people_asked_def)

lemma procedure_refusal_Inr [act_simps]:
  "procedure_refusal code h err w = (Inr x, w') \<longleftrightarrow> (\<exists>m. err = Procedure_Refused code m \<and> h m w = (Inr x, w'))"
  by (cases err) (auto simp: procedure_refusal_def act_simps)

lemma bare_ids_Some:
  "bare_ids ss = Some is \<longleftrightarrow> ss = map (\<lambda>i. ''sub:'' @ i) is \<and> (\<forall>i\<in>set is. person_id i)"
proof (induction ss arbitrary: "is")
  case (Cons s ss)
  show ?case
    by (cases "is"; auto simp: Cons.IH cut_prefix_Some person_prefix_def split: option.splits if_splits; simp add: cut_prefix_def)
qed auto

text \<open>
  C37. A person's sign-in facts are read by services alone: a code is answered only to a service acting as
  itself whose token holds the code level, the lines only to one that holds the lines level. A code is that
  of the person named, as the store holds it, in the form the person is shown, and what is recorded for the
  access records is that service's read of that person, never the code. The lines are what the store
  answers about exactly the people asked about, each a person's id, at least one and at most 500. Nothing
  is kept by a cache and no session is touched.
\<close>

theorem person_facts_for_services:
  "(person_code e rq w = (Inr r, w') \<longrightarrow>
     (\<exists>c m country. service_itself e rq ''code'' c \<and> person_id (rq_params rq ''personSub'')
        \<and> pe_get (en_people e) (length (wo_people w)) (rq_params rq ''personSub'') = Inr m
        \<and> trim_space (mp_serial_number m) \<noteq> [] \<and> code_country (en_codes e) (trim_space (mp_serial_number m)) = Some country
        \<and> r = Code_Reply (code_display (en_codes e) (mp_serial_number m)) country
        \<and> wo_people w' = wo_people w @ [Get_Person (rq_params rq ''personSub'')]
        \<and> wo_events w' = wo_events w @ [Identity_Code_Read (cl_subject c) (rq_params rq ''personSub'')]
        \<and> delivered_records rc p (wo_events w') = delivered_records rc p (wo_events w) @
            (if rec_access rc then [Identity_Read \<lparr>ea_id = cl_subject c, ea_kind = ''service'', ea_assurance = []\<rparr>
               (rq_params rq ''personSub'') Channel_Background [(''what'', ''identityCode'')]] else [])
        \<and> (''Cache-Control'', ''no-store'') \<in> set (wo_headers w') \<and> wo_store w' = wo_store w))
   \<and> (person_lines e rq w = (Inr r, w') \<longrightarrow>
     (\<exists>c ids found. service_itself e rq ''lines'' c
        \<and> read_subjects (rq_body rq) = Some (map (\<lambda>i. ''sub:'' @ i) ids) \<and> (\<forall>i\<in>set ids. person_id i)
        \<and> ids \<noteq> [] \<and> length ids \<le> 500
        \<and> pe_lines (en_people e) (length (wo_people w)) ids = Inr found
        \<and> r = Lines_Reply (map (\<lambda>l. l\<lparr>sl_sub := ''sub:'' @ sl_sub l\<rparr>) found)
        \<and> wo_people w' = wo_people w @ [Sign_In_Lines ids] \<and> wo_events w' = wo_events w
        \<and> (''Cache-Control'', ''no-store'') \<in> set (wo_headers w') \<and> wo_store w' = wo_store w))"
proof (intro conjI impI)
  assume "person_code e rq w = (Inr r, w')"
  then obtain m country where run: "holds_as_itself e rq ''code''" "person_id (rq_params rq ''personSub'')"
    "pe_get (en_people e) (length (wo_people w)) (rq_params rq ''personSub'') = Inr m"
    "trim_space (mp_serial_number m) \<noteq> []" "code_country (en_codes e) (trim_space (mp_serial_number m)) = Some country"
    "r = Code_Reply (code_display (en_codes e) (mp_serial_number m)) country"
    "wo_people w' = wo_people w @ [Get_Person (rq_params rq ''personSub'')]"
    "wo_events w' = wo_events w @ [Identity_Code_Read (caller_claim rq cl_subject) (rq_params rq ''personSub'')]"
    "wo_headers w' = wo_headers w @ [(''Cache-Control'', ''no-store'')]" "wo_store w' = wo_store w"
    by (auto simp: person_code_def act_simps Let_def scope_level_code_def split: if_splits)
  obtain c where c: "service_itself e rq ''code'' c" using run(1) by (auto simp: holds_as_itself_iff)
  have ev: "wo_events w' = wo_events w @ [Identity_Code_Read (cl_subject c) (rq_params rq ''personSub'')]"
    using run(8) service_itself_claim[OF c, of cl_subject] by simp
  then have "delivered_records rc p (wo_events w') = delivered_records rc p (wo_events w) @
            (if rec_access rc then [Identity_Read \<lparr>ea_id = cl_subject c, ea_kind = ''service'', ea_assurance = []\<rparr>
               (rq_params rq ''personSub'') Channel_Background [(''what'', ''identityCode'')]] else [])"
    by (simp add: delivered_records_def List.map_filter_def)
  with run c ev show "\<exists>c m country. service_itself e rq ''code'' c \<and> person_id (rq_params rq ''personSub'')
        \<and> pe_get (en_people e) (length (wo_people w)) (rq_params rq ''personSub'') = Inr m
        \<and> trim_space (mp_serial_number m) \<noteq> [] \<and> code_country (en_codes e) (trim_space (mp_serial_number m)) = Some country
        \<and> r = Code_Reply (code_display (en_codes e) (mp_serial_number m)) country
        \<and> wo_people w' = wo_people w @ [Get_Person (rq_params rq ''personSub'')]
        \<and> wo_events w' = wo_events w @ [Identity_Code_Read (cl_subject c) (rq_params rq ''personSub'')]
        \<and> delivered_records rc p (wo_events w') = delivered_records rc p (wo_events w) @
            (if rec_access rc then [Identity_Read \<lparr>ea_id = cl_subject c, ea_kind = ''service'', ea_assurance = []\<rparr>
               (rq_params rq ''personSub'') Channel_Background [(''what'', ''identityCode'')]] else [])
        \<and> (''Cache-Control'', ''no-store'') \<in> set (wo_headers w') \<and> wo_store w' = wo_store w"
    by (intro exI[of _ c] exI[of _ m] exI[of _ country]) simp
next
  assume "person_lines e rq w = (Inr r, w')"
  then obtain subjects ids found where run: "holds_as_itself e rq ''lines''"
    "(case read_subjects (rq_body rq) of Some [] \<Rightarrow> None | x \<Rightarrow> x) = Some subjects" "length subjects \<le> 500"
    "bare_ids subjects = Some ids" "pe_lines (en_people e) (length (wo_people w)) ids = Inr found"
    "r = Lines_Reply (map (\<lambda>l. l\<lparr>sl_sub := ''sub:'' @ sl_sub l\<rparr>) found)"
    "wo_people w' = wo_people w @ [Sign_In_Lines ids]" "wo_events w' = wo_events w"
    "wo_headers w' = wo_headers w @ [(''Cache-Control'', ''no-store'')]" "wo_store w' = wo_store w"
    by (auto simp: person_lines_def act_simps scope_level_lines_def max_line_subjects_def person_prefix_def split: if_splits)
  have s: "read_subjects (rq_body rq) = Some subjects" "subjects \<noteq> []"
    using run(2) by (auto split: option.splits list.splits)
  have "subjects = map (\<lambda>i. ''sub:'' @ i) ids" "\<forall>i\<in>set ids. person_id i" using run(4) by (auto simp: bare_ids_Some)
  with run s show "\<exists>c ids found. service_itself e rq ''lines'' c
        \<and> read_subjects (rq_body rq) = Some (map (\<lambda>i. ''sub:'' @ i) ids) \<and> (\<forall>i\<in>set ids. person_id i)
        \<and> ids \<noteq> [] \<and> length ids \<le> 500
        \<and> pe_lines (en_people e) (length (wo_people w)) ids = Inr found
        \<and> r = Lines_Reply (map (\<lambda>l. l\<lparr>sl_sub := ''sub:'' @ sl_sub l\<rparr>) found)
        \<and> wo_people w' = wo_people w @ [Sign_In_Lines ids] \<and> wo_events w' = wo_events w
        \<and> (''Cache-Control'', ''no-store'') \<in> set (wo_headers w') \<and> wo_store w' = wo_store w"
    by (auto simp: holds_as_itself_iff)
qed

text \<open>What a procedure's success looks like on the wire.\<close>

lemma db_procedure_Inr:
  "db_procedure db n proc input = Inr data \<longleftrightarrow>
     (\<exists>j env. db n proc input = Db_Row (Some j) \<and> read_envelope j = Some env \<and> env_result env = ''success'' \<and> env_data env = data)"
  by (auto simp: db_procedure_def split: db_answer.splits option.splits Option.bind_splits if_splits)

lemma read_data_Inr: "read_data f r = Inr x \<longleftrightarrow> (\<exists>data. r = Inr (Some data) \<and> f data = Some x)"
  by (auto simp: read_data_def split: sum.splits option.splits Option.bind_splits)

lemma db_register_Inr:
  "db_register db n code name given family = Inr x \<longleftrightarrow>
     (\<exists>j env data. db n ''identity.register'' (register_input code name given family) = Db_Row (Some j)
        \<and> read_envelope j = Some env \<and> env_result env = ''success'' \<and> env_data env = Some data
        \<and> read_subject ''person_sub'' data = Some x)"
  unfolding db_register_def read_data_Inr db_procedure_Inr by blast


section \<open>On an example\<close>

definition service_call :: "string \<Rightarrow> request" where
  "service_call scope = (post_form [] [])\<lparr>rq_caller := Some (empty_claims\<lparr>cl_subject := ''svc:workers'', cl_client_id := ''svc:workers'', cl_scope := scope\<rparr>),
     rq_params := (\<lambda>k. ''01ARZ3NDEKTSV4RRFFQ69G5FAV''),
     rq_read_body := Some (J_Obj [(''identityCode'', J_Str ''PNOLV-2''), (''Name'', J_Str ''Janis'')])\<rparr>"

definition example_database :: database where
  "example_database n proc input =
     (if proc = ''identity.register'' then Db_Row (Some (J_Obj [(''result'', J_Str ''success''),
        (''data'', J_Obj [(''person_sub'', J_Str ''01ARZ3NDEKTSV4RRFFQ69G5FAV''), (''created'', J_Bool True)])])) else Db_Failed)"

definition database_env :: "memory env" where
  "database_env = (example_env None [])\<lparr>en_people := postgres example_database\<rparr>"

lemma example_code_read:
  "fst (person_code (example_env None []) (service_call ''identity:code'') (example_world [])) = Inr (Code_Reply ''PNOLV-1'' ''LV'')"
  by code_simp

lemma example_registered:
  "fst (register_person database_env (service_call ''identity:admin'') (example_world []))
     = Inr (Registered_Reply 201 ''01ARZ3NDEKTSV4RRFFQ69G5FAV'' True)"
  by code_simp

theorem person_facts_for_services_witness:
  "\<exists>w. person_code (example_env None []) (service_call ''identity:code'') (example_world []) = (Inr (Code_Reply ''PNOLV-1'' ''LV''), w)
     \<and> delivered_records \<lparr>rec_security = True, rec_access = True\<rparr> ''svc:'' (wo_events w)
       = [Identity_Read \<lparr>ea_id = ''svc:workers'', ea_kind = ''service'', ea_assurance = []\<rparr> ''01ARZ3NDEKTSV4RRFFQ69G5FAV''
            Channel_Background [(''what'', ''identityCode'')]]"
proof -
  obtain w where run: "person_code (example_env None []) (service_call ''identity:code'') (example_world []) = (Inr (Code_Reply ''PNOLV-1'' ''LV''), w)"
    using ran[OF example_code_read] by blast
  from person_facts_for_services[of "example_env None []" "service_call ''identity:code''" "example_world []" _ w
      "\<lparr>rec_security = True, rec_access = True\<rparr>" "''svc:''", THEN conjunct1, rule_format, OF run]
  have "delivered_records \<lparr>rec_security = True, rec_access = True\<rparr> ''svc:'' (wo_events w)
       = [Identity_Read \<lparr>ea_id = ''svc:workers'', ea_kind = ''service'', ea_assurance = []\<rparr> ''01ARZ3NDEKTSV4RRFFQ69G5FAV''
            Channel_Background [(''what'', ''identityCode'')]]"
    by (elim exE conjE) (simp add: service_itself_def service_call_def example_world_parts delivered_records_def List.map_filter_simps)
  with run show ?thesis by blast
qed


end
