(* ===== verification/Interleaving.thy ===== *)
theory Interleaving
  imports Prelude
begin

text \<open>
  Requests that run at once. A request is the steps it takes, each one atomic on the state all requests share: a
  call of the session store, a call of another service, a random draw. Between two steps of one request any step of
  any other, and whatever else \<open>rely\<close> admits, may come.

  The steps of a handler are written with the same operators as the handler, and \<open>run\<close> takes them without a
  break: it gives the handler back.
\<close>

section \<open>A request's steps\<close>

datatype ('s, 'a) steps = Done 'a | Atom "'s \<Rightarrow> ('s, 'a) steps \<times> 's"

primrec run :: "('s, 'a) steps \<Rightarrow> 's \<Rightarrow> 'a \<times> 's" where
  "run (Done r) = Pair r"
| "run (Atom h) = (\<lambda>s. case map_prod run id (h s) of (g, s') \<Rightarrow> g s')"

primrec after :: "('s, 'a) steps \<Rightarrow> ('a \<Rightarrow> ('s, 'b) steps) \<Rightarrow> ('s, 'b) steps" where
  "after (Done r) f = f r"
| "after (Atom h) f = Atom (\<lambda>s. map_prod (\<lambda>p. after p f) id (h s))"

definition one :: "('s, 'e, 'a) act \<Rightarrow> ('s, 'e + 'a) steps" where
  "one m = Atom (\<lambda>s. case m s of (r, s') \<Rightarrow> (Done r, s'))"

definition then_steps :: "('s, 'e + 'a) steps \<Rightarrow> ('a \<Rightarrow> ('s, 'e + 'b) steps) \<Rightarrow> ('s, 'e + 'b) steps" where
  "then_steps p f = after p (\<lambda>r. case r of Inl e \<Rightarrow> Done (Inl e) | Inr x \<Rightarrow> f x)"

definition recover_steps :: "('s, 'e + 'a) steps \<Rightarrow> ('e \<Rightarrow> ('s, 'f + 'a) steps) \<Rightarrow> ('s, 'f + 'a) steps" where
  "recover_steps p h = after p (\<lambda>r. case r of Inl e \<Rightarrow> h e | Inr x \<Rightarrow> Done (Inr x))"

definition attempt_steps :: "('s, 'e + 'a) steps \<Rightarrow> ('s, 'f + ('e + 'a)) steps" where
  "attempt_steps p = after p (\<lambda>r. Done (Inr r))"

lemma run_Atom: "run (Atom h) s = run (fst (h s)) (snd (h s))"
  by (simp add: split_beta)

lemma run_after: "run (after p f) s = (case run p s of (r, s') \<Rightarrow> run (f r) s')"
proof (induction p arbitrary: s)
  case (Atom h)
  have "run (after (fst (h s)) f) t = (case run (fst (h s)) t of (r, s') \<Rightarrow> run (f r) s')" for t
    by (rule Atom.IH[of "h s"]) (simp_all add: fsts.simps)
  then show ?case by (simp add: run_Atom split_beta)
qed simp

lemma run_one [simp]: "run (one m) = m"
  by (simp add: one_def fun_eq_iff split_beta)

lemma run_Done [simp]: "run (Done (Inr x)) = ret x" "run (Done (Inl e)) = stop e"
  by (simp_all add: fun_eq_iff)

lemma run_then [simp]: "run (then_steps p f) = andthen (run p) (\<lambda>x. run (f x))"
  by (auto simp: then_steps_def run_after andthen_def fun_eq_iff split: prod.splits sum.splits)

lemma run_recover [simp]: "run (recover_steps p h) = recover (run p) (\<lambda>e. run (h e))"
  by (auto simp: recover_steps_def run_after recover_def fun_eq_iff split: prod.splits sum.splits)

lemma run_attempt [simp]: "run (attempt_steps p) = attempt (run p)"
  by (auto simp: attempt_steps_def run_after attempt_def fun_eq_iff split: prod.splits)

lemmas as_after = then_steps_def recover_steps_def attempt_steps_def

section \<open>Interleavings\<close>

type_synonym ('s, 'a) pool = "('s, 'a) steps list \<times> 's"

inductive step :: "('s \<Rightarrow> 's \<Rightarrow> bool) \<Rightarrow> ('s, 'a) pool \<Rightarrow> ('s, 'a) pool \<Rightarrow> bool" for rely where
  step: "i < length ps \<Longrightarrow> ps ! i = Atom h \<Longrightarrow> rely s s1 \<Longrightarrow> h s1 = (p, s') \<Longrightarrow> step rely (ps, s) (ps[i := p], s')"

inductive_cases step_from: "step rely (ps, s) c"

text \<open>A request that runs without a break reaches its answer.\<close>

lemma runs_alone:
  assumes "\<And>s. rely s s" "i < length ps" "ps ! i = p" "run p s = (r, s')"
  shows "(step rely)\<^sup>*\<^sup>* (ps, s) (ps[i := Done r], s')"
  using assms(2-4)
proof (induction p arbitrary: ps s)
  case (Done q)
  then have "ps[i := Done r] = ps" "s' = s" by (auto simp: list_update_same_conv)
  then show ?case by simp
next
  case (Atom h)
  obtain q t where q: "h s = (q, t)" by fastforce
  have "(step rely)\<^sup>*\<^sup>* (ps[i := q], t) (ps[i := q, i := Done r], s')"
    using Atom.prems q rangeI[of h s] by (intro Atom.IH[of "h s" q]) (auto simp: run_Atom fsts.simps)
  moreover have "step rely (ps, s) (ps[i := q], t)"
    by (rule step.step[OF Atom.prems(1,2) assms(1) q])
  ultimately show ?case by (simp add: converse_rtranclp_into_rtranclp)
qed

lemma run_in_order:
  assumes "\<And>s. rely s s"
  shows "\<exists>rs s'. (step rely)\<^sup>*\<^sup>* (qs @ ps, s) (qs @ map Done rs, s') \<and> length rs = length ps
     \<and> (ps \<noteq> [] \<longrightarrow> hd rs = fst (run (hd ps) s))"
proof (induction ps arbitrary: qs s)
  case (Cons p ps)
  obtain r s1 where r: "run p s = (r, s1)" by fastforce
  have "(step rely)\<^sup>*\<^sup>* (qs @ p # ps, s) ((qs @ p # ps)[length qs := Done r], s1)"
    by (rule runs_alone[OF assms _ _ r]) simp_all
  then have one: "(step rely)\<^sup>*\<^sup>* (qs @ p # ps, s) ((qs @ [Done r]) @ ps, s1)" by (simp add: list_update_append)
  obtain rs s' where "(step rely)\<^sup>*\<^sup>* ((qs @ [Done r]) @ ps, s1) ((qs @ [Done r]) @ map Done rs, s')" "length rs = length ps"
    using Cons.IH[of "qs @ [Done r]" s1] by blast
  with rtranclp_trans[OF one this(1)] r show ?case by (intro exI[of _ "r # rs"] exI[of _ s']) simp
qed auto

section \<open>How long a request takes\<close>

inductive lasts :: "nat \<Rightarrow> ('s, 'a) steps \<Rightarrow> bool" where
  lasts_Done: "lasts n (Done r)"
| lasts_Atom: "(\<And>s. lasts n (fst (h s))) \<Longrightarrow> lasts (Suc n) (Atom h)"

inductive_simps lasts_Atom_iff: "lasts n (Atom h)"

lemma lasts_mono: "lasts m p \<Longrightarrow> m \<le> n \<Longrightarrow> lasts n p"
proof (induction m p arbitrary: n rule: lasts.induct)
  case (lasts_Atom m h)
  then obtain k where "n = Suc k" "m \<le> k" by (cases n) auto
  then show ?case using lasts_Atom.IH by (auto intro: lasts.lasts_Atom)
qed (rule lasts_Done)

lemma lasts_after: "lasts m p \<Longrightarrow> (\<And>r. lasts n (f r)) \<Longrightarrow> lasts (m + n) (after p f)"
proof (induction m p rule: lasts.induct)
  case (lasts_Done m r)
  then show ?case using lasts_mono[of n "f r" "m + n"] by simp
qed (auto intro!: lasts.lasts_Atom)

lemma lasts_one: "lasts (Suc 0) (one m)"
  unfolding one_def by (rule lasts_Atom) (simp add: split_beta lasts_Done)

lemma lasts_then: "lasts m p \<Longrightarrow> (\<And>x. lasts n (f x)) \<Longrightarrow> lasts (m + n) (then_steps p f)"
  unfolding then_steps_def by (rule lasts_after) (auto simp: lasts_Done split: sum.splits)

lemma lasts_recover: "lasts m p \<Longrightarrow> (\<And>e. lasts n (h e)) \<Longrightarrow> lasts (m + n) (recover_steps p h)"
  unfolding recover_steps_def by (rule lasts_after) (auto simp: lasts_Done split: sum.splits)

lemma lasts_attempt: "lasts m p \<Longrightarrow> lasts m (attempt_steps p)"
  unfolding attempt_steps_def using lasts_after[of m p 0 "\<lambda>r. Done (Inr r)"] by (simp add: lasts_Done)

text \<open>A pool's steps are at most its requests' together.\<close>

fun pool_lasts :: "nat \<Rightarrow> ('s, 'a) steps list \<Rightarrow> bool" where
  "pool_lasts n [] = True"
| "pool_lasts n (p # ps) = (\<exists>k\<le>n. lasts k p \<and> pool_lasts (n - k) ps)"

lemma pool_lasts_all: "(\<And>p. p \<in> set ps \<Longrightarrow> lasts b p) \<Longrightarrow> pool_lasts (b * length ps) ps"
  by (induction ps) (auto intro!: exI[of _ b])

lemma pool_step:
  "pool_lasts n ps \<Longrightarrow> i < length ps \<Longrightarrow> ps ! i = Atom h \<Longrightarrow> \<exists>m. n = Suc m \<and> pool_lasts m (ps[i := fst (h s)])"
proof (induction ps arbitrary: n i)
  case (Cons p ps)
  then obtain k where k: "k \<le> n" "lasts k p" "pool_lasts (n - k) ps" by auto
  show ?case
  proof (cases i)
    case 0
    then obtain j where "k = Suc j" "lasts j (fst (h s))" using k Cons.prems by (auto simp: lasts_Atom_iff)
    with k 0 show ?thesis by (intro exI[of _ "n - 1"]) (auto intro!: exI[of _ j])
  next
    case (Suc i')
    then obtain m where m: "n - k = Suc m" "pool_lasts m (ps[i' := fst (h s)])"
      using Cons.IH[OF k(3), of i'] Cons.prems by auto
    then have "n = Suc (n - 1)" "n - 1 - k = m" by auto
    with k(2) m Suc show ?thesis by (intro exI[of _ "n - 1"]) (auto intro!: exI[of _ k])
  qed
qed simp

lemma steps_bounded:
  "(step rely ^^ n) (ps, s) (ps', s') \<Longrightarrow> pool_lasts b ps \<Longrightarrow> n \<le> b \<and> length ps' = length ps"
proof (induction n arbitrary: b ps s)
  case (Suc n)
  then obtain ps1 s1 where s: "step rely (ps, s) (ps1, s1)" "(step rely ^^ n) (ps1, s1) (ps', s')"
    by (metis relpowp_Suc_E2 surj_pair)
  from s(1) obtain i h s0 p where "i < length ps" "ps ! i = Atom h" "h s0 = (p, s1)" "ps1 = ps[i := p]"
    by (rule step_from) blast
  then have i: "i < length ps" "ps ! i = Atom h" "ps1 = ps[i := fst (h s0)]" by simp_all
  from pool_step[OF Suc.prems(2) i(1,2), of s0] obtain m where "b = Suc m" "pool_lasts m ps1" unfolding i(3) by blast
  with Suc.IH[OF s(2)] i show ?case by auto
qed simp

lemma stuck_iff:
  assumes "\<And>s. \<exists>s1. rely s s1"
  shows "(\<forall>c. \<not> step rely (ps, s) c) \<longleftrightarrow> (\<forall>p\<in>set ps. \<exists>r. p = Done r)"
proof
  assume no: "\<forall>c. \<not> step rely (ps, s) c"
  show "\<forall>p\<in>set ps. \<exists>r. p = Done r"
  proof
    fix p assume "p \<in> set ps"
    then obtain i where i: "i < length ps" "ps ! i = p" by (auto simp: in_set_conv_nth)
    obtain s1 where "rely s s1" using assms by blast
    then have "p \<noteq> Atom h" for h using step[OF i(1), of h rely s s1 "fst (h s1)" "snd (h s1)"] i(2) no by auto
    then show "\<exists>r. p = Done r" by (cases p) auto
  qed
next
  assume "\<forall>p\<in>set ps. \<exists>r. p = Done r"
  then show "\<forall>c. \<not> step rely (ps, s) c" by (auto elim!: step_from dest!: nth_mem) 
qed

section \<open>What only one of them gets\<close>

text \<open>Something that can be taken, and whether it is there to be taken. A request that answers must have taken
  it: \<open>claimant False p\<close>; one that has taken it puts it back no more: \<open>claimant True p\<close>.\<close>

inductive claimant :: "('s \<Rightarrow> bool) \<Rightarrow> bool \<Rightarrow> ('s, 'e + 'a) steps \<Rightarrow> bool" for avail where
  claimant_Done: "(\<And>x. r = Inr x \<Longrightarrow> b) \<Longrightarrow> claimant avail b (Done r)"
| claimant_Atom: "(\<And>s p s'. h s = (p, s') \<Longrightarrow> claimant avail b p \<and> (avail s' \<longrightarrow> avail s)
      \<or> \<not> b \<and> claimant avail True p \<and> avail s \<and> \<not> avail s') \<Longrightarrow> claimant avail b (Atom h)"

inductive_simps claimant_Done_iff: "claimant avail b (Done r)"
inductive_simps claimant_Atom_iff: "claimant avail b (Atom h)"

lemma claimant_after:
  "claimant avail c p \<Longrightarrow> c \<Longrightarrow> (\<And>r. claimant avail b (f r)) \<Longrightarrow> claimant avail b (after p f)"
proof (induction c p rule: claimant.induct)
  case (claimant_Atom h c)
  show ?case unfolding after.simps
  proof (rule claimant.claimant_Atom)
    fix s p s' assume "map_prod (\<lambda>p. after p f) id (h s) = (p, s')"
    then obtain q where q: "h s = (q, s')" "p = after q f" by (cases "h s") auto
    with claimant_Atom.IH[OF q(1)] claimant_Atom.prems
    show "claimant avail b p \<and> (avail s' \<longrightarrow> avail s) \<or> \<not> b \<and> claimant avail True p \<and> avail s \<and> \<not> avail s'" by auto
  qed
qed simp

lemma claimant_one:
  assumes "\<And>s r s'. m s = (r, s') \<Longrightarrow> claimant avail b (f r) \<and> (avail s' \<longrightarrow> avail s)
      \<or> \<not> b \<and> claimant avail True (f r) \<and> avail s \<and> \<not> avail s'"
  shows "claimant avail b (after (one m) f)"
  unfolding one_def after.simps using assms by (intro claimant_Atom) (auto split: prod.splits)

locale claimed_once =
  fixes avail :: "'s \<Rightarrow> bool" and rely :: "'s \<Rightarrow> 's \<Rightarrow> bool"
  assumes not_given_back: "rely s s' \<Longrightarrow> avail s' \<Longrightarrow> avail s"
begin

definition fair :: "bool list \<Rightarrow> ('s, 'e + 'a) pool \<Rightarrow> bool" where
  "fair bs c \<longleftrightarrow> list_all2 (claimant avail) bs (fst c) \<and> length (filter id bs) + (if avail (snd c) then 1 else 0) \<le> 1"

lemma fair_start:
  assumes "\<And>p. p \<in> set ps \<Longrightarrow> claimant avail False p"
  shows "fair (replicate (length ps) False) (ps, s)"
  using assms by (auto simp: fair_def list_all2_conv_all_nth)

lemma fair_step:
  assumes "fair bs c" "step rely c c'"
  shows "\<exists>bs'. fair bs' c'"
  using assms(2)
proof cases
  case (step i ps h s s1 p s')
  have len: "length bs = length ps" and cl: "\<And>j. j < length ps \<Longrightarrow> claimant avail (bs ! j) (ps ! j)"
    and few: "length (filter id bs) + (if avail s then 1 else 0) \<le> 1"
    using assms(1) step(1) by (auto simp: fair_def list_all2_conv_all_nth)
  have "claimant avail (bs ! i) (Atom h)" using cl[of i] step(3,4) by simp
  then consider (same) "claimant avail (bs ! i) p" "avail s' \<longrightarrow> avail s1"
    | (taken) "\<not> bs ! i" "claimant avail True p" "avail s1" "\<not> avail s'"
    using step(6) unfolding claimant_Atom_iff by blast
  then show ?thesis
  proof cases
    case same
    then have "fair bs c'"
      using step(1,2,3) len cl few not_given_back[OF step(5)] by (auto simp: fair_def list_all2_conv_all_nth nth_list_update)
    then show ?thesis by blast
  next
    case taken
    then have none: "filter id bs = []" using few not_given_back[OF step(5)] by (cases "filter id bs") auto
    have "i < length bs" using step(3) len by simp
    then have "length (filter id (bs[i := True])) \<le> 1"
      using none by (auto simp: filter_empty_conv length_filter_conv_card card_le_Suc0_iff_eq all_set_conv_all_nth nth_list_update split: if_splits)
    then have "fair (bs[i := True]) c'"
      using step(1,2,3) len cl taken by (auto simp: fair_def list_all2_conv_all_nth nth_list_update)
    then show ?thesis by blast
  qed
qed

lemma fair_reachable: "(step rely)\<^sup>*\<^sup>* c c' \<Longrightarrow> fair bs c \<Longrightarrow> \<exists>bs'. fair bs' c'"
  by (induction rule: rtranclp_induct) (auto dest: fair_step)

text \<open>Of all requests that run at once, one is answered, and nothing is left to be taken then.\<close>

lemma one_answered:
  assumes "\<And>p. p \<in> set ps \<Longrightarrow> claimant avail False p" "(step rely)\<^sup>*\<^sup>* (ps, s) (ps', s')"
    and "i < length ps'" "ps' ! i = Done (Inr x)" "j < length ps'" "ps' ! j = Done (Inr y)"
  shows "i = j \<and> \<not> avail s'"
proof -
  obtain bs where f: "fair bs (ps', s')" using fair_reachable[OF assms(2) fair_start[OF assms(1)]] by blast
  then have l: "list_all2 (claimant avail) bs ps'" and few: "length (filter id bs) + (if avail s' then 1 else 0) \<le> 1"
    by (simp_all add: fair_def)
  have len: "length bs = length ps'" using l by (rule list_all2_lengthD)
  have b: "bs ! i" "bs ! j"
    using list_all2_nthD2[OF l assms(3)] list_all2_nthD2[OF l assms(5)] assms(4,6) by (simp_all add: claimant_Done_iff)
  have one: "length (filter id bs) \<le> 1" using few by simp
  have "card {k. k < length bs \<and> bs ! k} \<le> Suc 0" using one by (simp add: length_filter_conv_card)
  then have "\<forall>k\<in>{k. k < length bs \<and> bs ! k}. \<forall>l\<in>{k. k < length bs \<and> bs ! k}. k = l"
    by (subst (asm) card_le_Suc0_iff_eq) auto
  then have same: "k = l" if "k < length bs" "bs ! k" "l < length bs" "bs ! l" for k l using that by blast
  have "i = j" by (rule same) (use b len assms(3,5) in simp_all)
  moreover have "True \<in> set bs" using b(1) len assms(3) by (metis nth_mem)
  then have "filter id bs \<noteq> []" by (auto simp: filter_empty_conv)
  then have "\<not> avail s'" using few by (cases "filter id bs") (auto split: if_splits)
  ultimately show ?thesis by blast
qed

end

end
