(* ===== verification/Clocked_Steps.thy ===== *)
theory Clocked_Steps
  imports App_Grant Interleaving
begin

text \<open>
  Handlers as steps: each call of the session store or of another service is one step, taken at the time its own
  clock shows, and so is each part that touches no state another request reads. \<open>runs_as\<close> says the steps, taken
  without a break, are a handler; \<open>held\<close> is what can be taken from the session store only once.
\<close>

section \<open>The steps\<close>

type_synonym 'c clocked = "nat \<times> 'c world"

definition at_clock :: "'c env \<Rightarrow> ('c env \<Rightarrow> ('c world, 'e, 'a) act) \<Rightarrow> ('c clocked, 'e, 'a) act" where
  "at_clock e m s = (case m (e\<lparr>en_now := int (fst s)\<rparr>) (snd s) of (r, w) \<Rightarrow> (r, (fst s, w)))"

type_synonym ('c, 'e, 'a) clocked_steps = "('c clocked, 'e + 'a) steps"

definition atom :: "'c env \<Rightarrow> ('c env \<Rightarrow> ('c world, 'e, 'a) act) \<Rightarrow> ('c, 'e, 'a) clocked_steps" where
  "atom e m = one (at_clock e m)"

definition call_store :: "'c env \<Rightarrow> ('c, 'a) store_op \<Rightarrow> ('c, store_error, 'a) clocked_steps" where
  "call_store e op = atom e (\<lambda>e. stored e op)"

definition refused :: "'c env \<Rightarrow> ('c, 'a) handler \<Rightarrow> ('c, reply, 'a) clocked_steps" where
  "refused e m = atom e (\<lambda>_. m)"

section \<open>Without a break\<close>

lemma run_atom: "run (atom e m) (t, w) = (case m (e\<lparr>en_now := int t\<rparr>) w of (r, w') \<Rightarrow> (r, (t, w')))"
  by (simp add: atom_def at_clock_def)

text \<open>Steps that run as a handler does, at the time of the clock they start at.\<close>

definition runs_as :: "('c, 'e, 'a) clocked_steps \<Rightarrow> (nat \<Rightarrow> ('c world, 'e, 'a) act) \<Rightarrow> bool" where
  "runs_as p m \<longleftrightarrow> (\<forall>t w. run p (t, w) = (case m t w of (r, w') \<Rightarrow> (r, (t, w'))))"

named_theorems runs_intros \<open>steps that run as the handler's actions do\<close>

lemma runs_atom [runs_intros]: "runs_as (atom e m) (\<lambda>t. m (e\<lparr>en_now := int t\<rparr>))"
  by (simp add: runs_as_def run_atom)

lemma runs_Done [runs_intros]: "runs_as (Done (Inr x)) (\<lambda>t. ret x)"
  by (simp add: runs_as_def)

lemma runs_then [runs_intros]: "runs_as p m \<Longrightarrow> (\<And>x. runs_as (f x) (\<lambda>t. g t x)) \<Longrightarrow> runs_as (then_steps p f) (\<lambda>t. andthen (m t) (g t))"
  by (auto simp: runs_as_def andthen_def split: prod.splits sum.splits)

lemma runs_recover [runs_intros]: "runs_as p m \<Longrightarrow> (\<And>x. runs_as (f x) (\<lambda>t. g t x)) \<Longrightarrow> runs_as (recover_steps p f) (\<lambda>t. recover (m t) (g t))"
  by (auto simp: runs_as_def recover_def split: prod.splits sum.splits)

lemma runs_attempt [runs_intros]: "runs_as p m \<Longrightarrow> runs_as (attempt_steps p) (\<lambda>t. attempt (m t))"
  by (auto simp: runs_as_def attempt_def split: prod.splits)

lemma runs_if [runs_intros]: "runs_as p m \<Longrightarrow> runs_as q n \<Longrightarrow> runs_as (if b then p else q) (\<lambda>t. if b then m t else n t)"
  by simp

lemma runs_option [runs_intros]:
  "runs_as p m \<Longrightarrow> (\<And>a. runs_as (q a) (\<lambda>t. n t a))
     \<Longrightarrow> runs_as (case x of None \<Rightarrow> p | Some a \<Rightarrow> q a) (\<lambda>t. case x of None \<Rightarrow> m t | Some a \<Rightarrow> n t a)"
  by (cases x) simp_all

lemma runs_prod [runs_intros]: "(\<And>a b. runs_as (q a b) (\<lambda>t. n t a b)) \<Longrightarrow> runs_as (case x of (a, b) \<Rightarrow> q a b) (\<lambda>t. case x of (a, b) \<Rightarrow> n t a b)"
  by (cases x) simp

lemma runs_refused [runs_intros]: "runs_as (refused e m) (\<lambda>t. m)"
  unfolding refused_def by (rule runs_atom)

lemma runs_call_store [runs_intros]: "runs_as (call_store e op) (\<lambda>t. stored (e\<lparr>en_now := int t\<rparr>) op)"
  unfolding call_store_def by (rule runs_atom)

lemma clock_env: "en_ops (e\<lparr>en_now := t\<rparr>) = en_ops e" "en_crypto (e\<lparr>en_now := t\<rparr>) = en_crypto e"
  "en_register (e\<lparr>en_now := t\<rparr>) = en_register e" "en_registry (e\<lparr>en_now := t\<rparr>) = en_registry e"
  by simp_all

section \<open>How many steps\<close>

named_theorems lasts_intros \<open>the steps of a part of a request\<close>

lemma lasts_atom [lasts_intros]: "lasts (Suc 0) (atom e m)"
  unfolding atom_def by (rule lasts_one)

lemma lasts_call_store [lasts_intros]: "lasts (Suc 0) (call_store e op)"
  unfolding call_store_def by (rule lasts_atom)

lemma lasts_refused [lasts_intros]: "lasts (Suc 0) (refused e m)"
  unfolding refused_def by (rule lasts_atom)

lemma lasts_if: "lasts m p \<Longrightarrow> lasts n q \<Longrightarrow> lasts (max m n) (if b then p else q)"
  by (auto intro: lasts_mono)

section \<open>What is taken from the store\<close>

text \<open>Something the store holds, as its contract shows it at the clock's time.\<close>

definition held :: "(time \<Rightarrow> 'c \<Rightarrow> view) \<Rightarrow> (view \<Rightarrow> bool) \<Rightarrow> 'c clocked \<Rightarrow> bool" where
  "held V U s \<longleftrightarrow> U (V (int (fst s)) (wo_store (snd s)))"

lemma held_iff: "held V U (t, w) \<longleftrightarrow> U (V (int t) (wo_store w))"
  by (simp add: held_def)

definition stops :: "('c, 'a) handler \<Rightarrow> bool" where
  "stops m \<longleftrightarrow> (\<forall>w x w'. m w \<noteq> (Inr x, w'))"


lemma claimant_then: "claimant A True p \<Longrightarrow> (\<And>x. claimant A b (f x)) \<Longrightarrow> claimant A b (then_steps p f)"
  unfolding then_steps_def by (rule claimant_after) (auto simp: claimant_Done_iff split: sum.splits)

lemma silent_recover: "claimant A True p \<Longrightarrow> (\<And>x. claimant A True (f x)) \<Longrightarrow> claimant A True (recover_steps p f)"
  unfolding recover_steps_def by (rule claimant_after) (auto simp: claimant_Done_iff split: sum.splits)

lemma silent_attempt: "claimant A True p \<Longrightarrow> claimant A True (attempt_steps p)"
  unfolding attempt_steps_def by (rule claimant_after) (auto simp: claimant_Done_iff)

lemma silent_Done: "claimant A True (Done r)"
  by (simp add: claimant_Done_iff)

lemma claimant_if: "claimant A b p \<Longrightarrow> claimant A b q \<Longrightarrow> claimant A b (if c then p else q)"
  by simp

lemma atom_same: "at_clock e m s = (r, s') \<longleftrightarrow> (\<exists>w. m (e\<lparr>en_now := int (fst s)\<rparr>) (snd s) = (r, w) \<and> s' = (fst s, w))"
  by (auto simp: at_clock_def split: prod.splits)

lemma claimant_atom:
  assumes "\<And>t w r w'. m (e\<lparr>en_now := int t\<rparr>) w = (r, w') \<Longrightarrow> (held V U (t, w') \<longrightarrow> held V U (t, w)) \<and> (\<forall>x. r = Inr x \<longrightarrow> b)"
  shows "claimant (held V U) b (atom e m)"
  unfolding atom_def one_def
proof (rule claimant_Atom, goal_cases)
  case (1 s p s')
  then obtain r where r: "at_clock e m s = (r, s')" "p = Done r" by (auto split: prod.splits)
  from r(1) obtain w where w: "m (e\<lparr>en_now := int (fst s)\<rparr>) (snd s) = (r, w)" "s' = (fst s, w)" by (auto simp: atom_same)
  from assms[OF w(1)] w(2) r(2)
  show ?case
    by (auto simp: claimant_Done_iff)
qed

lemma silent_storeless:
  assumes "\<And>e'. storeless (m e')"
  shows "claimant (held V U) True (atom e m)"
proof (rule claimant_atom)
  fix t w r w' assume "m (e\<lparr>en_now := int t\<rparr>) w = (r, w')"
  from storelessD[OF assms this]
  show "(held V U (t, w') \<longrightarrow> held V U (t, w)) \<and> (\<forall>x. r = Inr x \<longrightarrow> True)" by (simp add: held_def)
qed

lemma claimant_refused:
  assumes "stops m" "storeless m"
  shows "claimant (held V U) b (refused e m)"
  unfolding refused_def
proof (rule claimant_atom)
  fix t :: nat and w r w' assume run: "m w = (r, w')"
  from storelessD[OF assms(2) run] assms(1) run
  show "(held V U (t, w') \<longrightarrow> held V U (t, w)) \<and> (\<forall>x. r = Inr x \<longrightarrow> b)"
    by (auto simp: held_def stops_def)
qed

text \<open>A call of the store after which nothing is held that was not.\<close>

lemma silent_call:
  assumes "\<And>now. 0 \<le> now \<Longrightarrow> refines (V now) (op now) (S now)"
    and "\<And>now v r v'. S now v r v' \<Longrightarrow> U v' \<Longrightarrow> U v"
  shows "claimant (held V U) True (call_store e op)"
  unfolding call_store_def
proof (rule claimant_atom)
  fix t w r w' assume "stored (e\<lparr>en_now := int t\<rparr>) op w = (r, w')"
  then obtain c where c: "op (int t) (wo_store w) = (r, c)" "w' = w\<lparr>wo_store := c\<rparr>"
    by (auto simp: stored_def split: prod.splits)
  have "S (int t) (V (int t) (wo_store w)) r (V (int t) c) \<or> V (int t) c = V (int t) (wo_store w)
      \<or> (\<exists>q. S (int t) (V (int t) (wo_store w)) q (V (int t) c))"
    using assms(1)[of "int t"] c(1) unfolding refines_def by simp blast
  then have "U (V (int t) c) \<longrightarrow> U (V (int t) (wo_store w))" using assms(2) by metis
  then show "(held V U (t, w') \<longrightarrow> held V U (t, w)) \<and> (\<forall>x. r = Inr x \<longrightarrow> True)"
    by (simp add: held_iff c(2))
qed


lemma claimant_then_one:
  assumes "\<And>s r s'. m s = (r, s') \<Longrightarrow> claimant A b (case r of Inl err \<Rightarrow> Done (Inl err) | Inr x \<Rightarrow> f x) \<and> (A s' \<longrightarrow> A s)
      \<or> \<not> b \<and> claimant A True (case r of Inl err \<Rightarrow> Done (Inl err) | Inr x \<Rightarrow> f x) \<and> A s \<and> \<not> A s'"
  shows "claimant A b (then_steps (one m) f)"
  unfolding then_steps_def using assms by (rule claimant_one)

lemma then_recover_one:
  "then_steps (recover_steps (one m) h) f = after (one m) (\<lambda>r. case r of Inl err \<Rightarrow> then_steps (h err) f | Inr x \<Rightarrow> f x)"
  by (auto simp: as_after one_def fun_eq_iff split: prod.splits sum.splits)


lemma claimant_then_refused: "stops m \<Longrightarrow> storeless m \<Longrightarrow> claimant (held V U) b (then_steps (refused e m) f)"
  unfolding refused_def atom_def
proof (rule claimant_then_one, rule disjI1, rule conjI)
  fix s r s' assume m: "stops m" "storeless m" and "at_clock e (\<lambda>_. m) s = (r, s')"
  then obtain w where w: "m (snd s) = (r, w)" "s' = (fst s, w)" by (auto simp: atom_same)
  show "held V U s' \<longrightarrow> held V U s"
    using storelessD[OF m(2) w(1)] w(2) by (simp add: held_def)
  show "claimant (held V U) b (case r of Inl err \<Rightarrow> Done (Inl err) | Inr x \<Rightarrow> f x)"
    using m(1) w(1) by (cases r) (auto simp: stops_def claimant_Done_iff)
qed

text \<open>Such a part, with what its answer is like.\<close>

lemma claimant_then_atom:
  assumes "\<And>e'. storeless (m e')"
    and "\<And>e' w x w'. en_crypto e' = en_crypto e \<Longrightarrow> en_rand e' = en_rand e \<Longrightarrow> m e' w = (Inr x, w') \<Longrightarrow> claimant (held V U) b (f x)"
  shows "claimant (held V U) b (then_steps (atom e m) f)"
  unfolding atom_def
proof (rule claimant_then_one, rule disjI1, rule conjI)
  fix s r s' assume "at_clock e m s = (r, s')"
  then obtain w where w: "m (e\<lparr>en_now := int (fst s)\<rparr>) (snd s) = (r, w)" "s' = (fst s, w)" by (auto simp: atom_same)
  show "held V U s' \<longrightarrow> held V U s"
    using storelessD[OF assms(1) w(1)] w(2) by (simp add: held_def)
  show "claimant (held V U) b (case r of Inl err \<Rightarrow> Done (Inl err) | Inr x \<Rightarrow> f x)"
    using assms(2)[of "e\<lparr>en_now := int (fst s)\<rparr>" "snd s"] w(1) by (cases r) (auto simp: claimant_Done_iff)
qed

text \<open>The one step in which what is held is had, and is held no more.\<close>

lemma claimant_take:
  assumes law: "\<And>now. 0 \<le> now \<Longrightarrow> refines (V now) (op now) (S now)"
    and never: "\<And>now v r v'. S now v r v' \<Longrightarrow> U v' \<Longrightarrow> U v"
    and had: "\<And>now v x v'. S now v (Inr x) v' \<Longrightarrow> good x \<Longrightarrow> U v \<and> \<not> U v'"
    and refusal: "\<And>err. stops (h err)" "\<And>err. storeless (h err)"
    and silent: "\<And>x. claimant (held V U) True (f x)" and bad: "\<And>x. \<not> good x \<Longrightarrow> claimant (held V U) False (f x)"
  shows "claimant (held V U) False (then_steps (recover_steps (call_store e op) (\<lambda>err. refused e (h err))) f)"
  unfolding call_store_def atom_def then_recover_one
proof (rule claimant_one)
  fix s r s' assume "at_clock e (\<lambda>e'. stored e' op) s = (r, s')"
  then obtain c where c: "op (int (fst s)) (wo_store (snd s)) = (r, c)" "s' = (fst s, (snd s)\<lparr>wo_store := c\<rparr>)"
    by (auto simp: atom_same stored_def split: prod.splits)
  let ?next = "case r of Inl err \<Rightarrow> then_steps (refused e (h err)) f | Inr x \<Rightarrow> f x"
  let ?v = "V (int (fst s)) (wo_store (snd s))"
  have law': "S (int (fst s)) ?v r (V (int (fst s)) c) \<or> r = Inl Unavailable \<and> (V (int (fst s)) c = ?v \<or> (\<exists>q. S (int (fst s)) ?v q (V (int (fst s)) c)))"
    using law[of "int (fst s)"] c(1) unfolding refines_def by simp
  then have no: "held V U s' \<longrightarrow> held V U s" using never unfolding held_def c(2) by (metis fst_conv snd_conv world.select_convs(1) world.surjective world.update_convs(1))
  show "claimant (held V U) False ?next \<and> (held V U s' \<longrightarrow> held V U s)
      \<or> \<not> False \<and> claimant (held V U) True ?next \<and> held V U s \<and> \<not> held V U s'"
  proof (cases r)
    case (Inl err)
    with no show ?thesis by (simp add: claimant_then_refused refusal)
  next
    case (Inr x)
    then have "S (int (fst s)) ?v (Inr x) (V (int (fst s)) c)" using law' by simp
    from had[OF this] have "good x \<Longrightarrow> held V U s \<and> \<not> held V U s'" by (simp add: held_def c(2))
    with Inr no silent[of x] bad[of x] show ?thesis by (cases "good x") auto
  qed
qed

section \<open>Requests that run at once\<close>

text \<open>What may come between two steps: time passes, and other requests do what they do, but none of them makes
  what is held be had again.\<close>

definition others :: "(time \<Rightarrow> 'c \<Rightarrow> view) \<Rightarrow> (view \<Rightarrow> bool) \<Rightarrow> 'c clocked \<Rightarrow> 'c clocked \<Rightarrow> bool" where
  "others V U s s' \<longleftrightarrow> fst s \<le> fst s' \<and> (held V U s' \<longrightarrow> held V U s)"

lemma others_refl [simp]: "others V U s s"
  by (simp add: others_def)

interpretation one_taker: claimed_once "held V U" "others V U" for V :: "time \<Rightarrow> 'c \<Rightarrow> view" and U
  by unfold_locales (simp add: others_def)

end
