(* ===== verification/Race.thy ===== *)
theory Race
  imports Clocked_Steps
begin

text \<open>
  An AI app's refreshes that run at once, \<open>appRefresh\<close> and what it calls (\<open>src/routes/aiapp.go\<close>), step by step
  (\<open>Clocked_Steps\<close>). Taken without a break the steps are the handler (\<open>run_app_refresh\<close>), so what is shown of the
  handler holds of them.
\<close>

section \<open>The steps\<close>

fun delete_refreshes_steps :: "'c env \<Rightarrow> string list \<Rightarrow> ('c, reply, unit) clocked_steps" where
  "delete_refreshes_steps e [] = Done (Inr ())"
| "delete_refreshes_steps e (k # ks) =
     (if k = [] then delete_refreshes_steps e ks
      else then_steps (recover_steps (call_store e (op_delete_refresh (en_ops e) k))
             (\<lambda>err. if err \<noteq> Not_Found then refused e (store_refusal err) else Done (Inr ()))) (\<lambda>_. delete_refreshes_steps e ks))"

definition end_connection_steps :: "'c env \<Rightarrow> string \<Rightarrow> session \<Rightarrow> string list \<Rightarrow> ('c, reply, unit) clocked_steps" where
  "end_connection_steps e sid sess keys =
     then_steps (recover_steps (call_store e (op_delete_session (en_ops e) sid))
        (\<lambda>err. if err \<noteq> Not_Found then refused e (store_refusal err) else Done (Inr ()))) (\<lambda>_.
     then_steps (delete_refreshes_steps e (s_refresh_key sess # keys)) (\<lambda>_.
     then_steps (if s_sid sess \<noteq> [] then
         attempt_steps (call_store e (op_remove_connection (en_ops e) (s_tenant sess) (s_assistant sess)
           \<lparr>con_id = s_sid sess, con_session = sid\<rparr>)) else Done (Inr (Inr ()))) (\<lambda>_.
     atom e (\<lambda>_. record_event (Session_Ended (s_subject sess) login_assistant)))))"

definition connection_scopes_steps :: "'c env \<Rightarrow> sign_in_client \<Rightarrow> string \<Rightarrow> session \<Rightarrow> string list \<Rightarrow> ('c, reply, string list) clocked_steps" where
  "connection_scopes_steps e app sid sess keys =
     then_steps (recover_steps (atom e (\<lambda>e. persons_assistants e (s_subject sess)))
       (\<lambda>err. refused e (register_unavailable (person_key (s_subject sess)) err))) (\<lambda>own.
     case (if s_assistant sess = [] then None
           else first (\<lambda>a. a_tenant a = s_tenant sess \<and> a_key a = s_assistant sess) own) of
       None \<Rightarrow> then_steps (end_connection_steps e sid sess keys) (\<lambda>_. refused e invalid_grant)
     | Some a \<Rightarrow> Done (Inr (intersect_scopes (intersect_scopes (s_app_scopes sess) (si_scopes app)) (a_scopes a))))"

definition reused_refresh_steps :: "'c env \<Rightarrow> string \<Rightarrow> session \<Rightarrow> string \<Rightarrow> ('c, reply, 'a) clocked_steps" where
  "reused_refresh_steps e sid sess key =
     then_steps (atom e (\<lambda>_. record_event (Login_Failure ''an AI app's refresh token used a second time; the connection is ended''))) (\<lambda>_.
     then_steps (end_connection_steps e sid sess [key]) (\<lambda>_. refused e invalid_grant))"

text \<open>The answer once the token is claimed: the next token is drawn and kept, the old one marked, the session told.\<close>

definition claimed_refresh_steps :: "'c env \<Rightarrow> sign_in_client \<Rightarrow> string \<Rightarrow> string \<Rightarrow> session \<Rightarrow> string list \<Rightarrow> ('c, reply, reply) clocked_steps" where
  "claimed_refresh_steps e app key sid sess scopes =
     then_steps (atom e (\<lambda>e. random_token e refresh_token_bytes)) (\<lambda>next.
     let next_key = refresh_key (en_crypto e) next in
     then_steps (recover_steps (call_store e (op_save_refresh (en_ops e) next_key
         \<lparr>rg_session = sid, rg_client = si_id app, rg_rotated = False\<rparr> (s_expires_at sess))) (\<lambda>err. refused e (store_refusal err))) (\<lambda>_.
     then_steps (recover_steps (call_store e (op_save_refresh (en_ops e) key
         \<lparr>rg_session = sid, rg_client = si_id app, rg_rotated = True\<rparr> (s_expires_at sess))) (\<lambda>err. refused e (store_refusal err))) (\<lambda>_.
     then_steps (recover_steps (call_store e (op_replace_session (en_ops e) sid (sess\<lparr>s_refresh_key := next_key\<rparr>))) (\<lambda>err. refused e (grant_refusal err))) (\<lambda>_.
     atom e (\<lambda>e. answer_app_token e app (sess\<lparr>s_refresh_key := next_key\<rparr>) scopes next)))))"

definition app_refresh_steps :: "'c env \<Rightarrow> request \<Rightarrow> sign_in_client \<Rightarrow> ('c, reply, reply) clocked_steps" where
  "app_refresh_steps e rq app =
     (let token = peek rq ''refresh_token''; key = refresh_key (en_crypto e) token in
      if token = [] then refused e (oauth_error 400 ''invalid_request'')
      else
        then_steps (recover_steps (call_store e (op_load_refresh (en_ops e) key)) (\<lambda>err. refused e (grant_refusal err))) (\<lambda>g.
        if rg_client g \<noteq> si_id app then refused e invalid_grant
        else
          then_steps (recover_steps (call_store e (op_load_session (en_ops e) (rg_session g)))
             (\<lambda>err. if err \<noteq> Not_Found then refused e (store_refusal err)
                    else then_steps (attempt_steps (call_store e (op_delete_refresh (en_ops e) key))) (\<lambda>_. refused e invalid_grant))) (\<lambda>sess.
          if rg_rotated g then reused_refresh_steps e (rg_session g) sess key
          else
            then_steps (connection_scopes_steps e app (rg_session g) sess [key]) (\<lambda>scopes.
            then_steps (recover_steps (call_store e (op_take_refresh (en_ops e) key)) (\<lambda>err. refused e (grant_refusal err))) (\<lambda>claimed.
            if rg_rotated claimed \<or> rg_session claimed \<noteq> rg_session g then reused_refresh_steps e (rg_session g) sess key
            else claimed_refresh_steps e app key (rg_session g) sess scopes)))))"

section \<open>Without a break\<close>

lemma runs_delete_refreshes [runs_intros]: "runs_as (delete_refreshes_steps e ks) (\<lambda>t. delete_refreshes (e\<lparr>en_now := int t\<rparr>) ks)"
proof (induction ks)
  case Nil
  show ?case unfolding delete_refreshes_steps.simps delete_refreshes.simps by (rule runs_Done)
next
  case (Cons k ks)
  show ?case unfolding delete_refreshes_steps.simps delete_refreshes.simps clock_env by (intro runs_intros Cons.IH)
qed

lemma runs_end_connection [runs_intros]:
  "runs_as (end_connection_steps e sid sess keys) (\<lambda>t. end_connection (e\<lparr>en_now := int t\<rparr>) sid sess keys)"
  unfolding end_connection_steps_def end_connection_def clock_env by (intro runs_intros)

lemma runs_connection_scopes [runs_intros]:
  "runs_as (connection_scopes_steps e app sid sess keys) (\<lambda>t. connection_scopes (e\<lparr>en_now := int t\<rparr>) app sid sess keys)"
proof -
  have *: "runs_as (case m of None \<Rightarrow> p | Some a \<Rightarrow> Done (Inr (f a))) (\<lambda>t. andthen (from_option m (n t)) (\<lambda>a. ret (f a)))"
    if "runs_as p (\<lambda>t. andthen (n t) (\<lambda>a. ret (f a)))" for m :: "assistant option" and p n and f :: "assistant \<Rightarrow> string list"
    using that by (cases m) (auto simp: from_option_def simp del: ret_run intro: runs_Done)
  have stops: "andthen (andthen m (\<lambda>_. invalid_grant)) g = andthen m (\<lambda>_. invalid_grant)" for m :: "('a, unit) handler" and g :: "assistant \<Rightarrow> ('a, string list) handler"
    by (simp add: andthen_assoc invalid_grant_def oauth_error_def andthen_ret)
  show ?thesis
    unfolding connection_scopes_steps_def connection_scopes_def
    by (intro runs_intros *) (simp add: stops, intro runs_intros)
qed

lemma runs_reused_refresh [runs_intros]:
  "runs_as (reused_refresh_steps e sid sess key) (\<lambda>t. reused_refresh (e\<lparr>en_now := int t\<rparr>) sid sess key)"
  unfolding reused_refresh_steps_def reused_refresh_def by (intro runs_intros)

lemma run_app_refresh:
  "runs_as (app_refresh_steps e rq app) (\<lambda>t. app_refresh (e\<lparr>en_now := int t\<rparr>) rq app)"
  unfolding app_refresh_steps_def app_refresh_def claimed_refresh_steps_def Let_def clock_env
  by (intro runs_intros)

section \<open>How many steps\<close>

lemma lasts_delete_refreshes [lasts_intros]: "lasts (2 * length ks) (delete_refreshes_steps e ks)"
proof (induction ks)
  case (Cons k ks)
  have "lasts (Suc 0 + max (Suc 0) 0 + 2 * length ks) (then_steps (recover_steps (call_store e (op_delete_refresh (en_ops e) k))
      (\<lambda>err. if err \<noteq> Not_Found then refused e (store_refusal err) else Done (Inr ()))) (\<lambda>_. delete_refreshes_steps e ks))"
    by (intro lasts_then lasts_recover lasts_call_store lasts_if lasts_refused lasts_Done Cons.IH)
  then show ?case using lasts_mono[OF Cons.IH, of "2 * length (k # ks)"] by simp
qed (simp add: lasts_Done)

lemma lasts_end_connection: "lasts (6 + 2 * length keys) (end_connection_steps e sid sess keys)"
proof -
  have "lasts (Suc 0 + max (Suc 0) 0 + (2 * length (s_refresh_key sess # keys) + (max (Suc 0) 0 + Suc 0))) (end_connection_steps e sid sess keys)"
    unfolding end_connection_steps_def
    by (intro lasts_then lasts_recover lasts_attempt lasts_intros lasts_if lasts_Done)
  then show ?thesis by (simp add: numeral_eq_Suc)
qed

lemma lasts_connection_scopes: "lasts (9 + 2 * length keys) (connection_scopes_steps e app sid sess keys)"
proof -
  have o: "lasts n (case m of None \<Rightarrow> p | Some a \<Rightarrow> Done (f a))" if "lasts n p" for n p f and m :: "'x option"
    using that by (cases m) (simp_all add: lasts_Done)
  have "lasts (Suc 0 + Suc 0 + (6 + 2 * length keys + Suc 0)) (connection_scopes_steps e app sid sess keys)"
    unfolding connection_scopes_steps_def by (intro lasts_then lasts_recover lasts_end_connection lasts_intros o)
  then show ?thesis by simp
qed

lemma lasts_reused_refresh [lasts_intros]: "lasts 10 (reused_refresh_steps e sid sess key)"
proof -
  have "lasts (Suc 0 + (6 + 2 * length [key] + Suc 0)) (reused_refresh_steps e sid sess key)"
    unfolding reused_refresh_steps_def by (intro lasts_then lasts_end_connection lasts_intros)
  then show ?thesis by simp
qed

lemma lasts_claimed_refresh [lasts_intros]: "lasts 8 (claimed_refresh_steps e app key sid sess scopes)"
proof -
  have "lasts (Suc 0 + (Suc 0 + Suc 0 + (Suc 0 + Suc 0 + (Suc 0 + Suc 0 + Suc 0)))) (claimed_refresh_steps e app key sid sess scopes)"
    unfolding claimed_refresh_steps_def Let_def by (intro lasts_then lasts_recover lasts_intros)
  then show ?thesis by (simp add: numeral_eq_Suc)
qed

lemma lasts_app_refresh: "lasts 28 (app_refresh_steps e rq app)"
proof -
  have scopes: "lasts 11 (connection_scopes_steps e app sid sess [key])" for sid sess key
    using lasts_connection_scopes[of "[key]" e app sid sess] by simp
  have "lasts (max (Suc 0) (Suc 0 + Suc 0 + max (Suc 0) (Suc 0 + max (Suc 0) (Suc 0 + Suc 0) + max 10 (11 + (Suc 0 + Suc 0 + max 10 8))))) (app_refresh_steps e rq app)"
    unfolding app_refresh_steps_def Let_def by (intro lasts_if lasts_then lasts_recover lasts_attempt scopes lasts_intros)
  then show ?thesis by simp
qed

section \<open>What no part of a connection's end brings back\<close>

lemma stops_refusals:
  "stops invalid_grant" "stops (grant_refusal err)" "stops (store_refusal err)" "stops (oauth_error st code)"
  "stops (register_unavailable key rerr)"
  by (simp_all add: stops_def act_simps register_unavailable_Inr)

lemmas refused_claims = claimant_refused[OF stops_refusals(1) storeless_refusals(1)] claimant_refused[OF stops_refusals(2) storeless_refusals(2)]
  claimant_refused[OF stops_refusals(3) storeless_steps(8)] claimant_refused[OF stops_refusals(4) storeless_oauth_error]
  claimant_refused[OF stops_refusals(5) storeless_register_unavailable]

lemmas silent_intros = claimant_then silent_recover silent_attempt silent_Done claimant_if refused_claims

lemma silent_event: "claimant (held V U) True (atom e (\<lambda>_. record_event ev))"
  by (intro silent_storeless storeless_steps)

lemma storeless_answer_app_token: "storeless (answer_app_token e app sess scopes refresh)"
  unfolding answer_app_token_def by (auto intro!: storeless_intros split: prod.splits)

text \<open>What is held, and is not had again by what is done to sessions and connections or by a refresh grant's end.\<close>

locale takeable =
  fixes U :: "view \<Rightarrow> bool"
  assumes no_session: "U (v\<lparr>v_sessions := ss\<rparr>) \<Longrightarrow> U v"
    and no_connection: "U (v\<lparr>v_conns := cs\<rparr>) \<Longrightarrow> U v"
    and no_refresh_end: "U (v\<lparr>v_refresh := (v_refresh v)(k := None)\<rparr>) \<Longrightarrow> U v"
begin

lemma silent_calls:
  assumes "session_store ops V"
  shows "claimant (held V U) True (call_store e (op_load_refresh ops k))"
    "claimant (held V U) True (call_store e (op_load_session ops sid))"
    "claimant (held V U) True (call_store e (op_delete_refresh ops k))"
    "claimant (held V U) True (call_store e (op_delete_session ops sid))"
    "claimant (held V U) True (call_store e (op_replace_session ops sid sess))"
    "claimant (held V U) True (call_store e (op_remove_connection ops t a c))"
    "claimant (held V U) True (call_store e (op_add_connection ops t a c till))"
  by (rule silent_call[OF session_store.load_refresh[OF assms]] silent_call[OF session_store.load_session[OF assms]]
      silent_call[OF session_store.delete_refresh[OF assms]] silent_call[OF session_store.delete_session[OF assms]]
      silent_call[OF session_store.replace_session[OF assms]] silent_call[OF session_store.remove_connection[OF assms]]
      silent_call[OF session_store.add_connection[OF assms]], assumption,
      auto simp: spec_defs split: if_splits dest: no_session no_connection no_refresh_end)+

lemma silent_save_refresh:
  assumes "session_store ops V" "\<And>v. U (v\<lparr>v_refresh := (v_refresh v)(k \<mapsto> g)\<rparr>) \<Longrightarrow> U v"
  shows "claimant (held V U) True (call_store e (op_save_refresh ops k g till))"
  by (rule silent_call[OF session_store.save_refresh[OF assms(1)]]) (auto simp: spec_defs split: if_splits dest: assms(2))

lemma silent_delete_refreshes:
  "session_store (en_ops e) V \<Longrightarrow> claimant (held V U) True (delete_refreshes_steps e ks)"
  by (induction ks) (auto intro!: silent_intros silent_calls)

lemma silent_end_connection:
  assumes "session_store (en_ops e) V"
  shows "claimant (held V U) True (end_connection_steps e sid sess keys)"
  unfolding end_connection_steps_def
  by (intro silent_intros silent_calls[OF assms] silent_delete_refreshes[OF assms] silent_event)

lemma silent_connection_scopes:
  assumes "session_store (en_ops e) V"
  shows "claimant (held V U) True (connection_scopes_steps e app sid sess keys)"
proof -
  have o: "claimant A True (case m of None \<Rightarrow> p | Some a \<Rightarrow> Done (f a))" if "claimant A True p" for A p f and m :: "assistant option"
    using that by (cases m) (simp_all add: silent_Done)
  show ?thesis
    unfolding connection_scopes_steps_def
    by (intro silent_intros o silent_end_connection[OF assms] silent_storeless storeless_persons_assistants)
qed

lemma claimant_reused_refresh:
  assumes "session_store (en_ops e) V"
  shows "claimant (held V U) b (reused_refresh_steps e sid sess k)"
  unfolding reused_refresh_steps_def
  by (intro claimant_then silent_event silent_end_connection[OF assms] refused_claims)

end

section \<open>What a refresh claims\<close>

text \<open>The token is good: its grant is kept and not spent.\<close>

definition unspent :: "string \<Rightarrow> view \<Rightarrow> bool" where
  "unspent key v \<longleftrightarrow> (\<exists>g. v_refresh v key = Some g \<and> \<not> rg_rotated g)"

abbreviation token_good :: "(time \<Rightarrow> 'c \<Rightarrow> view) \<Rightarrow> string \<Rightarrow> 'c clocked \<Rightarrow> bool" where
  "token_good V key \<equiv> held V (unspent key)"

interpretation token: takeable "unspent key" for key
  by unfold_locales (auto simp: unspent_def split: if_splits)

lemma unspent_saved:
  "k \<noteq> key \<or> rg_rotated g \<Longrightarrow> unspent key (v\<lparr>v_refresh := (v_refresh v)(k \<mapsto> g)\<rparr>) \<Longrightarrow> unspent key v"
  by (auto simp: unspent_def split: if_splits)

text \<open>The next token is not the one presented: a draw gives a token anew.\<close>

definition draws_anew :: "'c env \<Rightarrow> string \<Rightarrow> bool" where
  "draws_anew e key \<longleftrightarrow> (\<forall>n. refresh_key (en_crypto e) (raw_url_encode (en_rand e n refresh_token_bytes)) \<noteq> key)"

lemma silent_claimed_refresh:
  assumes store: "session_store (en_ops e) V" and anew: "draws_anew e key"
  shows "claimant (token_good V key) True (claimed_refresh_steps e app key sid sess scopes)"
  unfolding claimed_refresh_steps_def
proof (rule claimant_then_atom[OF storeless_steps(9)])
  have saves: "claimant (token_good V key) True (call_store e (op_save_refresh (en_ops e) k g till))" if "k \<noteq> key \<or> rg_rotated g" for k g till
    by (rule token.silent_save_refresh[OF store unspent_saved[OF that]])
  fix e' :: "'a env" and w nx w'
  assume "en_crypto e' = en_crypto e" "en_rand e' = en_rand e" "random_token e' refresh_token_bytes w = (Inr nx, w')"
  then have nx: "refresh_key (en_crypto e) nx \<noteq> key"
    using anew by (auto simp: random_token_def draw_def andthen_def draws_anew_def)
  show "claimant (token_good V key) True (let next_key = refresh_key (en_crypto e) nx in
      then_steps (recover_steps (call_store e (op_save_refresh (en_ops e) next_key
         \<lparr>rg_session = sid, rg_client = si_id app, rg_rotated = False\<rparr> (s_expires_at sess))) (\<lambda>err. refused e (store_refusal err))) (\<lambda>_.
      then_steps (recover_steps (call_store e (op_save_refresh (en_ops e) key
         \<lparr>rg_session = sid, rg_client = si_id app, rg_rotated = True\<rparr> (s_expires_at sess))) (\<lambda>err. refused e (store_refusal err))) (\<lambda>_.
      then_steps (recover_steps (call_store e (op_replace_session (en_ops e) sid (sess\<lparr>s_refresh_key := next_key\<rparr>))) (\<lambda>err. refused e (grant_refusal err))) (\<lambda>_.
      atom e (\<lambda>e. answer_app_token e app (sess\<lparr>s_refresh_key := next_key\<rparr>) scopes nx)))))"
    unfolding Let_def
    by (intro silent_intros token.silent_calls[OF store] saves silent_storeless storeless_answer_app_token) (use nx in simp_all)
qed

lemma claimant_app_refresh:
  assumes store: "session_store (en_ops e) V" and key: "refresh_key (en_crypto e) (peek rq ''refresh_token'') = key" and anew: "draws_anew e key"
  shows "claimant (token_good V key) False (app_refresh_steps e rq app)"
proof -
  have gone: "claimant (token_good V key) True (if err \<noteq> Not_Found then refused e (store_refusal err)
      else then_steps (attempt_steps (call_store e (op_delete_refresh (en_ops e) key))) (\<lambda>_. refused e invalid_grant))" for err
    by (intro claimant_if refused_claims claimant_then silent_attempt token.silent_calls[OF store])
  have take: "claimant (token_good V key) False
      (then_steps (recover_steps (call_store e (op_take_refresh (en_ops e) key)) (\<lambda>err. refused e (grant_refusal err))) (\<lambda>claimed.
         if rg_rotated claimed \<or> rg_session claimed \<noteq> sid then reused_refresh_steps e sid sess key
         else claimed_refresh_steps e app key sid sess scopes))" for sid sess scopes
  proof (rule claimant_take[where good = "\<lambda>g. \<not> rg_rotated g", OF session_store.take_refresh[OF store]], assumption, goal_cases)
    case (5 g)
    show ?case by (intro claimant_if token.claimant_reused_refresh[OF store] silent_claimed_refresh[OF store anew])
  next
    case (6 g)
    then show ?case by (simp add: token.claimant_reused_refresh[OF store])
  qed (auto simp: spec_defs unspent_def stops_refusals storeless_refusals split: option.splits)
  note loads = claimant_then[OF silent_recover[OF token.silent_calls(1)[OF store] refused_claims(2)]]
    claimant_then[OF silent_recover[OF token.silent_calls(2)[OF store] gone]] claimant_then[OF token.silent_connection_scopes[OF store]]
  show ?thesis
    unfolding app_refresh_steps_def Let_def key
    by (intro claimant_if refused_claims loads token.claimant_reused_refresh[OF store] take)
qed

section \<open>Refreshes that run at once\<close>

definition refreshes :: "('c env \<times> request \<times> sign_in_client) list \<Rightarrow> ('c, reply, reply) clocked_steps list" where
  "refreshes reqs = map (\<lambda>(e, rq, app). app_refresh_steps e rq app) reqs"

text \<open>
  C7. Of any number of requests that present one refresh token at once, whatever the order their steps come in,
  at whatever instances of the service, and with whatever else goes on between them that does not make the token
  good again, at most one is answered with new tokens; and then the token is good no more.
\<close>

theorem one_refresh_is_answered:
  assumes "\<And>e rq app. (e, rq, app) \<in> set reqs \<Longrightarrow>
      session_store (en_ops e) V \<and> refresh_key (en_crypto e) (peek rq ''refresh_token'') = key \<and> draws_anew e key"
    and "(step (others V (unspent key)))\<^sup>*\<^sup>* (refreshes reqs, s) (ps, s')"
    and "i < length ps" "ps ! i = Done (Inr x)" "j < length ps" "ps ! j = Done (Inr y)"
  shows "i = j \<and> \<not> token_good V key s'"
  using one_taker.one_answered[OF _ assms(2-6)] assms(1) by (fastforce simp: refreshes_def intro: claimant_app_refresh)


section \<open>Two refreshes\<close>

abbreviation example_refresh :: "(memory clocked, reply + reply) steps" where
  "example_refresh \<equiv> app_refresh_steps (assistant_env []) (app_refresh_form ''r2'') app_row"

abbreviation example_key :: string where
  "example_key \<equiv> refresh_key (run_crypto []) ''r2''"

definition two_refreshes :: "(memory env \<times> request \<times> sign_in_client) list" where
  "two_refreshes = replicate 2 (assistant_env [], app_refresh_form ''r2'', app_row)"

lemma two_refreshes_steps: "refreshes two_refreshes = [example_refresh, example_refresh]"
  by (simp add: two_refreshes_def refreshes_def numeral_2_eq_2)

lemma example_draws_anew: "draws_anew (assistant_env []) example_key"
proof -
  have "length (refresh_key (run_crypto []) (raw_url_encode (replicate refresh_token_bytes c))) \<noteq> length example_key" for c
    by (simp add: refresh_key_def run_crypto_parts refresh_token_bytes_def raw_url_len_def)
  moreover have "en_crypto (assistant_env []) = run_crypto []" "\<exists>c. en_rand (assistant_env []) n k = replicate k c" for n k
    by (auto simp: assistant_env_def example_env_def)
  ultimately show ?thesis unfolding draws_anew_def by metis
qed


definition example_start_world :: "memory clocked" where
  "example_start_world = (nat example_now, example_world app_entries)"

lemma example_alone:
  "\<exists>t s. run example_refresh example_start_world = (Inr (Token_Reply t), s)"
proof -
  have now: "(assistant_env [])\<lparr>en_now := int (nat example_now)\<rparr> = assistant_env []"
    using assistant_store(2)[of "[]"] by (simp add: assistant_env_def example_env_def)
  obtain t where t: "fst (app_refresh (assistant_env []) (app_refresh_form ''r2'') app_row (example_world app_entries)) = Inr (Token_Reply t)"
    using example_app_refresh by blast
  note run = run_app_refresh[of "assistant_env []" "app_refresh_form ''r2''" app_row, unfolded runs_as_def, rule_format,
      of "nat example_now" "example_world app_entries", unfolded now]
  show ?thesis unfolding example_start_world_def run using ran[OF t] by (auto split: prod.splits)
qed

lemma example_race:
  "\<exists>t ps s. (step (others memory_view (unspent example_key)))\<^sup>*\<^sup>* (refreshes two_refreshes, example_start_world) (ps, s)
     \<and> ps ! 0 = Done (Inr (Token_Reply t)) \<and> (\<exists>r. ps ! 1 = Done r) \<and> length ps = 2"
proof -
  obtain t s1 where one: "run example_refresh example_start_world = (Inr (Token_Reply t), s1)" using example_alone by blast
  obtain rs s where run: "(step (others memory_view (unspent example_key)))\<^sup>*\<^sup>* (refreshes two_refreshes, example_start_world) (map Done rs, s)"
      "length rs = 2" "hd rs = Inr (Token_Reply t)"
    using run_in_order[where rely = "others memory_view (unspent example_key)" and qs = "[]" and ps = "refreshes two_refreshes" and s = example_start_world, OF others_refl, simplified append_Nil] one by (auto simp: two_refreshes_steps)
  moreover obtain x y where "rs = [x, y]" using run(2) by (auto simp: numeral_2_eq_2 length_Suc_conv)
  ultimately show ?thesis by (intro exI[of _ t] exI[of _ "map Done rs"] exI[of _ s]) auto
qed

lemma two_refreshes_ok:
  assumes "(e, rq, app) \<in> set two_refreshes"
  shows "session_store (en_ops e) memory_view \<and> refresh_key (en_crypto e) (peek rq ''refresh_token'') = example_key \<and> draws_anew e example_key"
  using assms assistant_store(1)[of "[]"] example_draws_anew
  by (simp add: two_refreshes_def app_refresh_form_def peek_def assistant_env_def example_env_def post_form_def)

theorem one_refresh_is_answered_witness:
  "\<exists>t e ps s. (step (others memory_view (unspent example_key)))\<^sup>*\<^sup>* (refreshes two_refreshes, example_start_world) (ps, s)
     \<and> ps ! 0 = Done (Inr (Token_Reply t)) \<and> ps ! 1 = Done (Inl e) \<and> \<not> token_good memory_view example_key s"
proof -
  obtain t ps s r where run: "(step (others memory_view (unspent example_key)))\<^sup>*\<^sup>* (refreshes two_refreshes, example_start_world) (ps, s)"
    "ps ! 0 = Done (Inr (Token_Reply t))" "ps ! 1 = Done r" "length ps = 2"
    using example_race by blast
  have one: "i = j \<and> \<not> token_good memory_view example_key s"
    if "i < length ps" "ps ! i = Done (Inr x)" "j < length ps" "ps ! j = Done (Inr y)" for i j x y
    by (rule one_refresh_is_answered[OF _ run(1) that]) (rule two_refreshes_ok)
  have "\<exists>e. r = Inl e" using one[of 0 _ 1] run(2-4) by (cases r) auto
  moreover have "\<not> token_good memory_view example_key s" using one[OF _ run(2) _ run(2)] run(4) by simp
  ultimately show ?thesis using run(1-3) by blast
qed


end
