(* ===== verification/Code_Race.thy ===== *)
theory Code_Race
  imports Race
begin

text \<open>
  Exchanges of one code that run at once, \<open>grantAuthorizationCode\<close> (\<open>src/routes/token.go\<close>) and \<open>appCodeExchange\<close>
  (\<open>src/routes/aiapp.go\<close>), step by step as in \<open>Race\<close>: the two handlers take a code from the one store, so an app's
  request and an AI app's for it may race too. \<open>run_code_exchange\<close> and \<open>run_app_code_exchange\<close> show that the steps
  taken without a break are the handlers.
\<close>

section \<open>The steps\<close>

definition need_field_step :: "'c env \<Rightarrow> request \<Rightarrow> string \<Rightarrow> ('c, reply, string) clocked_steps" where
  "need_field_step e rq k = atom e (\<lambda>_. need_field rq k)"

definition user_scopes_steps :: "'c env \<Rightarrow> session \<Rightarrow> string \<Rightarrow> string \<Rightarrow> moment \<Rightarrow> ('c, reply, membership_outcome) clocked_steps" where
  "user_scopes_steps e sess cid hint mo =
     (case en_register e of
        None \<Rightarrow> Done (Inr (baseline (en_registry e) cid))
      | Some rb \<Rightarrow>
          if \<not> membership_required (en_registry e) cid True then Done (Inr (baseline (en_registry e) cid))
          else
            then_steps (atom e (\<lambda>e. ask_memberships e rb (person_key (s_subject sess)))) (\<lambda>ms.
            then_steps (atom e (\<lambda>e. admit_directory e rb sess mo ms)) (\<lambda>ms'. atom e (\<lambda>_. outcome_of ms' hint))))"

text \<open>What is kept and answered once the code, the client and the session are found right.\<close>

definition exchanged_steps :: "'c env \<Rightarrow> sign_in_client \<Rightarrow> string \<Rightarrow> string \<Rightarrow> app_code \<Rightarrow> session \<Rightarrow> membership_outcome \<Rightarrow> string
    \<Rightarrow> ('c, reply, reply) clocked_steps" where
  "exchanged_steps e c cid thumbprint ac sess out refresh =
     (let key = refresh_key (en_crypto e) refresh; sess' = bound_session sess cid thumbprint out key in
      then_steps (recover_steps (call_store e (op_save_refresh (en_ops e) key
         \<lparr>rg_session = ac_session_id ac, rg_client = cid, rg_rotated = False\<rparr> (s_expires_at sess))) (\<lambda>err. refused e (store_refusal err))) (\<lambda>_.
      then_steps (recover_steps (call_store e (op_replace_session (en_ops e) (ac_session_id ac) sess')) (\<lambda>err. refused e (store_refusal err))) (\<lambda>_.
      then_steps (atom e (\<lambda>e. mint_user e (user_input c sess' out thumbprint))) (\<lambda>(tok, secs).
      then_steps (atom e (\<lambda>e. sign_in_id_token e c sess' ac)) (\<lambda>idtok.
      then_steps (atom e (\<lambda>_. token_issued sess' c out)) (\<lambda>_.
      Done (Inr (Token_Reply ((plain_token tok token_type_dpop secs)
        \<lparr>tk_refresh := refresh, tk_id := idtok, tk_tenants := uo_choices out, tk_capabilities := s_capabilities sess'\<rparr>)))))))))"

definition code_exchange_steps :: "'c env \<Rightarrow> request \<Rightarrow> string \<Rightarrow> ('c, reply, reply) clocked_steps" where
  "code_exchange_steps e rq thumbprint =
     then_steps (need_field_step e rq ''code'') (\<lambda>code.
     then_steps (need_field_step e rq ''code_verifier'') (\<lambda>verifier.
     then_steps (need_field_step e rq ''client_id'') (\<lambda>cid.
     then_steps (need_field_step e rq ''redirect_uri'') (\<lambda>uri.
     then_steps (atom e (\<lambda>e. authenticate_sign_in_request e rq cid)) (\<lambda>c.
     then_steps (recover_steps (call_store e (op_consume_app_code (en_ops e) code)) (\<lambda>_. refused e (refuse Unauthorized))) (\<lambda>ac.
     then_steps (atom e (\<lambda>_. guard (ac_client_id ac = cid \<and> ac_redirect_uri ac = uri) Unauthorized)) (\<lambda>_.
     then_steps (atom e (\<lambda>_. guard (verify_pkce (en_crypto e) verifier (ac_code_challenge ac) (ac_code_challenge_method ac)) Unauthorized)) (\<lambda>_.
     then_steps (recover_steps (call_store e (op_load_session (en_ops e) (ac_session_id ac))) (\<lambda>_. refused e (refuse Unauthorized))) (\<lambda>sess.
     then_steps (user_scopes_steps e sess cid (ac_tenant ac) At_Sign_In) (\<lambda>out.
     then_steps (atom e (\<lambda>e. random_token e refresh_token_bytes)) (\<lambda>refresh.
     exchanged_steps e c cid thumbprint ac sess out refresh)))))))))))"

text \<open>An AI app's connection is dated by the clock when it is made.\<close>

definition connected_steps :: "'c env \<Rightarrow> sign_in_client \<Rightarrow> app_code \<Rightarrow> session \<Rightarrow> string list \<Rightarrow> string \<Rightarrow> string \<Rightarrow> ('c, reply, reply) clocked_steps" where
  "connected_steps e app ac sess scopes refresh sid =
     (let key = refresh_key (en_crypto e) refresh in
      then_steps (atom e (\<lambda>e. ret (connected_session sess key sid (en_now e)))) (\<lambda>sess'.
      then_steps (recover_steps (call_store e (op_save_refresh (en_ops e) key
         \<lparr>rg_session = ac_session_id ac, rg_client = si_id app, rg_rotated = False\<rparr> (s_expires_at sess))) (\<lambda>err. refused e (store_refusal err))) (\<lambda>_.
      then_steps (recover_steps (call_store e (op_replace_session (en_ops e) (ac_session_id ac) sess')) (\<lambda>err. refused e (store_refusal err))) (\<lambda>_.
      then_steps (recover_steps (call_store e (op_add_connection (en_ops e) (s_tenant sess) (s_assistant sess)
         \<lparr>con_id = sid, con_session = ac_session_id ac\<rparr> (s_expires_at sess))) (\<lambda>err. refused e (store_refusal err))) (\<lambda>_.
      atom e (\<lambda>e. answer_app_token e app sess' scopes refresh))))))"

definition app_code_exchange_steps :: "'c env \<Rightarrow> request \<Rightarrow> sign_in_client \<Rightarrow> ('c, reply, reply) clocked_steps" where
  "app_code_exchange_steps e rq app =
     (let code = peek rq ''code''; verifier = peek rq ''code_verifier''; uri = peek rq ''redirect_uri'' in
      if code = [] \<or> verifier = [] \<or> uri = [] then refused e (oauth_error 400 ''invalid_request'')
      else
        then_steps (recover_steps (call_store e (op_consume_app_code (en_ops e) code)) (\<lambda>err. refused e (grant_refusal err))) (\<lambda>ac.
        if ac_client_id ac \<noteq> si_id app \<or> ac_redirect_uri ac \<noteq> uri \<or> ac_assistant ac = []
           \<or> \<not> verify_pkce (en_crypto e) verifier (ac_code_challenge ac) (ac_code_challenge_method ac) then refused e invalid_grant
        else
          then_steps (recover_steps (call_store e (op_load_session (en_ops e) (ac_session_id ac))) (\<lambda>_. refused e invalid_grant)) (\<lambda>sess.
          if s_assistant sess \<noteq> ac_assistant ac \<or> s_client_id sess \<noteq> si_id app then refused e invalid_grant
          else
            then_steps (connection_scopes_steps e app (ac_session_id ac) sess []) (\<lambda>scopes.
            then_steps (atom e (\<lambda>e. random_token e refresh_token_bytes)) (\<lambda>refresh.
            then_steps (atom e (\<lambda>e. random_token e 24)) (\<lambda>sid.
            connected_steps e app ac sess scopes refresh sid))))))"

section \<open>Without a break\<close>

lemma runs_user_scopes [runs_intros]:
  "runs_as (user_scopes_steps e sess cid hint mo) (\<lambda>t. user_scopes (e\<lparr>en_now := int t\<rparr>) sess cid hint mo)"
  unfolding user_scopes_steps_def user_scopes_def clock_env by (intro runs_intros)

lemma run_code_exchange:
  "runs_as (code_exchange_steps e rq jkt) (\<lambda>t. grant_authorization_code (e\<lparr>en_now := int t\<rparr>) rq jkt)"
  unfolding code_exchange_steps_def grant_authorization_code_def exchanged_steps_def need_field_step_def Let_def clock_env
  by (intro runs_intros)

lemma runs_clock [runs_intros]:
  "(\<And>x. runs_as (f x) (\<lambda>t. g t x)) \<Longrightarrow> runs_as (then_steps (atom e (\<lambda>e. ret (h e))) f) (\<lambda>t. g t (h (e\<lparr>en_now := int t\<rparr>)))"
  by (auto simp: runs_as_def run_atom andthen_def split: prod.splits)

lemma runs_connected [runs_intros]:
  "runs_as (connected_steps e app ac sess scopes refresh sid)
     (\<lambda>t. let key = refresh_key (en_crypto e) refresh; sess' = connected_session sess key sid (en_now (e\<lparr>en_now := int t\<rparr>)) in
        andthen (recover (stored (e\<lparr>en_now := int t\<rparr>) (op_save_refresh (en_ops e) key
                \<lparr>rg_session = ac_session_id ac, rg_client = si_id app, rg_rotated = False\<rparr> (s_expires_at sess))) store_refusal) (\<lambda>_.
            andthen (recover (stored (e\<lparr>en_now := int t\<rparr>) (op_replace_session (en_ops e) (ac_session_id ac) sess')) store_refusal) (\<lambda>_.
            andthen (recover (stored (e\<lparr>en_now := int t\<rparr>) (op_add_connection (en_ops e) (s_tenant sess) (s_assistant sess)
                \<lparr>con_id = sid, con_session = ac_session_id ac\<rparr> (s_expires_at sess))) store_refusal) (\<lambda>_.
            answer_app_token (e\<lparr>en_now := int t\<rparr>) app sess' scopes refresh))))"
  unfolding connected_steps_def Let_def
  by (rule runs_clock[where h = "\<lambda>e'. connected_session sess (refresh_key (en_crypto e) refresh) sid (en_now e')"]) (intro runs_intros)

lemma run_app_code_exchange:
  "runs_as (app_code_exchange_steps e rq app) (\<lambda>t. app_code_exchange (e\<lparr>en_now := int t\<rparr>) rq app)"
  unfolding app_code_exchange_steps_def app_code_exchange_def clock_env Let_def
  by (intro runs_intros runs_connected[unfolded Let_def])

section \<open>How many steps\<close>

lemma lasts_user_scopes: "lasts 3 (user_scopes_steps e sess cid hint mo)"
proof -
  have "lasts (Suc 0 + (Suc 0 + Suc 0)) (then_steps (atom e (\<lambda>e. ask_memberships e rb (person_key (s_subject sess)))) (\<lambda>ms.
      then_steps (atom e (\<lambda>e. admit_directory e rb sess mo ms)) (\<lambda>ms'. atom e (\<lambda>_. outcome_of ms' hint))))" for rb
    by (intro lasts_then lasts_atom)
  then show ?thesis
    unfolding user_scopes_steps_def by (cases "en_register e") (simp_all add: lasts_Done numeral_eq_Suc)
qed

lemma lasts_exchanged: "lasts 7 (exchanged_steps e c cid jkt ac sess out refresh)"
proof -
  have p: "lasts n (case x of (a, b) \<Rightarrow> q a b)" if "\<And>a b. lasts n (q a b)" for n x q
    using that by (cases x) simp
  have "lasts (Suc 0 + Suc 0 + (Suc 0 + Suc 0 + (Suc 0 + (Suc 0 + (Suc 0 + 0))))) (exchanged_steps e c cid jkt ac sess out refresh)"
    unfolding exchanged_steps_def Let_def by (intro lasts_then lasts_recover p lasts_Done lasts_intros)
  then show ?thesis by (simp add: numeral_eq_Suc)
qed

lemma lasts_code_exchange: "lasts 22 (code_exchange_steps e rq jkt)"
proof -
  have "lasts (Suc 0 + (Suc 0 + (Suc 0 + (Suc 0 + (Suc 0 + (Suc 0 + Suc 0 + (Suc 0 + (Suc 0 + (Suc 0 + Suc 0 + (3 + (Suc 0 + 7))))))))))) (code_exchange_steps e rq jkt)"
    unfolding code_exchange_steps_def need_field_step_def by (intro lasts_then lasts_recover lasts_user_scopes lasts_exchanged lasts_intros)
  then show ?thesis by (simp add: numeral_eq_Suc)
qed

lemma lasts_connected: "lasts 8 (connected_steps e app ac sess scopes refresh sid)"
proof -
  have "lasts (Suc 0 + (Suc 0 + Suc 0 + (Suc 0 + Suc 0 + (Suc 0 + Suc 0 + Suc 0)))) (connected_steps e app ac sess scopes refresh sid)"
    unfolding connected_steps_def Let_def by (intro lasts_then lasts_recover lasts_intros)
  then show ?thesis by (simp add: numeral_eq_Suc)
qed

lemma lasts_app_code_exchange: "lasts 23 (app_code_exchange_steps e rq app)"
proof -
  have "lasts (max (Suc 0) (Suc 0 + Suc 0 + max (Suc 0) (Suc 0 + Suc 0 + max (Suc 0) (9 + 2 * length ([] :: string list) + (Suc 0 + (Suc 0 + 8))))))
      (app_code_exchange_steps e rq app)"
    unfolding app_code_exchange_steps_def Let_def
    by (intro lasts_if lasts_then lasts_recover lasts_connected lasts_connection_scopes lasts_intros)
  then show ?thesis by simp
qed

section \<open>What an exchange claims\<close>

definition code_kept :: "string \<Rightarrow> view \<Rightarrow> bool" where
  "code_kept code v \<longleftrightarrow> v_codes v code \<noteq> None"

interpretation code: takeable "code_kept code" for code
  by unfold_locales (auto simp: code_kept_def)

lemma silent_saved_grant:
  "session_store (en_ops e) V \<Longrightarrow> claimant (held V (code_kept code)) True (call_store e (op_save_refresh (en_ops e) k g till))"
  by (rule code.silent_save_refresh) (simp_all add: code_kept_def)

lemma claimant_take_code:
  assumes "session_store (en_ops e) V" "\<And>err. stops (h err)" "\<And>err. storeless (h err)"
    and "\<And>ac. claimant (held V (code_kept code)) True (f ac)"
  shows "claimant (held V (code_kept code)) False
     (then_steps (recover_steps (call_store e (op_consume_app_code (en_ops e) code)) (\<lambda>err. refused e (h err))) f)"
  by (rule claimant_take[where good = "\<lambda>_. True", OF session_store.consume_app_code[OF assms(1)]])
    (auto simp: spec_defs code_kept_def assms split: option.splits)

lemma storeless_asks [storeless_intros]:
  "storeless (ask_memberships e rb key)" "storeless (admit_directory e rb sess mo ms)" "storeless (outcome_of ms' hint)"
  unfolding admit_directory_def outcome_of_def ask_memberships_def register_unavailable_def
  by (auto intro!: storeless_intros storeless_asking[OF memberships_asks] storeless_asking[OF admit_asks] split: prod.splits)

lemma silent_user_scopes: "claimant (held V U) True (user_scopes_steps e sess cid hint mo)"
  unfolding user_scopes_steps_def
  by (cases "en_register e") (auto intro!: claimant_then silent_Done silent_storeless storeless_asks)

lemma silent_prod: "(\<And>a b. claimant A True (q a b)) \<Longrightarrow> claimant A True (case x of (a, b) \<Rightarrow> q a b)"
  by (cases x) simp

lemma claimant_need_field:
  assumes "rq_string rq k = Some v" "claimant (held V U) b (f v)"
  shows "claimant (held V U) b (then_steps (need_field_step e rq k) f)"
  unfolding need_field_step_def
  by (rule claimant_then_atom[OF storeless_steps(5)]) (use assms in \<open>auto simp: need_field_def\<close>)

lemma stops_refuse: "stops (refuse p)"
  by (simp add: stops_def act_simps)

lemma silent_exchanged:
  "session_store (en_ops e) V \<Longrightarrow> claimant (held V (code_kept code)) True (exchanged_steps e c cid jkt ac sess out refresh)"
  unfolding exchanged_steps_def Let_def
  by (intro silent_intros silent_prod silent_saved_grant code.silent_calls silent_storeless storeless_mint_user
      storeless_id_token storeless_token_issued)

lemma claimant_code_exchange:
  assumes store: "session_store (en_ops e) V" and code: "rq_string rq ''code'' = Some code"
  shows "claimant (held V (code_kept code)) False (code_exchange_steps e rq jkt)"
proof -
  have field: "claimant A True (need_field_step e rq k)" if "A = held V (code_kept code)" for A k
    unfolding that need_field_step_def by (rule silent_storeless) (rule storeless_steps)
  have refused: "claimant (held V (code_kept code)) True (refused e (refuse Unauthorized))"
    by (rule claimant_refused) (simp_all add: stops_refuse storeless_steps)
  show ?thesis
    unfolding code_exchange_steps_def
    by (intro claimant_need_field[OF code] claimant_then[OF field[OF refl]] claimant_then[OF silent_storeless[OF storeless_client_auth]]
        claimant_take_code[OF store] stops_refuse storeless_steps silent_intros refused code.silent_calls[OF store] silent_user_scopes
        silent_exchanged[OF store] silent_storeless)
qed

lemma claimant_app_code_exchange:
  assumes store: "session_store (en_ops e) V" and code: "peek rq ''code'' = code"
  shows "claimant (held V (code_kept code)) False (app_code_exchange_steps e rq app)"
  unfolding app_code_exchange_steps_def connected_steps_def Let_def code
  by (intro claimant_if refused_claims claimant_take_code[OF store] stops_refusals storeless_refusals silent_intros
      code.silent_calls[OF store] code.silent_connection_scopes[OF store] silent_saved_grant[OF store] silent_storeless
      storeless_steps storeless_answer_app_token)

section \<open>Exchanges that run at once\<close>

text \<open>Requests for one code: apps' with the key each proved, and AI apps'.\<close>

definition exchanges :: "('c env \<times> request \<times> string) list \<Rightarrow> ('c env \<times> request \<times> sign_in_client) list \<Rightarrow> ('c, reply, reply) clocked_steps list" where
  "exchanges own ai = map (\<lambda>(e, rq, jkt). code_exchange_steps e rq jkt) own @ map (\<lambda>(e, rq, app). app_code_exchange_steps e rq app) ai"

text \<open>
  C8. Of any number of requests that present one application code at once, apps' and AI apps' alike, whatever the
  order their steps come in, at whatever instances of the service, and with whatever else goes on between them that
  does not make the code anew, at most one is answered with tokens; and then the code is kept no more.
\<close>

theorem one_exchange_is_answered:
  assumes "\<And>e rq jkt. (e, rq, jkt) \<in> set own \<Longrightarrow> session_store (en_ops e) V \<and> rq_string rq ''code'' = Some code"
    and "\<And>e rq app. (e, rq, app) \<in> set ai \<Longrightarrow> session_store (en_ops e) V \<and> peek rq ''code'' = code"
    and "(step (others V (code_kept code)))\<^sup>*\<^sup>* (exchanges own ai, s) (ps, s')"
    and "i < length ps" "ps ! i = Done (Inr x)" "j < length ps" "ps ! j = Done (Inr y)"
  shows "i = j \<and> \<not> held V (code_kept code) s'"
  using one_taker.one_answered[OF _ assms(3-7)] assms(1,2)
  by (fastforce simp: exchanges_def intro: claimant_code_exchange claimant_app_code_exchange)

text \<open>They end, each within its steps.\<close>

lemma exchanges_end:
  assumes "\<And>s. \<exists>s1. rely s s1" and "(step rely ^^ n) (exchanges own ai, s) (ps, s')"
  shows "n \<le> 23 * (length own + length ai) \<and> length ps = length own + length ai
     \<and> ((\<forall>c. \<not> step rely (ps, s') c) \<longleftrightarrow> (\<forall>p\<in>set ps. \<exists>r. p = Done r))"
proof -
  have "pool_lasts (23 * length (exchanges own ai)) (exchanges own ai)"
    by (rule pool_lasts_all) (auto simp: exchanges_def lasts_app_code_exchange intro: lasts_mono[OF lasts_code_exchange])
  from steps_bounded[OF assms(2) this] have "n \<le> 23 * (length own + length ai) \<and> length ps = length own + length ai" by (simp add: exchanges_def)
  with stuck_iff[of rely ps s', OF assms(1)] show ?thesis by blast
qed

section \<open>Three exchanges of a code\<close>

definition ai_exchange_form :: request where
  "ai_exchange_form = post_form [(''code'', ''C1''), (''code_verifier'', ''verifier''), (''redirect_uri'', ''https://shop.test/cb''),
     (''client_id'', ''shop-app'')] []"

definition two_own :: "(memory env \<times> request \<times> string) list" where
  "two_own = [(staff_env, exchange_form, ''jkt''), (staff_env, exchange_form, ''jkt'')]"

definition one_ai :: "(memory env \<times> request \<times> sign_in_client) list" where
  "one_ai = [(assistant_env [], ai_exchange_form, app_row)]"

definition exchange_start :: "memory clocked" where
  "exchange_start = (nat example_now, example_world example_entries)"

lemma exchange_alone: "\<exists>t. fst (run (code_exchange_steps staff_env exchange_form ''jkt'') exchange_start) = Inr (Token_Reply t)"
proof -
  have now: "staff_env\<lparr>en_now := int (nat example_now)\<rparr> = staff_env"
    by (simp add: example_grant_defs)
  note run = run_code_exchange[of staff_env exchange_form "''jkt''", unfolded runs_as_def, rule_format,
      of "nat example_now" "example_world example_entries", unfolded now]
  show ?thesis unfolding exchange_start_def run using example_exchange by (auto split: prod.splits)
qed

lemma exchanges_ok:
  "(e, rq, jkt) \<in> set two_own \<Longrightarrow> session_store (en_ops e) memory_view \<and> rq_string rq ''code'' = Some ''C1''"
  "(e, rq, app) \<in> set one_ai \<Longrightarrow> session_store (en_ops e) memory_view \<and> peek rq ''code'' = ''C1''"
  using example_store assistant_store(1)[of "[]"]
  by (simp_all add: two_own_def one_ai_def exchange_form_def ai_exchange_form_def peek_def example_grant_defs)

theorem one_exchange_is_answered_witness:
  "\<exists>t e f s. (step (others memory_view (code_kept ''C1'')))\<^sup>*\<^sup>* (exchanges two_own one_ai, exchange_start)
       ([Done (Inr (Token_Reply t)), Done (Inl e), Done (Inl f)], s)
     \<and> \<not> held memory_view (code_kept ''C1'') s"
proof -
  obtain t where one: "fst (run (code_exchange_steps staff_env exchange_form ''jkt'') exchange_start) = Inr (Token_Reply t)"
    using exchange_alone by blast
  obtain rs s where run: "(step (others memory_view (code_kept ''C1'')))\<^sup>*\<^sup>* (exchanges two_own one_ai, exchange_start) (map Done rs, s)"
      "length rs = 3" "hd rs = Inr (Token_Reply t)"
    using run_in_order[where rely = "others memory_view (code_kept ''C1'')" and qs = "[]" and ps = "exchanges two_own one_ai" and s = exchange_start, OF others_refl, simplified append_Nil] one
    by (auto simp: exchanges_def two_own_def one_ai_def)
  then obtain x y where rs: "rs = [Inr (Token_Reply t), x, y]" by (auto simp: numeral_3_eq_3 length_Suc_conv)
  have once: "i = j \<and> \<not> held memory_view (code_kept ''C1'') s" if "i < 3" "rs ! i = Inr a" "j < 3" "rs ! j = Inr b" for i j a b
    by (rule one_exchange_is_answered[OF exchanges_ok run(1)]) (use that run(2) in simp_all)
  obtain e f where inl: "x = Inl e" "y = Inl f"
    using once[of 0 _ 1] once[of 0 _ 2] rs by (cases x; cases y) auto
  have "\<not> held memory_view (code_kept ''C1'') s" using once[of 0 _ 0] rs by auto
  with run(1) show ?thesis unfolding rs inl list.map by blast
qed

end
