(* ===== verification/Browser.thy ===== *)
theory Browser
  imports Store_Frames
begin

text \<open>
  What ties a sign-in to one browser and what the browser is answered with: this service's cookies
  (\<open>src/routes/cookies.go\<close>), the pages every handler may answer (\<open>cannotStart\<close>, \<open>renderPage\<close> and the
  origin checks of \<open>src/routes/signin.go\<close>) and the addresses that return to a client
  (\<open>src/routes/helpers.go\<close>).
\<close>

section \<open>Cookies\<close>

definition sign_in_cookie :: string where "sign_in_cookie = ''authbyte_signin''"
definition notice_cookie :: string where "notice_cookie = ''authbyte_notice''"
definition language_cookie :: string where "language_cookie = ''authbyte_lang''"
definition host_prefix :: string where "host_prefix = ''__Host-''"
definition binding_bytes :: nat where "binding_bytes = 32"
definition notice_lifetime :: duration where "notice_lifetime = 60 * second"
definition lang_lifetime :: duration where "lang_lifetime = 365 * 24 * 3600 * second"
definition flow_ttl :: duration where "flow_ttl = 600 * second"
definition app_code_ttl :: duration where "app_code_ttl = 60 * second"

definition notice_cancelled :: string where "notice_cancelled = ''cancelled''"
definition notice_provider :: string where "notice_provider = ''provider''"
definition notice_expired :: string where "notice_expired = ''expired''"
definition notice_no_script :: string where "notice_no_script = ''noscript''"
definition notice_card_failed :: string where "notice_card_failed = ''cardfailed''"

definition secure_cookies :: "'c env \<Rightarrow> request \<Rightarrow> bool" where
  "secure_cookies e rq \<longleftrightarrow> rq_tls rq \<or> \<not> cf_development (en_config e)"

definition cookie_name :: "'c env \<Rightarrow> request \<Rightarrow> string \<Rightarrow> string" where
  "cookie_name e rq name = (if secure_cookies e rq then host_prefix @ name else name)"

definition read_cookie :: "'c env \<Rightarrow> request \<Rightarrow> string \<Rightarrow> string" where
  "read_cookie e rq name = rq_cookie rq (cookie_name e rq name)"

definition set_cookie :: "'c env \<Rightarrow> request \<Rightarrow> string \<Rightarrow> string \<Rightarrow> duration \<Rightarrow> ('c, unit) handler" where
  "set_cookie e rq name v lifetime =
     change (\<lambda>w. w\<lparr>wo_cookies := wo_cookies w @ [Set_Cookie (cookie_name e rq name) v lifetime (secure_cookies e rq)]\<rparr>)"

definition clear_cookie :: "'c env \<Rightarrow> request \<Rightarrow> string \<Rightarrow> ('c, unit) handler" where
  "clear_cookie e rq name =
     change (\<lambda>w. w\<lparr>wo_cookies := wo_cookies w @ [Clear_Cookie (cookie_name e rq name) (secure_cookies e rq)]\<rparr>)"

definition browser_binding :: "'c env \<Rightarrow> request \<Rightarrow> string" where
  "browser_binding e rq =
     (let v = read_cookie e rq sign_in_cookie in
      if length v \<noteq> raw_url_len binding_bytes \<or> raw_url_decode v = None then [] else v)"

definition bind_browser :: "'c env \<Rightarrow> request \<Rightarrow> ('c, string) handler" where
  "bind_browser e rq =
     andthen (if browser_binding e rq = [] then random_token e binding_bytes else ret (browser_binding e rq)) (\<lambda>b.
     andthen (set_cookie e rq sign_in_cookie b flow_ttl) (\<lambda>_. ret b))"

definition labelled_hash :: "crypto \<Rightarrow> string \<Rightarrow> string \<Rightarrow> string" where
  "labelled_hash cr label v = raw_url_encode (cr_sha256 cr (label @ [CHR 0x00] @ v))"

definition binding_hash :: "crypto \<Rightarrow> string \<Rightarrow> string" where
  "binding_hash cr b = labelled_hash cr ''authbyte sign-in binding'' b"

definition bound_here :: "'c env \<Rightarrow> request \<Rightarrow> string \<Rightarrow> bool" where
  "bound_here e rq flow_binding \<longleftrightarrow>
     browser_binding e rq \<noteq> [] \<and> binding_hash (en_crypto e) (browser_binding e rq) = flow_binding"

definition choice_token :: "crypto \<Rightarrow> string \<Rightarrow> string" where
  "choice_token cr b = labelled_hash cr ''authbyte sign-in choice'' b"

definition take_notice :: "'c env \<Rightarrow> request \<Rightarrow> ('c, string) handler" where
  "take_notice e rq =
     (let n = read_cookie e rq notice_cookie in
      if n = [] then ret []
      else andthen (clear_cookie e rq notice_cookie) (\<lambda>_.
        ret (if n \<noteq> notice_cancelled \<and> n \<noteq> notice_provider then [] else n)))"

section \<open>Origins\<close>

text \<open>\<open>URL.Port\<close>.\<close>

definition url_port :: "url \<Rightarrow> string" where
  "url_port u =
     (case last_cut (CHR '':'') (u_host u) of
        Some (n, p) \<Rightarrow> if list_all dec_digit p then p else []
      | None \<Rightarrow> [])"

definition origin_of :: "string \<Rightarrow> string" where
  "origin_of address =
     (case parse_url address of
        None \<Rightarrow> []
      | Some u \<Rightarrow>
          let host = to_lower (u_host u); p = url_port u in
          u_scheme u @ ''://''
            @ (if u_scheme u = ''https'' \<and> p = ''443'' \<or> u_scheme u = ''http'' \<and> p = ''80''
               then trim_suffix host ('':'' @ p) else host))"

definition web_origin :: "string \<Rightarrow> string" where
  "web_origin address =
     (case parse_url address of
        None \<Rightarrow> []
      | Some u \<Rightarrow> if u_scheme u \<noteq> ''https'' \<and> u_scheme u \<noteq> ''http'' \<or> u_host u = [] then [] else origin_of address)"

definition self_origin :: "'c env \<Rightarrow> string" where
  "self_origin e = origin_of (cf_base_url (en_config e))"

definition from_own_page :: "'c env \<Rightarrow> request \<Rightarrow> bool" where
  "from_own_page e rq \<longleftrightarrow> rq_header rq ''Origin'' \<noteq> [] \<and> equal_fold (rq_header rq ''Origin'') (self_origin e)"

section \<open>Pages\<close>

definition page_language :: "'c env \<Rightarrow> request \<Rightarrow> string \<Rightarrow> string" where
  "page_language e rq locales =
     choose_words (en_parse_float e) (read_cookie e rq language_cookie) locales (rq_header rq ''Accept-Language'')"

fun set_headers :: "(string \<times> string) list \<Rightarrow> ('c, unit) handler" where
  "set_headers [] = ret ()"
| "set_headers (p # ps) = andthen (set_header (fst p) (snd p)) (\<lambda>_. set_headers ps)"

text \<open>A form of the page may be answered with a redirect to a provider's or to one of \<open>back\<close>.\<close>

definition render_page :: "'c env \<Rightarrow> int \<Rightarrow> page \<Rightarrow> string list \<Rightarrow> ('c, reply) handler" where
  "render_page e status p back =
     (let targets = map (\<lambda>u. authorization_origin (ue_prov u)) (en_upstreams e) @ back in
      andthen (set_headers (page_headers targets)) (\<lambda>_. ret (Page status (p\<lparr>pg_targets := targets\<rparr>))))"

definition bare_page :: "page_kind \<Rightarrow> string \<Rightarrow> page" where
  "bare_page kind lang = \<lparr>pg_kind = kind, pg_lang = lang, pg_ways = [], pg_notice = [], pg_action = [], pg_token = [],
     pg_card = None, pg_next = [], pg_targets = []\<rparr>"

definition cannot_start :: "'c env \<Rightarrow> request \<Rightarrow> int \<Rightarrow> problem \<Rightarrow> string \<Rightarrow> ('c, 'a) handler" where
  "cannot_start e rq status p next =
     (if \<not> rq_html rq then refuse p
      else andthen (render_page e status ((bare_page Cannot_Start_Page (page_language e rq []))\<lparr>pg_next := next\<rparr>) []) stop)"

section \<open>Returning to a client\<close>

definition issuer_id :: "'c env \<Rightarrow> string" where
  "issuer_id e = trim_suffix (cf_issuer_url (en_config e)) ''/''"

definition with_query :: "string \<Rightarrow> (url_values \<Rightarrow> url_values) \<Rightarrow> string" where
  "with_query uri f =
     (case parse_url uri of
        None \<Rightarrow> uri
      | Some u \<Rightarrow> url_string (u\<lparr>u_query := values_encode (f (parse_query (u_query u)))\<rparr>))"

definition append_code_state :: "string \<Rightarrow> string \<Rightarrow> string \<Rightarrow> string \<Rightarrow> string" where
  "append_code_state uri iss code state =
     with_query uri (\<lambda>q. values_set ''iss'' iss (set_if ''state'' state (values_set ''code'' code q)))"

definition append_error_state :: "string \<Rightarrow> string \<Rightarrow> string \<Rightarrow> string \<Rightarrow> string \<Rightarrow> string" where
  "append_error_state uri iss code description state =
     with_query uri (\<lambda>q. values_set ''iss'' iss (set_if ''state'' state
       (set_if ''error_description'' description (values_set ''error'' code q))))"

text \<open>\<open>ctx.RedirectUnsafe\<close>: 302 unless a redirect status was set before.\<close>

definition redirect_to :: "string \<Rightarrow> ('c, 'a) handler" where
  "redirect_to target = stop (Redirect 302 target)"

definition see_other :: "string \<Rightarrow> ('c, 'a) handler" where
  "see_other target = stop (Redirect 303 target)"

section \<open>Facts\<close>

lemma cookies_Inr [act_simps]:
  "set_cookie e rq name v life w = (Inr u, w') \<longleftrightarrow>
     w' = w\<lparr>wo_cookies := wo_cookies w @ [Set_Cookie (cookie_name e rq name) v life (secure_cookies e rq)]\<rparr>"
  "clear_cookie e rq name w = (Inr u, w') \<longleftrightarrow>
     w' = w\<lparr>wo_cookies := wo_cookies w @ [Clear_Cookie (cookie_name e rq name) (secure_cookies e rq)]\<rparr>"
  by (auto simp: set_cookie_def clear_cookie_def)

lemma redirect_Inr [act_simps]:
  "redirect_to u w = (Inr x, w') \<longleftrightarrow> False" "see_other u w = (Inr x, w') \<longleftrightarrow> False"
  by (simp_all add: redirect_to_def see_other_def)

lemma set_headers_run: "set_headers hs w = (Inr (), w\<lparr>wo_headers := wo_headers w @ hs\<rparr>)"
  by (induction hs arbitrary: w) (simp_all add: andthen_def set_header_def)

lemma render_page_run:
  "render_page e status p back w =
     (let targets = map (\<lambda>u. authorization_origin (ue_prov u)) (en_upstreams e) @ back in
      (Inr (Page status (p\<lparr>pg_targets := targets\<rparr>)), w\<lparr>wo_headers := wo_headers w @ page_headers targets\<rparr>))"
  by (simp add: render_page_def andthen_def set_headers_run Let_def)

lemma cannot_start_Inr [act_simps]: "cannot_start e rq status p next w = (Inr x, w') \<longleftrightarrow> False"
  by (simp add: cannot_start_def refuse_def andthen_Inr)

lemma storeless_browser [storeless_intros]:
  "storeless (set_cookie e rq name v life)" "storeless (clear_cookie e rq name)" "storeless (redirect_to u)" "storeless (see_other u)"
  by (simp_all add: storeless_def keeps_def set_cookie_def clear_cookie_def redirect_to_def see_other_def)

lemma storeless_bind_browser [storeless_intros]: "storeless (bind_browser e rq)"
  unfolding bind_browser_def by (intro storeless_intros)

lemma storeless_take_notice [storeless_intros]: "storeless (take_notice e rq)"
  unfolding take_notice_def Let_def by (intro storeless_intros)

lemma storeless_render_page [storeless_intros]: "storeless (render_page e status p back)"
  by (rule storelessI) (auto simp: render_page_run Let_def)

lemma storeless_cannot_start [storeless_intros]: "storeless (cannot_start e rq status p next)"
  unfolding cannot_start_def by (intro storeless_intros)

text \<open>A page is answered in words it has, and only to a caller that asked for one.\<close>

lemma page_language_supported: "supported (page_language e rq locales)"
  by (simp add: page_language_def choose_words_supported)

lemma values_of_set_if [simp]:
  "values_of (set_if k v q) j = (if v \<noteq> [] \<and> j = k then [v] else values_of q j)"
  by (simp add: set_if_def)

lemma distinct_set_if [simp]: "distinct (map fst q) \<Longrightarrow> distinct (map fst (set_if k v q))"
  by (simp add: set_if_def)

text \<open>
  C24. A client's answer comes back to the very address it registered: the code, the state and this
  server's name are added to its query, in place of any of that name, and nothing else of the address
  changes. What is added reads back byte for byte, whatever characters it holds.
\<close>

theorem code_return_reads_back:
  assumes "parse_url uri = Some u"
  shows "\<exists>q. append_code_state uri iss code state = url_string (u\<lparr>u_query := q\<rparr>)
     \<and> values_of (parse_query q) ''code'' = [code] \<and> values_of (parse_query q) ''iss'' = [iss]
     \<and> values_of (parse_query q) ''state'' = (if state \<noteq> [] then [state] else values_of (parse_query (u_query u)) ''state'')
     \<and> (\<forall>k. k \<notin> {''code'', ''iss'', ''state''} \<longrightarrow> values_of (parse_query q) k = values_of (parse_query (u_query u)) k)"
  by (rule exI[of _ "values_encode (values_set ''iss'' iss (set_if ''state'' state (values_set ''code'' code (parse_query (u_query u)))))"])
    (simp add: append_code_state_def with_query_def assms parse_values_encode)

theorem code_return_reads_back_witness:
  "\<exists>q u. parse_url ''https://shop.test/cb?keep=1'' = Some u
     \<and> append_code_state ''https://shop.test/cb?keep=1'' ''https://auth.test'' ''a b&c'' ''s'' = url_string (u\<lparr>u_query := q\<rparr>)
     \<and> values_of (parse_query q) ''code'' = [''a b&c'']"
proof -
  have "parse_url ''https://shop.test/cb?keep=1'' \<noteq> None" by code_simp
  then obtain u where u: "parse_url ''https://shop.test/cb?keep=1'' = Some u" by auto
  from code_return_reads_back[OF u, of "''https://auth.test''" "''a b&c''" "''s''"] u show ?thesis by blast
qed

lemma code_return_on_example:
  "append_code_state ''https://shop.test/cb?keep=1'' ''https://auth.test'' ''a b&c'' ''s''
     = ''https://shop.test/cb?code=a+b%26c&iss=https%3A%2F%2Fauth.test&keep=1&state=s''"
  by code_simp

end
