(* ===== verification/Authorize_Request.thy ===== *)
theory Authorize_Request
  imports Browser
begin

text \<open>
  Reading an authorization request (\<open>readAuthorize\<close> of \<open>src/routes/authorize.go\<close>, with \<open>params.go\<close>,
  \<open>oidc.go\<close>, \<open>requested_method.go\<close>, \<open>helpers.go\<close> and \<open>readAIAppAsk\<close> of \<open>aiapp.go\<close>): which client and which
  of its addresses it names, what it asks of the sign-in and of an ID token, and which ways it may use.

  A request that names no client or address this service knows gets the page that says so. Any other
  refusal is answered at the client's own address. Nothing is stored before the request is read.
\<close>

section \<open>Parameters\<close>

definition args_params :: "(string \<times> string) list \<Rightarrow> url_values" where
  "args_params ps = collect_values ps"

definition query_params :: "request \<Rightarrow> url_values" where
  "query_params rq = args_params (rq_query rq)"

definition request_params :: "request \<Rightarrow> url_values" where
  "request_params rq = (if rq_method rq = ''POST'' then args_params (rq_post rq) else query_params rq)"

definition param_opt :: "url_values \<Rightarrow> string \<Rightarrow> string option" where
  "param_opt p k = (if values_get p k = [] then None else Some (values_get p k))"

text \<open>\<open>strconv.ParseInt\<close> in base ten, at 64 bits.\<close>

definition parse_int64 :: "string \<Rightarrow> int option" where
  "parse_int64 s =
     (let neg = has_prefix s ''-''; d = (if neg \<or> has_prefix s ''+'' then tl s else s);
          n = (if neg then - int (dec_value d) else int (dec_value d)) in
      if d = [] \<or> \<not> list_all dec_digit d \<or> n < - (2 ^ 63) \<or> 2 ^ 63 \<le> n then None else Some n)"

section \<open>What a request asks\<close>

type_synonym auth_error = "string \<times> string"

definition scope_openid :: string where "scope_openid = ''openid''"
definition scope_offline_access :: string where "scope_offline_access = ''offline_access''"
definition max_nonce_len :: nat where "max_nonce_len = 512"
definition auth_time_skew :: duration where "auth_time_skew = 30 * second"

record id_ask =
  ia_openid :: bool
  ia_nonce :: string

record sign_ask =
  sa_forced :: bool
  sa_login :: bool
  sa_none :: bool
  sa_select_account :: bool
  sa_max_age :: "int option"
  sa_ui_locales :: string

definition s256_challenge :: "url_values \<Rightarrow> string option" where
  "s256_challenge p =
     (if param_opt p ''code_challenge'' = None \<or> param_opt p ''code_challenge_method'' \<noteq> Some pkce_s256 then None
      else param_opt p ''code_challenge'')"

definition read_id_ask :: "url_values \<Rightarrow> auth_error + id_ask" where
  "read_id_ask p =
     (let openid = (case param_opt p ''scope'' of Some s \<Rightarrow> scope_openid \<in> set (space_fields s) | None \<Rightarrow> False) in
      case param_opt p ''nonce'' of
        None \<Rightarrow> Inr \<lparr>ia_openid = openid, ia_nonce = []\<rparr>
      | Some n \<Rightarrow>
          if max_nonce_len < length n then Inl (''invalid_request'', ''nonce is longer than 512 characters'')
          else Inr \<lparr>ia_openid = openid, ia_nonce = n\<rparr>)"

definition read_max_age :: "url_values \<Rightarrow> auth_error + int option" where
  "read_max_age p =
     (case param_opt p ''max_age'' of
        None \<Rightarrow> Inr None
      | Some v \<Rightarrow>
          (case parse_int64 v of
             None \<Rightarrow> Inl (''invalid_request'', ''max_age must be a whole number of seconds'')
           | Some age \<Rightarrow>
               if age < 0 then Inl (''invalid_request'', ''max_age must be a whole number of seconds'') else Inr (Some age)))"

definition read_sign_ask :: "url_values \<Rightarrow> auth_error + sign_ask" where
  "read_sign_ask p =
     (if param_opt p ''request'' \<noteq> None then Inl (''request_not_supported'', ''request objects are not supported'')
      else if param_opt p ''request_uri'' \<noteq> None then Inl (''request_uri_not_supported'', ''request objects are not supported'')
      else if param_opt p ''id_token_hint'' \<noteq> None then Inl (''invalid_request'', ''id_token_hint is not supported'')
      else (case read_max_age p of
          Inl err \<Rightarrow> Inl err
        | Inr age \<Rightarrow>
            let values = (case param_opt p ''prompt'' of Some v \<Rightarrow> space_fields v | None \<Rightarrow> []) in
            if ''none'' \<in> set values \<and> 1 < length values
              then Inl (''invalid_request'', ''prompt none cannot be combined with another value'')
            else if ''consent'' \<in> set values then Inl (''consent_required'', ''this server shows no consent page'')
            else Inr \<lparr>sa_forced = (age \<noteq> None \<or> ''login'' \<in> set values), sa_login = (''login'' \<in> set values),
              sa_none = (''none'' \<in> set values), sa_select_account = (''select_account'' \<in> set values), sa_max_age = age,
              sa_ui_locales = (case param_opt p ''ui_locales'' of Some l \<Rightarrow> l | None \<Rightarrow> [])\<rparr>))"

definition upstream_prompt :: "sign_ask \<Rightarrow> string" where
  "upstream_prompt a = (if sa_forced a then ''login'' else if sa_select_account a then ''select_account'' else [])"

definition upstream_acr :: "(string \<Rightarrow> string) \<Rightarrow> string list \<Rightarrow> string" where
  "upstream_acr f ms = join '' '' (filter (\<lambda>c. c \<noteq> []) (map f ms))"

definition requested_methods :: "(string \<Rightarrow> bool) \<Rightarrow> string \<Rightarrow> string list option" where
  "requested_methods offered acr =
     (if list_all offered (space_fields acr) then Some (dedup_onto [] (space_fields acr)) else None)"

definition method_requested :: "string list \<Rightarrow> string \<Rightarrow> bool" where
  "method_requested requested m \<longleftrightarrow> requested = [] \<or> m \<in> set requested"

text \<open>What an AI app asks beyond any other: its one resource, and boxes from its row.\<close>

definition app_boxes :: "url_values \<Rightarrow> string list" where
  "app_boxes p = filter (\<lambda>s. s \<noteq> scope_openid \<and> s \<noteq> scope_offline_access) (parse_scope_string (values_get p ''scope''))"

definition read_app_ask :: "sign_in_client \<Rightarrow> url_values \<Rightarrow> auth_error + string list" where
  "read_app_ask app p =
     (let resources = values_of p ''resource'' in
      if length resources \<noteq> 1 \<or> \<not> same_resource (si_audience app) (resources ! 0)
        then Inl (''invalid_target'', ''resource must name the one resource this app may ask for'')
      else if list_ex (\<lambda>s. s \<notin> set (si_scopes app)) (app_boxes p)
        then Inl (''invalid_scope'', ''scope names a box this app may not ask for'')
      else let asked = dedup_onto [] (app_boxes p) in Inr (if asked = [] then si_scopes app else asked))"

section \<open>The ways a client may use\<close>

definition can_start :: "'c env \<Rightarrow> string \<Rightarrow> bool" where
  "can_start e m \<longleftrightarrow> by_method (en_upstreams e) m \<noteq> None \<or> m = login_webeid \<and> en_card e \<noteq> None"

definition offered :: "'c env \<Rightarrow> sign_in_client \<Rightarrow> string list" where
  "offered e c = dedup_onto [] (filter (can_start e) (si_methods c))"

text \<open>The one provider of every one of the methods, entries told apart by their names.\<close>

fun provider_from :: "up_entry list \<Rightarrow> up_entry option \<Rightarrow> string list \<Rightarrow> up_entry option" where
  "provider_from es found [] = found"
| "provider_from es found (m # ms) =
     (case by_method es m of
        None \<Rightarrow> None
      | Some u \<Rightarrow>
          (case found of
             Some v \<Rightarrow> if ue_name u \<noteq> ue_name v then None else provider_from es (Some u) ms
           | None \<Rightarrow> provider_from es (Some u) ms))"

definition provider_of :: "'c env \<Rightarrow> string list \<Rightarrow> up_entry option" where
  "provider_of e ms = provider_from (en_upstreams e) None ms"

section \<open>A request that passed every check\<close>

record authorize_request =
  ar_params :: url_values
  ar_redirect_uri :: string
  ar_client_id :: string
  ar_spa_state :: string
  ar_challenge :: string
  ar_method :: string
  ar_id_ask :: id_ask
  ar_sign_ask :: sign_ask
  ar_named :: "string list"
  ar_tenant :: string
  ar_client :: sign_in_client
  ar_app_scopes :: "string list"

definition page_ways :: "'c env \<Rightarrow> authorize_request \<Rightarrow> string list \<Rightarrow> string list option" where
  "page_ways e req offers =
     (if ar_named req = [] then Some offers
      else if login_webeid \<in> set (ar_named req) \<or> provider_of e (ar_named req) = None then Some (ar_named req)
      else None)"

definition refuse_at_client :: "'c env \<Rightarrow> string \<Rightarrow> string \<Rightarrow> auth_error \<Rightarrow> ('c, 'a) handler" where
  "refuse_at_client e uri state err = redirect_to (append_error_state uri (issuer_id e) (fst err) (snd err) state)"

definition read_authorize :: "'c env \<Rightarrow> request \<Rightarrow> url_values \<Rightarrow> ('c, authorize_request) handler" where
  "read_authorize e rq p =
     (let next = (if rq_method rq = ''GET'' \<and> has_prefix (rq_path rq) ''/authorize'' then ''/authorize?'' @ values_encode p else []);
          uri = values_get p ''redirect_uri''; cid = values_get p ''client_id''; state = values_get p ''state'' in
      if param_opt p ''response_type'' \<noteq> Some ''code'' then cannot_start e rq 400 (Param_Invalid ''response_type'') next
      else if uri = [] then cannot_start e rq 400 (Param_Required ''redirect_uri'') next
      else if cid = [] then cannot_start e rq 400 (Param_Required ''client_id'') next
      else (case sign_in_client_of (en_registry e) cid of
          None \<Rightarrow> cannot_start e rq 400 (Param_Invalid ''redirect_uri'') next
        | Some c \<Rightarrow>
            if validate_redirect_uri (en_registry e) cid uri \<noteq> None then cannot_start e rq 400 (Param_Invalid ''redirect_uri'') next
            else
              andthen (from_option (s256_challenge p) (refuse_at_client e uri state
                 (''invalid_request'', ''code_challenge with code_challenge_method S256 required''))) (\<lambda>challenge.
              andthen (from_sum (read_id_ask p) (refuse_at_client e uri state)) (\<lambda>ida.
              andthen (from_sum (read_sign_ask p) (refuse_at_client e uri state)) (\<lambda>sa.
              andthen (if si_kind c = kind_ai_app then from_sum (read_app_ask c p) (refuse_at_client e uri state) else ret []) (\<lambda>boxes.
              andthen (from_option (requested_methods (\<lambda>m. m \<in> set (offered e c)) (values_get p ''acr_values''))
                 (refuse_at_client e uri state (''unmet_authentication_requirements'',
                    ''acr_values names no login method this client may use here''))) (\<lambda>named.
              ret \<lparr>ar_params = p, ar_redirect_uri = uri, ar_client_id = cid, ar_spa_state = state, ar_challenge = challenge,
                ar_method = pkce_s256, ar_id_ask = ida, ar_sign_ask = sa, ar_named = named,
                ar_tenant = (if si_kind c = kind_ai_app then [] else values_get p ''tenant''),
                ar_client = c, ar_app_scopes = boxes\<rparr>)))))))"

definition new_flow :: "'c env \<Rightarrow> authorize_request \<Rightarrow> string list \<Rightarrow> string \<Rightarrow> bool \<Rightarrow> flow" where
  "new_flow e req ms binding from_page =
     empty_flow\<lparr>f_code_challenge := ar_challenge req, f_code_challenge_method := ar_method req,
       f_app_redirect_uri := ar_redirect_uri req, f_spa_state := ar_spa_state req, f_client_id := ar_client_id req,
       f_tenant := ar_tenant req, f_requested_methods := ms, f_openid := ia_openid (ar_id_ask req),
       f_client_nonce := ia_nonce (ar_id_ask req), f_forced_login := sa_forced (ar_sign_ask req),
       f_max_age := sa_max_age (ar_sign_ask req), f_started := unix (en_now e),
       f_binding := binding_hash (en_crypto e) binding, f_picker := from_page, f_app_scopes := ar_app_scopes req,
       f_request := (if from_page then values_encode (ar_params req) else [])\<rparr>"

section \<open>When the person authenticated\<close>

definition card_amr :: "string list" where
  "card_amr = [''hwk'', ''mfa'', ''pin'', ''sc'']"

definition registered_amr_values :: "string list" where
  "registered_amr_values = [''face'', ''fpt'', ''geo'', ''hwk'', ''iris'', ''kba'', ''mca'', ''mfa'', ''otp'', ''pin'',
     ''pwd'', ''rba'', ''retina'', ''sc'', ''sms'', ''swk'', ''tel'', ''user'', ''vbm'', ''wia'']"

definition registered_amr :: "string list \<Rightarrow> string list" where
  "registered_amr amr = dedup_onto [] (filter (\<lambda>v. v \<in> set registered_amr_values) amr)"

text \<open>\<open>None\<close> is an authentication older than the client allows. The arithmetic is at 64 bits: the time is
  the provider's own word and may be any 64-bit value.\<close>

definition wrap64 :: "int \<Rightarrow> int" where
  "wrap64 n = (n + 2 ^ 63) mod 2 ^ 64 - 2 ^ 63"

definition sign_in_moment :: "user_info \<Rightarrow> flow \<Rightarrow> time \<Rightarrow> int option" where
  "sign_in_moment u f now =
     (let t0 = (if 0 < ui_auth_time u then ui_auth_time u else if f_forced_login f then unix now else 0);
          skew = auth_time_skew div second in
      if f_forced_login f \<and> 0 < ui_auth_time u \<and> ui_auth_time u < wrap64 (f_started f - skew) then None
      else (case f_max_age f of
          Some age \<Rightarrow> if 0 < t0 \<and> age < wrap64 (wrap64 (unix now - t0) - skew) then None else Some t0
        | None \<Rightarrow> Some t0))"

definition stamp_sign_in :: "'c env \<Rightarrow> session \<Rightarrow> int \<Rightarrow> string list \<Rightarrow> ('c, session) handler" where
  "stamp_sign_in e sess t0 amr =
     andthen (random_token e 24) (\<lambda>sid. ret (sess\<lparr>s_auth_time := t0, s_amr := amr, s_sid := sid\<rparr>))"

section \<open>Facts\<close>

lemma refuse_at_client_Inr [act_simps]: "refuse_at_client e uri state err w = (Inr x, w') \<longleftrightarrow> False"
  by (simp add: refuse_at_client_def act_simps)

lemma storeless_refuse_at_client [storeless_intros]: "storeless (refuse_at_client e uri state err)"
  unfolding refuse_at_client_def by (intro storeless_intros)

lemma storeless_read_authorize [storeless_intros]: "storeless (read_authorize e rq p)"
  unfolding read_authorize_def Let_def
  by (auto intro!: storeless_intros split: option.splits)

lemma set_offered: "m \<in> set (offered e c) \<longleftrightarrow> m \<in> set (si_methods c) \<and> can_start e m"
  by (auto simp: offered_def)

lemma read_sign_ask_forced:
  "read_sign_ask p = Inr a \<Longrightarrow> sa_max_age a \<noteq> None \<Longrightarrow> sa_forced a"
  by (auto simp: read_sign_ask_def Let_def split: if_splits sum.splits)

lemma read_max_age_bounds: "read_max_age p = Inr (Some a) \<Longrightarrow> 0 \<le> a \<and> a < 9223372036854775808"
  by (auto simp: read_max_age_def parse_int64_def Let_def split: option.splits if_splits)

lemma read_sign_ask_max_age: "read_sign_ask p = Inr a \<Longrightarrow> sa_max_age a = Some n \<Longrightarrow> 0 \<le> n \<and> n < 9223372036854775808"
  by (auto simp: read_sign_ask_def Let_def dest: read_max_age_bounds split: if_splits sum.splits)

lemma read_sign_ask_alone: "read_sign_ask p = Inr a \<Longrightarrow> sa_none a \<Longrightarrow> \<not> sa_login a \<and> \<not> sa_select_account a"
proof -
  assume a: "read_sign_ask p = Inr a" "sa_none a"
  let ?prompts = "case param_opt p ''prompt'' of Some v \<Rightarrow> space_fields v | None \<Rightarrow> []"
  have "''none'' \<in> set ?prompts" "\<not> 1 < length ?prompts" "sa_login a \<longleftrightarrow> ''login'' \<in> set ?prompts"
    "sa_select_account a \<longleftrightarrow> ''select_account'' \<in> set ?prompts"
    using a by (auto simp: read_sign_ask_def Let_def split: if_splits sum.splits)
  then show ?thesis by (cases ?prompts) auto
qed

lemma requested_methods_Some:
  "requested_methods f acr = Some ms \<longleftrightarrow> list_all f (space_fields acr) \<and> ms = dedup_onto [] (space_fields acr)"
  by (auto simp: requested_methods_def)

lemma read_app_ask_Inr:
  "read_app_ask app p = Inr boxes \<Longrightarrow> set boxes \<subseteq> set (si_scopes app)
     \<and> (\<exists>r. values_of p ''resource'' = [r] \<and> same_resource (si_audience app) r)"
  by (auto simp: read_app_ask_def Let_def list_ex_iff length_Suc_conv split: if_splits)

lemmas authorize_request_fields = authorize_request.select_convs

text \<open>What a request that passed every check carries.\<close>

definition request_checked :: "'c env \<Rightarrow> url_values \<Rightarrow> authorize_request \<Rightarrow> bool" where
  "request_checked e p req \<longleftrightarrow>
     sign_in_client_of (en_registry e) (ar_client_id req) = Some (ar_client req)
     \<and> ar_redirect_uri req \<in> set (si_redirect_uris (ar_client req))
     \<and> ar_method req = pkce_s256 \<and> ar_challenge req \<noteq> [] \<and> ar_params req = p
     \<and> length (ia_nonce (ar_id_ask req)) \<le> max_nonce_len
     \<and> (\<forall>m\<in>set (ar_named req). m \<in> set (si_methods (ar_client req)) \<and> can_start e m) \<and> distinct (ar_named req)
     \<and> read_sign_ask p = Inr (ar_sign_ask req)
     \<and> (si_kind (ar_client req) = kind_ai_app \<longrightarrow> ar_tenant req = [] \<and> set (ar_app_scopes req) \<subseteq> set (si_scopes (ar_client req))
          \<and> (\<exists>r. values_of p ''resource'' = [r] \<and> same_resource (si_audience (ar_client req)) r))"

lemma read_id_ask_bound: "read_id_ask p = Inr a \<Longrightarrow> length (ia_nonce a) \<le> max_nonce_len"
  by (auto simp: read_id_ask_def Let_def split: option.splits if_splits)

lemma s256_some: "s256_challenge p = Some c \<Longrightarrow> c \<noteq> []"
  by (auto simp: s256_challenge_def param_opt_def split: if_splits)

lemma read_authorize_Inr:
  assumes "read_authorize e rq p w = (Inr req, w')"
  shows "request_checked e p req \<and> w' = w"
proof -
  obtain c where c: "sign_in_client_of (en_registry e) (values_get p ''client_id'') = Some c"
    "validate_redirect_uri (en_registry e) (values_get p ''client_id'') (values_get p ''redirect_uri'') = None"
    using assms by (auto simp: read_authorize_def Let_def act_simps split: if_splits option.splits)
  then have uri: "values_get p ''redirect_uri'' \<in> set (si_redirect_uris c)"
    by (simp add: validate_redirect_uri_def)
  show ?thesis
    using assms c uri
    by (auto simp: read_authorize_def Let_def act_simps request_checked_def requested_methods_Some list_all_iff set_offered
        split: if_splits dest: read_id_ask_bound s256_some read_app_ask_Inr read_app_ask_Inr[THEN conjunct1, THEN subsetD])
qed

text \<open>A refusal is the cannot-start page or problem, or is answered at an address the client registered.\<close>

definition refused_safely :: "'c env \<Rightarrow> reply \<Rightarrow> bool" where
  "refused_safely e r \<longleftrightarrow>
     (\<exists>p. r = Refused p) \<or> (\<exists>pg. r = Page 400 pg \<and> pg_kind pg = Cannot_Start_Page)
     \<or> (\<exists>c uri err state. r = Redirect 302 (append_error_state uri (issuer_id e) (fst err) (snd err) state)
          \<and> c \<in> set (enabled_sign_ins (en_registry e)) \<and> uri \<in> set (si_redirect_uris c))"

lemma cannot_start_Inl:
  "cannot_start e rq status p next w = (Inl r, w') \<Longrightarrow> (\<exists>q. r = Refused q) \<or> (\<exists>pg. r = Page status pg \<and> pg_kind pg = Cannot_Start_Page)"
  by (auto simp: cannot_start_def refuse_def andthen_Inl render_page_run Let_def bare_page_def split: if_splits)

lemma from_sum_Inl: "from_sum r h s = (Inl x, t) \<longleftrightarrow> (\<exists>e. r = Inl e \<and> h e s = (Inl x, t))"
  by (cases r) (auto simp: from_sum_def)

lemma from_option_Inl: "from_option m h s = (Inl x, t) \<longleftrightarrow> m = None \<and> h s = (Inl x, t)"
  by (cases m) (auto simp: from_option_def)

lemma refuse_at_client_Inl:
  "refuse_at_client e uri state err w = (Inl r, w') \<longleftrightarrow>
     r = Redirect 302 (append_error_state uri (issuer_id e) (fst err) (snd err) state) \<and> w' = w"
  by (auto simp: refuse_at_client_def redirect_to_def)

lemma enabled_row: "sign_in_client_of r cid = Some c \<Longrightarrow> c \<in> set (enabled_sign_ins r)"
  by (force simp: sign_in_client_of_def enabled_sign_ins_def split: option.splits if_splits dest: map_of_SomeD)

lemma read_authorize_Inl:
  assumes "read_authorize e rq p w = (Inl r, w')"
  shows "refused_safely e r"
proof (cases "\<exists>nx q. cannot_start e rq 400 q nx w = (Inl r :: reply + authorize_request, w')")
  case True
  then show ?thesis by (auto simp: refused_safely_def dest: cannot_start_Inl)
next
  case False
  then have no_page: "cannot_start e rq 400 q nx w = (Inl r :: reply + authorize_request, w') \<longleftrightarrow> False" for nx q by blast
  obtain c where c: "sign_in_client_of (en_registry e) (values_get p ''client_id'') = Some c"
    "validate_redirect_uri (en_registry e) (values_get p ''client_id'') (values_get p ''redirect_uri'') = None"
    using assms no_page by (auto simp: read_authorize_def Let_def split: if_splits option.splits)
  have "\<exists>err. r = Redirect 302 (append_error_state (values_get p ''redirect_uri'') (issuer_id e) (fst err) (snd err) (values_get p ''state''))"
    using assms no_page c
    by (auto simp: read_authorize_def Let_def andthen_Inl from_sum_Inl from_option_Inl refuse_at_client_Inl split: if_splits)
  moreover have "values_get p ''redirect_uri'' \<in> set (si_redirect_uris c)"
    using c by (simp add: validate_redirect_uri_def)
  ultimately show ?thesis unfolding refused_safely_def using enabled_row[OF c(1)] by blast
qed


definition example_request :: "(string \<times> string) list" where
  "example_request = [(''response_type'', ''code''), (''client_id'', ''shop-app''), (''redirect_uri'', ''https://shop.test/cb''),
     (''code_challenge'', ''cc''), (''code_challenge_method'', ''S256''), (''scope'', ''openid''), (''state'', ''st''),
     (''max_age'', ''60''), (''acr_values'', ''eidScan'')]"

definition get_form :: "(string \<times> string) list \<Rightarrow> request" where
  "get_form q = (post_form [] [])\<lparr>rq_method := ''GET'', rq_path := ''/authorize'', rq_query := q\<rparr>"

lemma example_reads:
  "\<exists>req. read_authorize staff_env (get_form example_request) (query_params (get_form example_request)) (example_world [])
     = (Inr req, example_world []) \<and> ar_named req = [''eidScan''] \<and> sa_max_age (ar_sign_ask req) = Some 60"
proof -
  have "case fst (read_authorize staff_env (get_form example_request) (query_params (get_form example_request)) (example_world [])) of
      Inr req \<Rightarrow> ar_named req = [''eidScan''] \<and> sa_max_age (ar_sign_ask req) = Some 60 | _ \<Rightarrow> False"
    by code_simp
  then obtain req where "fst (read_authorize staff_env (get_form example_request) (query_params (get_form example_request)) (example_world [])) = Inr req"
    "ar_named req = [''eidScan'']" "sa_max_age (ar_sign_ask req) = Some 60"
    by (auto split: sum.splits)
  with read_authorize_Inr[OF ran[OF this(1)]] show ?thesis by (metis ran)
qed


section \<open>How old an authentication may be\<close>

definition example_answer :: user_info where
  "example_answer = \<lparr>ui_subject = ''u1'', ui_acr = [], ui_amr = [''pin''], ui_given_name = [], ui_family_name = [], ui_name = [],
     ui_serial_number = [], ui_email = [], ui_sign_identities = None, ui_issuer = [], ui_directory_id = [],
     ui_directory_guest = False, ui_auth_time = 1700000030\<rparr>"

lemma wrap64_id: "- (2 ^ 63) \<le> n \<Longrightarrow> n < 2 ^ 63 \<Longrightarrow> wrap64 n = n"
  by (simp add: wrap64_def)

lemma wrap64_below: "- (2 ^ 64) \<le> n \<Longrightarrow> n < 2 ^ 63 \<Longrightarrow> n \<le> wrap64 n"
proof (cases "- (2 ^ 63) \<le> n")
  case False
  assume n: "- (2 ^ 64) \<le> n" "n < 2 ^ 63"
  have "- (2 ^ 63) \<le> wrap64 n" by (simp add: wrap64_def)
  with False show ?thesis by simp
qed (simp add: wrap64_id)

text \<open>
  C26. A sign-in with a client's \<open>max_age\<close> is never answered with an older authentication: for a request
  read here, the moment recorded is known, and lies at most the age asked for, with half a minute's
  leeway, before now. It is the provider's own time, no earlier than the request, or the moment of this
  completion.
\<close>

theorem authentication_never_too_old:
  assumes req: "request_checked e p req" and age: "sa_max_age (ar_sign_ask req) = Some age"
    and flow: "f = new_flow e req ms binding from_page"
    and now: "0 < unix now" "unix now < 2 ^ 63" and start: "0 \<le> unix (en_now e)" "unix (en_now e) < 2 ^ 63"
    and provider: "ui_auth_time u < 2 ^ 63"
    and m: "sign_in_moment u f now = Some t"
  shows "0 < t \<and> unix now - t \<le> age + 30
     \<and> (t = unix now \<or> t = ui_auth_time u \<and> unix (en_now e) - 30 \<le> t)"
proof -
  have forced: "f_forced_login f" "f_max_age f = Some age" "f_started f = unix (en_now e)"
    using req age read_sign_ask_forced[of p "ar_sign_ask req"] unfolding flow request_checked_def
    by (simp_all add: new_flow_def)
  have skew: "auth_time_skew div second = 30" by (simp add: auth_time_skew_def second_def)
  have t: "t = (if 0 < ui_auth_time u then ui_auth_time u else unix now)"
    using m forced by (auto simp: sign_in_moment_def Let_def split: if_splits)
  then have pos: "0 < t" "t < 2 ^ 63" using now provider by auto
  have started: "unix (en_now e) - 30 \<le> ui_auth_time u" if "0 < ui_auth_time u"
  proof -
    have "\<not> ui_auth_time u < wrap64 (unix (en_now e) - 30)"
      using m forced that skew by (auto simp: sign_in_moment_def Let_def split: if_splits)
    moreover have "wrap64 (unix (en_now e) - 30) = unix (en_now e) - 30" using start by (intro wrap64_id) simp_all
    ultimately show ?thesis by simp
  qed
  have "\<not> age < wrap64 (wrap64 (unix now - t) - 30)"
    using m forced skew t pos by (auto simp: sign_in_moment_def Let_def split: if_splits)
  moreover have "wrap64 (unix now - t) = unix now - t" using now pos by (intro wrap64_id) simp_all
  moreover have "unix now - t - 30 \<le> wrap64 (unix now - t - 30)" using now pos by (intro wrap64_below) simp_all
  ultimately have "unix now - t \<le> age + 30" by simp
  with pos t started show ?thesis by (auto split: if_splits)
qed

theorem authentication_never_too_old_witness:
  "\<exists>req f t. f = new_flow staff_env req [''eidScan''] ''b'' False \<and> sa_max_age (ar_sign_ask req) = Some 60
     \<and> sign_in_moment example_answer f (of_unix 1700000100) = Some t \<and> 1700000100 - t \<le> 90"
proof -
  let ?p = "query_params (get_form example_request)"
  obtain req where run: "read_authorize staff_env (get_form example_request) ?p (example_world []) = (Inr req, example_world [])"
    and age: "sa_max_age (ar_sign_ask req) = Some 60"
    using example_reads by blast
  define f where "f = new_flow staff_env req [''eidScan''] ''b'' False"
  have req: "request_checked staff_env ?p req" using read_authorize_Inr[OF run] by blast
  have now: "unix (en_now staff_env) = 1700000000" by (simp add: example_defs example_now_def)
  have "f_forced_login f" using req age read_sign_ask_forced[of ?p "ar_sign_ask req"] by (simp add: f_def new_flow_def request_checked_def)
  then have m: "sign_in_moment example_answer f (of_unix 1700000100) = Some 1700000030"
    using age now by (simp add: sign_in_moment_def f_def new_flow_def example_answer_def wrap64_def auth_time_skew_def second_def)
  have "unix (of_unix 1700000100) - 1700000030 \<le> 60 + 30"
    using authentication_never_too_old[OF req age f_def _ _ _ _ _ m] now by (simp add: example_answer_def)
  with m age f_def show ?thesis by (intro exI[of _ req] exI[of _ f] exI[of _ 1700000030]) simp
qed

end
