(* ===== verification/Shared_Session.thy ===== *)
theory Shared_Session
  imports Authorize_Request App_Grant
begin

text \<open>
  The browser's shared session (\<open>src/routes/shared.go\<close>): one sign-in answers for every app of the browser,
  and one sign-out ends them all; with the two endpoints that sign out, the browser's \<open>/logout\<close>
  (\<open>logout.go\<close>) and the client's \<open>/revoke\<close> (\<open>refresh.go\<close>).
\<close>

section \<open>The browser's shared session\<close>

definition shared_cookie :: string where "shared_cookie = ''authbyte_sso''"
definition shared_id_bytes :: nat where "shared_id_bytes = 16"
definition shared_secret_bytes :: nat where "shared_secret_bytes = 32"

definition refused_way :: string where "refused_way = ''way''"
definition refused_age :: string where "refused_age = ''age''"
definition refused_identity :: string where "refused_identity = ''identity''"
definition refused_membership :: string where "refused_membership = ''membership''"
definition refused_register :: string where "refused_register = ''register''"
definition ended_another_person :: string where "ended_another_person = ''another person''"
definition ended_sign_out :: string where "ended_sign_out = ''sign-out''"

definition shared_secret_hash :: "crypto \<Rightarrow> string \<Rightarrow> string" where
  "shared_secret_hash cr secret = labelled_hash cr ''authbyte shared session'' secret"

definition browser_shared :: "'c env \<Rightarrow> request \<Rightarrow> ('c, (string \<times> shared) option) handler" where
  "browser_shared e rq =
     (let v = read_cookie e rq shared_cookie in
      if v = [] then ret None
      else (case cut (CHR ''.'') v of (i, secret, ok) \<Rightarrow>
        if \<not> ok \<or> length i \<noteq> raw_url_len shared_id_bytes \<or> length secret \<noteq> raw_url_len shared_secret_bytes
          then andthen (clear_cookie e rq shared_cookie) (\<lambda>_. ret None)
        else
          andthen (attempt (stored e (op_load_shared (en_ops e) i))) (\<lambda>r.
          case r of
            Inl err \<Rightarrow> if err = Not_Found then andthen (clear_cookie e rq shared_cookie) (\<lambda>_. ret None) else ret None
          | Inr sh \<Rightarrow>
              if shared_secret_hash (en_crypto e) secret \<noteq> sh_secret_hash sh \<or> shared_expired sh (en_now e)
              then andthen (clear_cookie e rq shared_cookie) (\<lambda>_. ret None)
              else ret (Some (i, sh)))))"

text \<open>The latest way that fits, and whether one fitted but for its age.\<close>

fun pick_way :: "(way \<Rightarrow> bool) \<Rightarrow> (way \<Rightarrow> bool) \<Rightarrow> bool \<Rightarrow> way list \<Rightarrow> way option \<times> bool" where
  "pick_way fits old seen [] = (None, seen)"
| "pick_way fits old seen (w # ws) =
     (if \<not> fits w then pick_way fits old seen ws
      else if old w then pick_way fits old True ws
      else (Some w, seen))"

definition way_fits :: "'c env \<Rightarrow> authorize_request \<Rightarrow> way \<Rightarrow> bool" where
  "way_fits e req w \<longleftrightarrow> en_now e < w_ends w \<and> w_method w \<in> set (offered e (ar_client req))
     \<and> (ar_named req = [] \<or> w_method w \<in> set (ar_named req))"

definition way_too_old :: "'c env \<Rightarrow> sign_ask \<Rightarrow> way \<Rightarrow> bool" where
  "way_too_old e ask w \<longleftrightarrow>
     (case sa_max_age ask of None \<Rightarrow> False | Some n \<Rightarrow> w_auth_time w = 0 \<or> n < unix (en_now e) - w_auth_time w)"

definition shared_way :: "'c env \<Rightarrow> authorize_request \<Rightarrow> shared \<Rightarrow> ('c, way option \<times> string) handler" where
  "shared_way e req sh =
     (let ask = ar_sign_ask req in
      if \<not> si_single_sign_on (ar_client req) \<or> sa_login ask \<or> sa_select_account ask \<or> sa_max_age ask = Some 0 then ret (None, [])
      else (case pick_way (way_fits e req) (way_too_old e ask) False (rev (sh_ways sh)) of
          (None, seen) \<Rightarrow> ret (None, if seen then refused_age else refused_way)
        | (Some way, _) \<Rightarrow>
            if claim_serial_number \<in> set (si_claims (ar_client req)) \<and> sh_serial_number sh = [] then ret (None, refused_identity)
            else (case en_register e of
                None \<Rightarrow> ret (Some way, [])
              | Some rb \<Rightarrow>
                  if \<not> membership_required (en_registry e) (ar_client_id req) True then ret (Some way, [])
                  else
                    andthen (attempt (memberships e rb (person_key (sh_subject sh)))) (\<lambda>r.
                    ret (case r of Inl err \<Rightarrow> (None, refused_register)
                         | Inr ms \<Rightarrow> if ms = [] then (None, refused_membership) else (Some way, []))))))"

section \<open>The app sessions under a shared session\<close>

definition end_its_grant :: "'c env \<Rightarrow> store_error + session \<Rightarrow> ('c, unit) handler" where
  "end_its_grant e r =
     (case r of
        Inr sess \<Rightarrow>
          if s_refresh_key sess \<noteq> []
          then andthen (attempt (stored e (op_delete_refresh (en_ops e) (s_refresh_key sess)))) (\<lambda>_. ret ()) else ret ()
      | Inl _ \<Rightarrow> ret ())"

definition end_app_session :: "'c env \<Rightarrow> string \<Rightarrow> ('c, unit) handler" where
  "end_app_session e sid =
     andthen (attempt (stored e (op_load_session (en_ops e) sid))) (\<lambda>r.
     andthen (end_its_grant e r) (\<lambda>_.
     andthen (attempt (stored e (op_delete_session (en_ops e) sid))) (\<lambda>_. ret ())))"

fun end_app_sessions :: "'c env \<Rightarrow> string list \<Rightarrow> ('c, unit) handler" where
  "end_app_sessions e [] = ret ()"
| "end_app_sessions e (sid # sids) = andthen (end_app_session e sid) (\<lambda>_. end_app_sessions e sids)"

definition end_shared :: "'c env \<Rightarrow> string \<Rightarrow> string \<Rightarrow> string \<Rightarrow> ('c, unit) handler" where
  "end_shared e i subject reason =
     (if i = [] then ret ()
      else
        andthen (attempt (stored e (op_end_shared (en_ops e) i))) (\<lambda>r.
        case r of
          Inl _ \<Rightarrow> ret ()
        | Inr apps \<Rightarrow>
            andthen (end_app_sessions e (map snd apps)) (\<lambda>_.
            record_event (Shared_Session_Ended subject reason (length apps)))))"

definition add_shared_app :: "'c env \<Rightarrow> string \<Rightarrow> time \<Rightarrow> string \<Rightarrow> string \<Rightarrow> ('c, bool) handler" where
  "add_shared_app e i till client sid =
     andthen (attempt (stored e (op_put_shared_app (en_ops e) i client sid till))) (\<lambda>r.
     case r of
       Inl _ \<Rightarrow> ret False
     | Inr previous \<Rightarrow>
         andthen (if previous \<noteq> [] \<and> previous \<noteq> sid then end_app_session e previous else ret ()) (\<lambda>_. ret True))"

definition shared_live :: "'c env \<Rightarrow> string \<Rightarrow> ('c, bool) handler" where
  "shared_live e i = andthen (attempt (stored e (op_load_shared (en_ops e) i))) (\<lambda>r. ret (case r of Inr _ \<Rightarrow> True | Inl _ \<Rightarrow> False))"

section \<open>Answering without a page\<close>

definition shared_app_session :: "shared \<Rightarrow> way \<Rightarrow> string \<Rightarrow> session" where
  "shared_app_session sh way i =
     empty_session\<lparr>s_subject := sh_subject sh, s_name := sh_name sh, s_given_name := sh_given_name sh,
       s_family_name := sh_family_name sh, s_serial_number := sh_serial_number sh, s_loa := w_loa way,
       s_login_method := w_method way, s_directory_issuer := sh_directory_issuer sh,
       s_directory_guest := sh_directory_guest sh, s_shared := i\<rparr>"

definition request_code :: "authorize_request \<Rightarrow> string \<Rightarrow> app_code" where
  "request_code req sid =
     \<lparr>ac_session_id = sid, ac_code_challenge = ar_challenge req, ac_code_challenge_method = ar_method req,
      ac_client_id = ar_client_id req, ac_redirect_uri = ar_redirect_uri req, ac_tenant = ar_tenant req,
      ac_openid = ia_openid (ar_id_ask req), ac_nonce = ia_nonce (ar_id_ask req), ac_assistant = [], ac_app_scopes = []\<rparr>"

definition code_redirect :: "'c env \<Rightarrow> request \<Rightarrow> string \<Rightarrow> string \<Rightarrow> string \<Rightarrow> ('c, 'a) handler" where
  "code_redirect e rq uri code state =
     (let target = append_code_state uri (issuer_id e) code state in
      if rq_method rq = ''POST'' then see_other target else redirect_to target)"

text \<open>The request goes on as without a shared session when this returns a value; else it is answered.\<close>

definition answer_from_shared :: "'c env \<Rightarrow> request \<Rightarrow> authorize_request \<Rightarrow> ('c, unit) handler" where
  "answer_from_shared e rq req =
     andthen (browser_shared e rq) (\<lambda>found.
     case found of
       None \<Rightarrow> ret ()
     | Some (i, sh) \<Rightarrow>
         andthen (shared_way e req sh) (\<lambda>(picked, why).
         case picked of
           None \<Rightarrow> if why \<noteq> [] then record_event (Shared_Session_Refused (ar_client_id req) why) else ret ()
         | Some way \<Rightarrow>
             andthen (stamp_sign_in e (shared_app_session sh way i) (w_auth_time way) (w_amr way)) (\<lambda>sess.
             andthen (random_token e 24) (\<lambda>sid.
             andthen (recover (stored e (op_create_session (en_ops e) sid sess (time_sub (w_ends way) (en_now e)))) (\<lambda>_. refuse Internal)) (\<lambda>_.
             andthen (add_shared_app e i (sh_expires_at sh) (ar_client_id req) sid) (\<lambda>recorded.
             andthen (if recorded then shared_live e i else ret False) (\<lambda>stands.
             if \<not> stands then end_app_session e sid
             else
               andthen (random_token e 24) (\<lambda>code.
               andthen (recover (stored e (op_save_app_code (en_ops e) code (request_code req sid) app_code_ttl)) (\<lambda>_. refuse Internal)) (\<lambda>_.
               andthen (record_event (Shared_Session_Reused (sh_subject sh) (ar_client_id req) (w_method way))) (\<lambda>_.
               code_redirect e rq (ar_redirect_uri req) code (ar_spa_state req)))))))))))"

section \<open>A completed sign-in joins it\<close>

definition keep_person :: "shared \<Rightarrow> session \<Rightarrow> shared" where
  "keep_person sh sess = sh\<lparr>sh_subject := s_subject sess, sh_name := s_name sess, sh_given_name := s_given_name sess,
     sh_family_name := s_family_name sess, sh_serial_number := s_serial_number sess,
     sh_directory_issuer := s_directory_issuer sess, sh_directory_guest := s_directory_guest sess\<rparr>"

definition session_way :: "'c env \<Rightarrow> session \<Rightarrow> way" where
  "session_way e sess =
     \<lparr>w_method = s_login_method sess, w_loa = s_loa sess, w_auth_time = s_auth_time sess, w_amr = s_amr sess,
      w_signed_in = en_now e, w_ends = en_now e + cf_session_ttl (en_config e)\<rparr>"

definition shared_joined :: "'c env \<Rightarrow> request \<Rightarrow> string \<Rightarrow> string \<Rightarrow> shared \<Rightarrow> session \<Rightarrow> ('c, string \<times> time) handler" where
  "shared_joined e rq i secret sh sess =
     andthen (record_event (Shared_Session_Created (s_subject sess) (s_login_method sess))) (\<lambda>_.
     andthen (set_cookie e rq shared_cookie (i @ ''.'' @ secret) (time_sub (sh_expires_at sh) (en_now e))) (\<lambda>_.
     ret (i, sh_expires_at sh)))"

definition new_shared :: "'c env \<Rightarrow> request \<Rightarrow> string \<Rightarrow> session \<Rightarrow> ('c, string \<times> time) handler" where
  "new_shared e rq secret sess =
     andthen (random_token e shared_id_bytes) (\<lambda>i.
     let sh = keep_person (keep (session_way e sess)
       (empty_shared\<lparr>sh_secret_hash := shared_secret_hash (en_crypto e) secret\<rparr>)) sess in
     andthen (recover (stored e (op_create_shared (en_ops e) i sh)) (\<lambda>_. refuse Internal)) (\<lambda>_.
     shared_joined e rq i secret sh sess))"

definition join_shared :: "'c env \<Rightarrow> request \<Rightarrow> session \<Rightarrow> ('c, string \<times> time) handler" where
  "join_shared e rq sess =
     andthen (random_token e shared_secret_bytes) (\<lambda>secret.
     andthen (browser_shared e rq) (\<lambda>found.
     case found of
       None \<Rightarrow> new_shared e rq secret sess
     | Some (i, sh) \<Rightarrow>
         if sh_subject sh = s_subject sess then
           let sh' = keep_person (keep (session_way e sess)
             (sh\<lparr>sh_secret_hash := shared_secret_hash (en_crypto e) secret\<rparr>)) sess in
           andthen (attempt (stored e (op_replace_shared (en_ops e) i sh'))) (\<lambda>r.
           case r of
             Inr _ \<Rightarrow> shared_joined e rq i secret sh' sess
           | Inl err \<Rightarrow> if err \<noteq> Not_Found then refuse Internal else new_shared e rq secret sess)
         else andthen (end_shared e i (sh_subject sh) ended_another_person) (\<lambda>_. new_shared e rq secret sess)))"

section \<open>Signing out\<close>

definition query_string :: "request \<Rightarrow> string \<Rightarrow> string option" where
  "query_string rq k = param_opt (query_params rq) k"

definition need_query :: "request \<Rightarrow> string \<Rightarrow> ('c, string) handler" where
  "need_query rq k = from_option (query_string rq k) (refuse (Param_Required k))"

definition logout :: "'c env \<Rightarrow> request \<Rightarrow> ('c, reply) handler" where
  "logout e rq =
     andthen (need_query rq ''client_id'') (\<lambda>cid.
     andthen (need_query rq ''redirect_uri'') (\<lambda>uri.
     andthen (guard (validate_post_logout_uri (en_registry e) cid uri = None) (Param_Invalid ''redirect_uri'')) (\<lambda>_.
     andthen (browser_shared e rq) (\<lambda>found.
     andthen (case found of
         None \<Rightarrow> ret ()
       | Some (i, sh) \<Rightarrow> andthen (end_shared e i (sh_subject sh) ended_sign_out) (\<lambda>_. clear_cookie e rq shared_cookie)) (\<lambda>_.
     let m = (case query_string rq ''login_method'' of Some m \<Rightarrow> m | None \<Rightarrow> []);
         provider = (case by_method (en_upstreams e) m of
             Some u \<Rightarrow> if federated_method (ue_prov u) m then Some u else None | None \<Rightarrow> None) in
     andthen (record_event (Logout_Event [] m (provider \<noteq> None))) (\<lambda>_.
     ret (Redirect 302 (case provider of
         Some u \<Rightarrow> or_else (logout_url (ue_prov u) uri) uri
       | None \<Rightarrow> uri))))))))"

text \<open>A client ends its session: the refresh token presented, with a proof of the session's key.\<close>

definition revoke :: "'c env \<Rightarrow> request \<Rightarrow> ('c, reply) handler" where
  "revoke e rq =
     andthen (need_field rq ''token'') (\<lambda>token.
     andthen (need_field rq ''client_id'') (\<lambda>cid.
     andthen (authenticate_sign_in_request e rq cid) (\<lambda>_.
     case ai_app (en_registry e) cid of
       Some app \<Rightarrow> revoke_app e app token
     | None \<Rightarrow>
         andthen (verify_endpoint_dpop e rq []) (\<lambda>thumbprint.
         let key = refresh_key (en_crypto e) token in
         andthen (recover (stored e (op_load_refresh (en_ops e) key))
            (\<lambda>err. if err = Not_Found then stop (Status_Reply 200) else store_refusal err)) (\<lambda>g.
         andthen (guard (\<not> (rg_client g = [] \<or> rg_client g \<noteq> cid)) Unauthorized) (\<lambda>_.
         andthen (recover (stored e (op_load_session (en_ops e) (rg_session g)))
            (\<lambda>err. if err = Not_Found
               then andthen (recover (stored e (op_delete_refresh (en_ops e) key)) store_refusal) (\<lambda>_. stop (Status_Reply 200))
               else store_refusal err)) (\<lambda>sess.
         andthen (guard (\<not> (s_thumbprint sess = [] \<or> s_thumbprint sess \<noteq> thumbprint)) Unauthorized) (\<lambda>_.
         andthen (recover (stored e (op_delete_session (en_ops e) (rg_session g))) store_refusal) (\<lambda>_.
         andthen (recover (stored e (op_delete_refresh (en_ops e) key)) store_refusal) (\<lambda>_.
         andthen (end_shared e (s_shared sess) (s_subject sess) ended_sign_out) (\<lambda>_.
         andthen (record_event (Session_Ended (s_subject sess) (s_login_method sess))) (\<lambda>_.
         ret (Status_Reply 200)))))))))))))"

section \<open>What the steps answer and leave\<close>

text \<open>Steps that never stop a handler.\<close>

lemma storeless_attempt: "storeless m \<Longrightarrow> storeless (attempt m)"
  unfolding storeless_def by (rule keeps_attempt)

text \<open>Looking at a store call's answer.\<close>

lemma andthen_stored:
  "op (en_now e) (wo_store w) = (q, c) \<Longrightarrow> andthen (attempt (stored e op)) f w = f q (w\<lparr>wo_store := c\<rparr>)"
  by (simp add: andthen_def attempt_def stored_def)

named_theorems goes_on \<open>actions that never answer early\<close>

lemma goes_on_steps [goes_on]:
  "ret x w = (Inl r, t) \<longleftrightarrow> False" "attempt m w = (Inl r, t) \<longleftrightarrow> False" "record_event ev w = (Inl r, t) \<longleftrightarrow> False"
  "random_token e n w = (Inl r, t) \<longleftrightarrow> False" "set_cookie e rq k v life w = (Inl r, t) \<longleftrightarrow> False"
  "clear_cookie e rq k w = (Inl r, t) \<longleftrightarrow> False"
  by (simp_all add: record_event_def set_cookie_def clear_cookie_def)

lemma browser_shared_goes_on [goes_on]: "browser_shared e rq w = (Inl r, t) \<longleftrightarrow> False"
  by (auto simp: browser_shared_def andthen_Inl goes_on Let_def split: prod.splits sum.splits)

lemma end_its_grant_goes_on [goes_on]: "end_its_grant e q w = (Inl r, t) \<longleftrightarrow> False"
  by (auto simp: end_its_grant_def andthen_Inl goes_on split: sum.splits)

lemma end_app_session_goes_on [goes_on]: "end_app_session e sid w = (Inl r, t) \<longleftrightarrow> False"
  by (auto simp: end_app_session_def andthen_Inl goes_on split: sum.splits)

lemma end_app_sessions_go_on [goes_on]: "end_app_sessions e sids w = (Inl r, t) \<longleftrightarrow> False"
  by (induction sids arbitrary: w) (auto simp: andthen_Inl goes_on)

lemma end_shared_goes_on [goes_on]: "end_shared e i subject reason w = (Inl r, t) \<longleftrightarrow> False"
  by (auto simp: end_shared_def andthen_Inl goes_on split: sum.splits)

lemma add_shared_app_goes_on [goes_on]: "add_shared_app e i till client sid w = (Inl r, t) \<longleftrightarrow> False"
  by (auto simp: add_shared_app_def andthen_Inl goes_on split: sum.splits)

lemma shared_way_goes_on [goes_on]: "shared_way e req sh w = (Inl r, t) \<longleftrightarrow> False"
  by (auto simp: shared_way_def andthen_Inl goes_on Let_def split: prod.splits option.splits)

lemma shared_live_goes_on [goes_on]: "shared_live e i w = (Inl r, t) \<longleftrightarrow> False"
  by (auto simp: shared_live_def andthen_Inl goes_on)

lemma stamp_sign_in_goes_on [goes_on]: "stamp_sign_in e s t0 amr w = (Inl r, t) \<longleftrightarrow> False"
  by (auto simp: stamp_sign_in_def andthen_Inl goes_on)

lemma stamp_sign_in_Inr [act_simps]:
  "stamp_sign_in e s t0 amr w = (Inr s', t) \<longleftrightarrow>
     s' = s\<lparr>s_auth_time := t0, s_amr := amr, s_sid := raw_url_encode (en_rand e (wo_draws w) 24)\<rparr>
     \<and> t = w\<lparr>wo_draws := Suc (wo_draws w)\<rparr>"
  by (auto simp: stamp_sign_in_def act_simps)

lemma pick_way_Some: "pick_way fits old seen ws = (Some x, b) \<Longrightarrow> x \<in> set ws \<and> fits x \<and> \<not> old x"
  by (induction fits old seen ws rule: pick_way.induct) (auto split: if_splits)

lemma storeless_shared_way [storeless_intros]: "storeless (shared_way e req sh)"
  unfolding shared_way_def Let_def
  by (auto intro!: storeless_intros storeless_attempt storeless_asking[OF memberships_asks] split: prod.splits option.splits)

definition fit_for :: "'c env \<Rightarrow> authorize_request \<Rightarrow> shared \<Rightarrow> way \<Rightarrow> bool" where
  "fit_for e req sh way \<longleftrightarrow>
     si_single_sign_on (ar_client req) \<and> \<not> sa_login (ar_sign_ask req) \<and> \<not> sa_select_account (ar_sign_ask req)
     \<and> way \<in> set (sh_ways sh) \<and> way_fits e req way \<and> \<not> way_too_old e (ar_sign_ask req) way
     \<and> (claim_serial_number \<in> set (si_claims (ar_client req)) \<longrightarrow> sh_serial_number sh \<noteq> [])"

lemma members_answer:
  "(case r of Inl err \<Rightarrow> (None, a) | Inr ms \<Rightarrow> if ms = [] then (None, b) else (Some x, c)) = (Some y, d)
     \<longleftrightarrow> (\<exists>ms. r = Inr ms \<and> ms \<noteq> [] \<and> x = y \<and> c = d)"
  by (cases r) auto

lemma shared_way_Some:
  assumes "shared_way e req sh w = (Inr (Some way, why), w')"
  shows "fit_for e req sh way"
proof -
  obtain b where p: "pick_way (way_fits e req) (way_too_old e (ar_sign_ask req)) False (rev (sh_ways sh)) = (Some way, b)"
    using assms by (auto simp: shared_way_def Let_def act_simps members_answer split: if_splits option.splits prod.splits)
  from pick_way_Some[OF p] show ?thesis
    using assms p by (auto simp: fit_for_def shared_way_def Let_def split: if_splits)
qed

text \<open>The secret the browser holds opens the shared session it names.\<close>

definition holds_shared :: "'c env \<Rightarrow> request \<Rightarrow> string \<Rightarrow> shared \<Rightarrow> bool" where
  "holds_shared e rq i sh \<longleftrightarrow>
     (\<exists>secret. read_cookie e rq shared_cookie = i @ ''.'' @ secret \<and> length i = raw_url_len shared_id_bytes
        \<and> length secret = raw_url_len shared_secret_bytes \<and> shared_secret_hash (en_crypto e) secret = sh_secret_hash sh)"

lemma browser_shared_Some:
  assumes "browser_shared e rq w = (Inr (Some (i, sh)), w')"
  shows "holds_shared e rq i sh \<and> \<not> shared_expired sh (en_now e)
     \<and> (\<exists>c. op_load_shared (en_ops e) i (en_now e) (wo_store w) = (Inr sh, c) \<and> w' = w\<lparr>wo_store := c\<rparr>)"
proof -
  obtain j secret where cut: "cut (CHR ''.'') (read_cookie e rq shared_cookie) = (j, secret, True)"
    and len: "length j = raw_url_len shared_id_bytes" "length secret = raw_url_len shared_secret_bytes"
    using assms by (auto simp: browser_shared_def Let_def act_simps split: if_splits prod.splits)
  have run: "read_cookie e rq shared_cookie \<noteq> []"
    using assms by (auto simp: browser_shared_def)
  obtain q c where q: "op_load_shared (en_ops e) j (en_now e) (wo_store w) = (q, c)" by fastforce
  have found: "j = i \<and> shared_secret_hash (en_crypto e) secret = sh_secret_hash sh \<and> \<not> shared_expired sh (en_now e)
     \<and> q = Inr sh \<and> w' = w\<lparr>wo_store := c\<rparr>"
    using assms cut len run q
    by (cases q) (auto simp: browser_shared_def Let_def andthen_stored act_simps split: if_splits)
  with q have "op_load_shared (en_ops e) i (en_now e) (wo_store w) = (Inr sh, c)" by simp
  with found cut len show ?thesis by (auto simp: holds_shared_def cut_found)
qed

context session_store begin

lemma leaves_attempt:
  "leaves V e F m \<Longrightarrow> leaves V e F (attempt m)"
  unfolding leaves_def by (rule keeps_attempt)

lemma leaves_end_app_session:
  assumes now: "0 \<le> en_now e" and ops: "en_ops e = ops"
    and s: "\<And>v. F (v\<lparr>v_sessions := (v_sessions v)(sid := None)\<rparr>) = F v"
    and r: "\<And>v k. F (v\<lparr>v_refresh := (v_refresh v)(k := None)\<rparr>) = F v"
  shows "leaves V e F (end_app_session e sid)"
proof -
  have "leaves V e F (stored e (op_delete_session ops sid))"
    by (rule leaves_stored[where V = V and e = e and op = "op_delete_session ops sid", OF delete_session[OF now]]) (auto simp: spec_defs s)
  moreover have "leaves V e F (stored e (op_delete_refresh ops k))" for k
    by (rule leaves_stored[where V = V and e = e and op = "op_delete_refresh ops k", OF delete_refresh[OF now]]) (auto simp: spec_defs r)
  ultimately show ?thesis
    unfolding end_app_session_def end_its_grant_def ops
    by (auto intro!: leaves_intros leaves_attempt leaves_ops(4)[OF now] leaves_storeless[OF storeless_steps(1)] split: sum.splits)
qed

lemma created:
  assumes "0 \<le> now" "0 < life" "op_create_session ops sid s life now c = (Inr s', c')"
  shows "s' = s\<lparr>s_expires_at := now + life\<rparr>" "V now c' = (V now c)\<lparr>v_sessions := (v_sessions (V now c))(sid \<mapsto> s')\<rparr>"
    "v_sessions (V now c) sid = None"
  using created_session[OF assms] by simp_all

lemma put_app:
  assumes "0 \<le> now" "op_put_shared_app ops i client sid till now c = (Inr old, c')"
  shows "\<exists>M. V now c' = (V now c)\<lparr>v_apps := (v_apps (V now c))(i := M)\<rparr>
      \<and> (now + millisecond \<le> till \<longrightarrow> M = (v_apps (V now c) i)(client \<mapsto> sid))"
    "old = (case v_apps (V now c) i client of Some s \<Rightarrow> s | None \<Rightarrow> [])"
  using refines_Inr[OF put_shared_app[OF assms(1)] assms(2)] by (auto simp: spec_defs split: if_splits)

lemma shared_loaded:
  assumes "0 \<le> now" "op_load_shared ops i now c = (Inr sh, c')"
  shows "v_shared (V now c) i = Some sh" "\<not> shared_expired sh now" "V now c' = V now c"
  using refines_Inr[OF load_shared[OF assms(1)] assms(2)]
  by (auto simp: spec_defs live_shared_def split: option.splits if_splits)

text \<open>Recording an app's session under the shared one: no session but the one it replaces is touched.\<close>

lemma recorded_app:
  assumes now: "0 \<le> en_now e" and ops: "en_ops e = ops" and run: "add_shared_app e i till client sid w = (Inr True, w')"
  shows "(en_now e + millisecond \<le> till \<longrightarrow> v_apps (sees V e w') = (v_apps (sees V e w))(i := (v_apps (sees V e w) i)(client \<mapsto> sid)))
    \<and> v_sessions (sees V e w') sid = v_sessions (sees V e w) sid \<and> v_shared (sees V e w') = v_shared (sees V e w)
    \<and> v_codes (sees V e w') = v_codes (sees V e w)"
proof -
  obtain q c where put: "op_put_shared_app ops i client sid till (en_now e) (wo_store w) = (q, c)" by fastforce
  let ?u = "w\<lparr>wo_store := c\<rparr>"
  obtain old where q: "q = Inr old" and rest: "(if old \<noteq> [] \<and> old \<noteq> sid then end_app_session e old else ret ()) ?u = (Inr (), w')"
    using run put ops by (cases q) (auto simp: add_shared_app_def andthen_stored act_simps split: if_splits)
  note put = put[unfolded q]
  have keep: "F (sees V e w') = F (sees V e ?u)"
    if "\<And>v. old \<noteq> sid \<Longrightarrow> F (v\<lparr>v_sessions := (v_sessions v)(old := None)\<rparr>) = F v"
      "\<And>v k. F (v\<lparr>v_refresh := (v_refresh v)(k := None)\<rparr>) = F v" for F :: "view \<Rightarrow> 'b"
    using rest leavesD[OF leaves_end_app_session[OF now ops, of F old]] that by (auto split: if_splits)
  have "v_sessions (sees V e w') sid = v_sessions (sees V e ?u) sid" by (rule keep) simp_all
  moreover have "v_apps (sees V e w') = v_apps (sees V e ?u)" by (rule keep) simp_all
  moreover have "v_shared (sees V e w') = v_shared (sees V e ?u)" by (rule keep) simp_all
  moreover have "v_codes (sees V e w') = v_codes (sees V e ?u)" by (rule keep) simp_all
  moreover obtain M where "V (en_now e) c = (V (en_now e) (wo_store w))\<lparr>v_apps := (v_apps (V (en_now e) (wo_store w)))(i := M)\<rparr>"
    "en_now e + millisecond \<le> till \<longrightarrow> M = (v_apps (V (en_now e) (wo_store w)) i)(client \<mapsto> sid)"
    using put_app(1)[OF now put] by blast
  ultimately show ?thesis by (simp add: sees_def)
qed

end

lemma code_redirect_Inl:
  "code_redirect e rq uri code state w = (Inl r, w') \<longleftrightarrow>
     r = Redirect (if rq_method rq = ''POST'' then 303 else 302) (append_code_state uri (issuer_id e) code state) \<and> w' = w"
  by (auto simp: code_redirect_def Let_def see_other_def redirect_to_def)

lemma refuse_internal_Inl [simp]:
  "recover m (\<lambda>_. refuse Internal) w = (Inl (Redirect st target), w') \<longleftrightarrow> False"
  by (auto simp: recover_Inl refuse_def)

text \<open>
  C27. A person is signed in to an app with no page only from a shared session this very browser holds the
  secret of, for a client that takes part and did not ask for a sign-in now, and only by a way that fits:
  one of theirs that has not ended, that the client may use, among those asked for and no older than
  \<open>max_age\<close>. The new session is that person's, ends when that way ends, and stands recorded under the
  shared session (unless that ends within the millisecond), so that its sign-out reaches it; the code is for this request's client, address and
  challenge alone, and goes to its registered address.
\<close>

theorem silent_answer_fits:
  assumes store: "session_store (en_ops e) V" and now: "0 \<le> en_now e"
    and run: "answer_from_shared e rq req w = (Inl (Redirect st target), w')"
  shows "\<exists>i sh way sess sid code.
     holds_shared e rq i sh \<and> v_shared (sees V e w) i = Some sh \<and> \<not> shared_expired sh (en_now e) \<and> fit_for e req sh way
     \<and> v_sessions (sees V e w) sid = None \<and> v_sessions (sees V e w') sid = Some sess
     \<and> s_subject sess = sh_subject sh \<and> s_login_method sess = w_method way \<and> s_shared sess = i
     \<and> s_expires_at sess = en_now e + time_sub (w_ends way) (en_now e)
     \<and> (en_now e + millisecond \<le> sh_expires_at sh \<longrightarrow> v_apps (sees V e w') i (ar_client_id req) = Some sid) \<and> v_shared (sees V e w') i \<noteq> None
     \<and> v_codes (sees V e w') code = Some (request_code req sid)
     \<and> target = append_code_state (ar_redirect_uri req) (issuer_id e) code (ar_spa_state req)"
proof -
  let ?cid = "ar_client_id req"
  obtain found w1 where b: "browser_shared e rq w = (Inr found, w1)"
    by (cases "browser_shared e rq w"; cases "fst (browser_shared e rq w)") (auto simp: goes_on)
  then obtain i sh where found: "found = Some (i, sh)"
    using run by (cases found) (auto simp: answer_from_shared_def)
  obtain picked why w2 where p: "shared_way e req sh w1 = (Inr (picked, why), w2)"
    by (cases "shared_way e req sh w1"; cases "fst (shared_way e req sh w1)") (auto simp: goes_on)
  obtain way where picked: "picked = Some way"
    using run b found p by (cases picked) (auto simp: answer_from_shared_def record_event_def split: if_splits)
  let ?sess = "(shared_app_session sh way i)\<lparr>s_auth_time := w_auth_time way, s_amr := w_amr way,
    s_sid := raw_url_encode (en_rand e (wo_draws w2) 24)\<rparr>"
  let ?w3 = "w2\<lparr>wo_draws := Suc (wo_draws w2)\<rparr>"
  let ?sid = "raw_url_encode (en_rand e (wo_draws ?w3) 24)"
  let ?w4 = "?w3\<lparr>wo_draws := Suc (wo_draws ?w3)\<rparr>"
  let ?code = "\<lambda>v. raw_url_encode (en_rand e (wo_draws v) 24)"
  have s: "stamp_sign_in e (shared_app_session sh way i) (w_auth_time way) (w_amr way) w2 = (Inr ?sess, ?w3)"
    by (simp add: stamp_sign_in_Inr)
  have r: "random_token e 24 ?w3 = (Inr ?sid, ?w4)" by simp
  obtain s' c1 u1 u2 c2 where
    create: "op_create_session (en_ops e) ?sid ?sess (time_sub (w_ends way) (en_now e)) (en_now e) (wo_store ?w4) = (Inr s', c1)"
    and add: "add_shared_app e i (sh_expires_at sh) ?cid ?sid (?w4\<lparr>wo_store := c1\<rparr>) = (Inr True, u1)"
    and live: "shared_live e i u1 = (Inr True, u2)"
    and save: "op_save_app_code (en_ops e) (?code u2) (request_code req ?sid) app_code_ttl (en_now e) (wo_store u2) = (Inr (), c2)"
    and out: "target = append_code_state (ar_redirect_uri req) (issuer_id e) (?code u2) (ar_spa_state req)" "wo_store w' = c2"
    using run b found p picked s r
    by (simp add: answer_from_shared_def)
      (auto simp: andthen_Inl goes_on act_simps stored_Inl code_redirect_Inl split: if_splits)
  note browser = browser_shared_Some[OF b[unfolded found]]
  then obtain c0 where c0: "op_load_shared (en_ops e) i (en_now e) (wo_store w) = (Inr sh, c0)" "w1 = w\<lparr>wo_store := c0\<rparr>" by blast
  note start = session_store.shared_loaded[OF store now c0(1)]
  have fit: "fit_for e req sh way" using shared_way_Some p picked by metis
  have store2: "wo_store w2 = c0" using storelessD[OF storeless_shared_way p] c0(2) by simp
  have "en_now e < w_ends way" using fit by (simp add: fit_for_def way_fits_def)
  then have life: "0 < time_sub (w_ends way) (en_now e)" by (simp add: not_le[symmetric])
  note made = session_store.created[OF store now life create]
  note rec = session_store.recorded_app[OF store now refl add]
  obtain sh' c3 where live': "op_load_shared (en_ops e) i (en_now e) (wo_store u1) = (Inr sh', c3)" "u2 = u1\<lparr>wo_store := c3\<rparr>"
    using live by (auto simp: shared_live_def act_simps stored_def split: prod.splits sum.splits)
  note still = session_store.shared_loaded[OF store now live'(1)]
  have code: "V (en_now e) c2 = (V (en_now e) (wo_store u2))\<lparr>v_codes := (v_codes (V (en_now e) (wo_store u2)))(?code u2 \<mapsto> request_code req ?sid)\<rparr>"
    by (rule session_store.saved_code[OF store now _ save]) (simp add: app_code_ttl_def second_def)
  have "v_sessions (sees V e w') ?sid = Some s'" "en_now e + millisecond \<le> sh_expires_at sh \<longrightarrow> v_apps (sees V e w') i ?cid = Some ?sid"
    "v_shared (sees V e w') i = Some sh'"
    "v_codes (sees V e w') (?code u2) = Some (request_code req ?sid)"
    using code still live'(2) rec made(2) by (simp_all add: sees_def out(2))
  moreover have "v_sessions (sees V e w) ?sid = None"
    using made(3) start store2 by (simp add: sees_def)
  moreover have "s_subject s' = sh_subject sh" "s_login_method s' = w_method way" "s_shared s' = i"
    "s_expires_at s' = en_now e + time_sub (w_ends way) (en_now e)"
    using made(1) by (simp_all add: shared_app_session_def)
  ultimately show ?thesis
    using browser start(1) fit out(1) by (intro exI conjI) (auto simp: sees_def)
qed

section \<open>One sign-out ends every app\<close>

text \<open>A store that answers: nothing is promised of a sign-out at one that does not.\<close>

locale steady_store = session_store +
  assumes load_answers: "op_load_session ops sid now c \<noteq> (Inl Unavailable, c')"
    and delete_answers: "op_delete_session ops sid now c \<noteq> (Inl Unavailable, c')"
    and create_answers: "op_create_session ops sid s life now c \<noteq> (Inl Unavailable, c')"
    and delete_refresh_answers: "op_delete_refresh ops k now c \<noteq> (Inl Unavailable, c')"
    and save_code_answers: "op_save_app_code ops k code ttl now c \<noteq> (Inl Unavailable, c')"
    and load_shared_answers: "op_load_shared ops i now c \<noteq> (Inl Unavailable, c')"
    and put_app_answers: "op_put_shared_app ops i client sid till now c \<noteq> (Inl Unavailable, c')"
    and end_shared_answers: "op_end_shared ops i now c \<noteq> (Inl Unavailable, c')"

text \<open>What ending one app session does to what is live.\<close>

definition ended_one :: "time \<Rightarrow> string \<Rightarrow> view \<Rightarrow> view" where
  "ended_one now sid v = v\<lparr>v_sessions := (v_sessions v)(sid := None),
     v_refresh := (case live_session v now sid of
         Some s \<Rightarrow> if s_refresh_key s \<noteq> [] then (v_refresh v)(s_refresh_key s := None) else v_refresh v
       | None \<Rightarrow> v_refresh v)\<rparr>"

definition ended_all :: "time \<Rightarrow> string list \<Rightarrow> view \<Rightarrow> view" where
  "ended_all now sids v = foldl (\<lambda>v sid. ended_one now sid v) v sids"

lemma ended_all_simps [simp]:
  "ended_all now [] v = v" "ended_all now (sid # sids) v = ended_all now sids (ended_one now sid v)"
  by (simp_all add: ended_all_def)

lemma ended_all_fields [simp]:
  "v_shared (ended_all now sids v) = v_shared v" "v_apps (ended_all now sids v) = v_apps v"
  "v_codes (ended_all now sids v) = v_codes v" "v_flows (ended_all now sids v) = v_flows v"
  by (induction sids arbitrary: v) (simp_all add: ended_one_def)

lemma ended_all_sessions: "v_sessions (ended_all now sids v) = (\<lambda>s. if s \<in> set sids then None else v_sessions v s)"
  by (induction sids arbitrary: v) (auto simp: ended_one_def fun_eq_iff)

lemma ended_all_refresh_gone: "v_refresh v k = None \<Longrightarrow> v_refresh (ended_all now sids v) k = None"
  by (induction sids arbitrary: v) (simp_all add: ended_one_def split: option.splits)

lemma live_ended_one: "sid \<noteq> sid' \<Longrightarrow> live_session (ended_one now sid' v) now sid = live_session v now sid"
  by (simp add: live_session_def ended_one_def)

lemma ended_all_refresh:
  "sid \<in> set sids \<Longrightarrow> live_session v now sid = Some s \<Longrightarrow> s_refresh_key s \<noteq> [] \<Longrightarrow>
     v_refresh (ended_all now sids v) (s_refresh_key s) = None"
proof (induction sids arbitrary: v)
  case (Cons x xs)
  show ?case
  proof (cases "x = sid")
    case True
    with Cons.prems have "v_refresh (ended_one now x v) (s_refresh_key s) = None" by (simp add: ended_one_def)
    then show ?thesis by (simp add: ended_all_refresh_gone)
  next
    case False
    with Cons show ?thesis by (simp add: live_ended_one)
  qed
qed simp

context steady_store begin

lemma ended_app:
  assumes now: "0 \<le> en_now e" and ops: "en_ops e = ops" and run: "end_app_session e sid w = (r, w')"
  shows "sees V e w' = ended_one (en_now e) sid (sees V e w)"
proof -
  obtain q c where load: "op_load_session ops sid (en_now e) (wo_store w) = (q, c)" by fastforce
  let ?u = "w\<lparr>wo_store := c\<rparr>"
  have same: "V (en_now e) c = V (en_now e) (wo_store w)"
    and q: "live_session (sees V e w) (en_now e) sid = (case q of Inr s \<Rightarrow> Some s | Inl _ \<Rightarrow> None)"
    using load_session[OF now, of sid] load load_answers[of sid "en_now e" "wo_store w"]
    by (cases q; fastforce simp: refines_def spec_defs sees_def split: option.splits)+
  obtain v where f: "end_its_grant e q ?u = (Inr (), v)"
    by (cases "end_its_grant e q ?u"; cases "fst (end_its_grant e q ?u)") (auto simp: goes_on)
  have fv: "sees V e v = (sees V e w)\<lparr>v_refresh := (case live_session (sees V e w) (en_now e) sid of
         Some s \<Rightarrow> if s_refresh_key s \<noteq> [] then (v_refresh (sees V e w))(s_refresh_key s := None) else v_refresh (sees V e w)
       | None \<Rightarrow> v_refresh (sees V e w))\<rparr>"
  proof (cases "\<exists>s. q = Inr s \<and> s_refresh_key s \<noteq> []")
    case True
    then obtain s where s: "q = Inr s" "s_refresh_key s \<noteq> []" by blast
    obtain p d where del: "op_delete_refresh ops (s_refresh_key s) (en_now e) c = (p, d)" by fastforce
    have "V (en_now e) d = (V (en_now e) c)\<lparr>v_refresh := (v_refresh (V (en_now e) c))(s_refresh_key s := None)\<rparr>"
      using delete_refresh[OF now, of "s_refresh_key s"] del delete_refresh_answers[of "s_refresh_key s" "en_now e" c]
      by (fastforce simp: refines_def spec_defs)
    moreover have "wo_store v = d" using f s del ops by (auto simp: end_its_grant_def andthen_stored)
    ultimately show ?thesis using s q same by (simp add: sees_def)
  next
    case False
    then have "v = ?u" using f by (auto simp: end_its_grant_def split: sum.splits if_splits)
    with False q same show ?thesis by (auto simp: sees_def split: sum.splits)
  qed
  obtain p d where del: "op_delete_session ops sid (en_now e) (wo_store v) = (p, d)" by fastforce
  have dv: "V (en_now e) d = (V (en_now e) (wo_store v))\<lparr>v_sessions := (v_sessions (V (en_now e) (wo_store v)))(sid := None)\<rparr>"
    using delete_session[OF now, of sid] del delete_answers[of sid "en_now e" "wo_store v"]
    by (fastforce simp: refines_def spec_defs)
  have "end_app_session e sid w = andthen (end_its_grant e q) (\<lambda>_. andthen (attempt (stored e (op_delete_session ops sid))) (\<lambda>_. ret ())) ?u"
    unfolding end_app_session_def ops by (simp only: andthen_stored[of "op_load_session ops sid", OF load])
  also have "\<dots> = (Inr (), v\<lparr>wo_store := d\<rparr>)"
    using f by (simp add: andthen_stored[of "op_delete_session ops sid", OF del])
  finally have "w' = v\<lparr>wo_store := d\<rparr>" using run by simp
  with dv fv show ?thesis unfolding ended_one_def sees_def by simp
qed

lemma ended_apps:
  assumes now: "0 \<le> en_now e" and ops: "en_ops e = ops"
  shows "end_app_sessions e sids w = (r, w') \<Longrightarrow> sees V e w' = ended_all (en_now e) sids (sees V e w)"
proof (induction sids arbitrary: w)
  case (Cons sid sids)
  obtain u where one: "end_app_session e sid w = (Inr (), u)"
    by (cases "end_app_session e sid w"; cases "fst (end_app_session e sid w)") (auto simp: goes_on)
  with Cons.prems have "end_app_sessions e sids u = (r, w')" by simp
  from Cons.IH[OF this] ended_app[OF now ops one] show ?case by simp
qed simp

lemma ended_shared:
  assumes now: "0 \<le> en_now e" and ops: "en_ops e = ops" and i: "i \<noteq> []" "v_shared (sees V e w) i \<noteq> None"
    and run: "Shared_Session.end_shared e i subject reason w = (r, w')"
  shows "\<exists>apps. map_of apps = v_apps (sees V e w) i \<and> distinct (map fst apps)
     \<and> sees V e w' = ended_all (en_now e) (map snd apps)
         ((sees V e w)\<lparr>v_shared := (v_shared (sees V e w))(i := None), v_apps := (v_apps (sees V e w))(i := Map.empty)\<rparr>)"
proof -
  obtain q c where take: "op_end_shared ops i (en_now e) (wo_store w) = (q, c)" by fastforce
  obtain apps where q: "q = Inr apps" and apps: "map_of apps = v_apps (sees V e w) i" "distinct (map fst apps)"
    and c: "V (en_now e) c = (sees V e w)\<lparr>v_shared := (v_shared (sees V e w))(i := None), v_apps := (v_apps (sees V e w))(i := Map.empty)\<rparr>"
    using end_shared[OF now, of i] take end_shared_answers[of i "en_now e" "wo_store w"] i(2)
    by (fastforce simp: refines_def spec_defs sees_def)
  let ?u = "w\<lparr>wo_store := c\<rparr>"
  obtain v where all: "end_app_sessions e (map snd apps) ?u = (Inr (), v)"
    by (cases "end_app_sessions e (map snd apps) ?u"; cases "fst (end_app_sessions e (map snd apps) ?u)") (auto simp: goes_on)
  have "Shared_Session.end_shared e i subject reason w
      = andthen (end_app_sessions e (map snd apps)) (\<lambda>_. record_event (Shared_Session_Ended subject reason (length apps))) ?u"
    using i(1) by (simp add: Shared_Session.end_shared_def ops andthen_stored[of "op_end_shared ops i", OF take] q)
  then have "wo_store w' = wo_store v" using run all by simp
  then have "sees V e w' = sees V e v" by (simp add: sees_def)
  also have "\<dots> = ended_all (en_now e) (map snd apps) (sees V e ?u)" by (rule ended_apps[OF now ops all])
  finally show ?thesis using apps c by (intro exI[of _ apps]) (simp add: sees_def)
qed

end

text \<open>The in-memory store always answers.\<close>

interpretation mem_steady: steady_store memory_ops memory_view
  by unfold_locales
    (auto simp: memory_ops_parts mem_load_session_def mem_delete_session_def mem_delete_refresh_def mem_end_shared_def Let_def
      mem_create_session_def mem_save_app_code_def mem_put_def mem_load_shared_def mem_put_shared_app_def
      mem_get_def mem_read_def split: option.splits if_splits prod.splits)

text \<open>
  C29. One sign-out signs the person out of every app. Ending the browser's shared session ends the session
  of every app recorded under it, and takes back what would renew each, so none renews from that moment;
  the shared session and its list are gone. No session that was not recorded under it is touched.
\<close>

theorem one_sign_out_ends_every_app:
  assumes store: "steady_store (en_ops e) V" and now: "0 \<le> en_now e"
    and i: "i \<noteq> []" "v_shared (sees V e w) i \<noteq> None"
    and run: "end_shared e i subject reason w = (r, w')"
  shows "v_shared (sees V e w') i = None \<and> v_apps (sees V e w') i = Map.empty
     \<and> (\<forall>client sid. v_apps (sees V e w) i client = Some sid \<longrightarrow>
          v_sessions (sees V e w') sid = None
          \<and> (\<forall>s. live_session (sees V e w) (en_now e) sid = Some s \<and> s_refresh_key s \<noteq> [] \<longrightarrow>
               v_refresh (sees V e w') (s_refresh_key s) = None))
     \<and> (\<forall>sid. (\<nexists>client. v_apps (sees V e w) i client = Some sid) \<longrightarrow> v_sessions (sees V e w') sid = v_sessions (sees V e w) sid)"
proof -
  let ?v = "sees V e w"
  let ?after = "?v\<lparr>v_shared := (v_shared ?v)(i := None), v_apps := (v_apps ?v)(i := Map.empty)\<rparr>"
  obtain apps where apps: "map_of apps = v_apps ?v i" "distinct (map fst apps)"
    and w': "sees V e w' = ended_all (en_now e) (map snd apps) ?after"
    using steady_store.ended_shared[OF store now refl i run] by blast
  have in_list: "sid \<in> set (map snd apps) \<longleftrightarrow> (\<exists>client. v_apps ?v i client = Some sid)" for sid
    using apps(2) unfolding apps(1)[symmetric] by (force simp: map_of_eq_Some_iff)
  have "v_refresh (sees V e w') (s_refresh_key s) = None"
    if "v_apps ?v i client = Some sid" "live_session ?v (en_now e) sid = Some s" "s_refresh_key s \<noteq> []" for client sid s
    unfolding w' by (rule ended_all_refresh) (use that in_list in \<open>auto simp: live_session_def\<close>)
  then show ?thesis
    using in_list by (auto simp: w' ended_all_sessions)
qed

section \<open>A silent answer is given\<close>

lemma refines_answered:
  "refines V m S \<Longrightarrow> (\<And>c'. m c \<noteq> (Inl Unavailable, c')) \<Longrightarrow> m c = (r, c') \<Longrightarrow> S (V c) r (V c')"
  by (fastforce simp: refines_def)

lemma pick_way_fits: "w \<in> set ws \<Longrightarrow> fits w \<Longrightarrow> \<not> old w \<Longrightarrow> \<exists>w' b. pick_way fits old seen ws = (Some w', b)"
  by (induction fits old seen ws rule: pick_way.induct) auto

definition free_to_join :: "'c env \<Rightarrow> string \<Rightarrow> bool" where
  "free_to_join e cid \<longleftrightarrow> en_register e = None \<or> \<not> membership_required (en_registry e) cid True"

lemma shared_way_found:
  assumes "fit_for e req sh way" "sa_max_age (ar_sign_ask req) \<noteq> Some 0" "free_to_join e (ar_client_id req)"
  shows "\<exists>way'. fit_for e req sh way' \<and> shared_way e req sh w = (Inr (Some way', []), w)"
proof -
  obtain way' b where p: "pick_way (way_fits e req) (way_too_old e (ar_sign_ask req)) False (rev (sh_ways sh)) = (Some way', b)"
    using pick_way_fits[of way "rev (sh_ways sh)"] assms(1) unfolding fit_for_def set_rev by metis
  have "shared_way e req sh w = (Inr (Some way', []), w)"
    using assms p by (auto simp: shared_way_def Let_def fit_for_def free_to_join_def split: option.splits)
  with shared_way_Some show ?thesis by blast
qed

lemma held_is_read:
  assumes "holds_shared e rq i sh" "CHR ''.'' \<notin> set i" "\<not> shared_expired sh (en_now e)"
    and load: "op_load_shared (en_ops e) i (en_now e) (wo_store w) = (Inr sh, c)"
  shows "browser_shared e rq w = (Inr (Some (i, sh)), w\<lparr>wo_store := c\<rparr>)"
proof -
  obtain secret where s: "read_cookie e rq shared_cookie = i @ ''.'' @ secret" "length i = raw_url_len shared_id_bytes"
    "length secret = raw_url_len shared_secret_bytes" "shared_secret_hash (en_crypto e) secret = sh_secret_hash sh"
    using assms(1) by (auto simp: holds_shared_def)
  have "cut (CHR ''.'') (i @ ''.'' @ secret) = (i, secret, True)"
    using assms(2) by (simp add: cut_found)
  with s assms(3) show ?thesis
    by (simp add: browser_shared_def andthen_stored[of "op_load_shared (en_ops e) i", OF load])
qed

context steady_store begin

lemma shared_there:
  assumes "0 \<le> now" "v_shared (V now c) i = Some sh" "\<not> shared_expired sh now"
  shows "\<exists>c'. op_load_shared ops i now c = (Inr sh, c') \<and> V now c' = V now c"
  using refines_answered[OF load_shared[OF assms(1), of i], of c] load_shared_answers[of i now c] assms(2,3)
  by (cases "op_load_shared ops i now c") (simp add: spec_defs live_shared_def)

lemma session_made:
  assumes "0 \<le> now" "0 < life" "v_sessions (V now c) sid = None"
  shows "\<exists>c'. op_create_session ops sid s life now c = (Inr (s\<lparr>s_expires_at := now + life\<rparr>), c')"
  using refines_answered[OF create_session[OF assms(1,2), of sid s], of c] create_answers[of sid s life now c] assms(3)
  by (cases "op_create_session ops sid s life now c") (simp add: spec_defs Let_def)

lemma code_saved:
  assumes "0 \<le> now" "0 < ttl"
  shows "\<exists>c'. op_save_app_code ops k x ttl now c = (Inr (), c')"
  using refines_answered[OF save_app_code[OF assms, of k x], of c] save_code_answers[of k x ttl now c]
  by (cases "op_save_app_code ops k x ttl now c") (simp add: spec_defs)

lemma app_recorded:
  assumes now: "0 \<le> en_now e" and ops: "en_ops e = ops" and "en_now e < till"
  shows "\<exists>w'. add_shared_app e i till client sid w = (Inr True, w')"
proof -
  obtain q c where put: "op_put_shared_app ops i client sid till (en_now e) (wo_store w) = (q, c)" by fastforce
  then obtain old where q: "q = Inr old"
    using refines_answered[OF put_shared_app[OF now, of i client sid till], of "wo_store w" q c]
      put_app_answers[of i client sid till "en_now e" "wo_store w"] assms(3)
    by (simp add: spec_defs)
  obtain w' where "end_app_session e old (w\<lparr>wo_store := c\<rparr>) = (Inr (), w')"
    by (cases "end_app_session e old (w\<lparr>wo_store := c\<rparr>)"; cases "fst (end_app_session e old (w\<lparr>wo_store := c\<rparr>))") (auto simp: goes_on)
  then show ?thesis
    by (auto simp: add_shared_app_def ops andthen_stored[of "op_put_shared_app ops i client sid till", OF put] q)
qed

end

lemma silently_answered:
  assumes store: "steady_store (en_ops e) V" and now: "0 \<le> en_now e"
    and b: "browser_shared e rq w = (Inr (Some (i, sh)), w1)" and p: "shared_way e req sh w1 = (Inr (Some way, why), w1)"
    and live: "v_shared (sees V e w1) i = Some sh" "\<not> shared_expired sh (en_now e)" "en_now e < w_ends way"
    and fresh: "\<And>n. v_sessions (sees V e w1) (raw_url_encode (en_rand e n 24)) = None"
  shows "\<exists>code w'. answer_from_shared e rq req w =
     (Inl (Redirect (if rq_method rq = ''POST'' then 303 else 302)
        (append_code_state (ar_redirect_uri req) (issuer_id e) code (ar_spa_state req))), w')"
proof -
  have ss: "session_store (en_ops e) V" by (rule steady_store.axioms(1)[OF store])
  let ?w2 = "w1\<lparr>wo_draws := Suc (wo_draws w1)\<rparr>"
  let ?sess = "(shared_app_session sh way i)\<lparr>s_auth_time := w_auth_time way, s_amr := w_amr way,
    s_sid := raw_url_encode (en_rand e (wo_draws w1) 24)\<rparr>"
  let ?sid = "raw_url_encode (en_rand e (wo_draws ?w2) 24)"
  let ?w3 = "?w2\<lparr>wo_draws := Suc (wo_draws ?w2)\<rparr>"
  have s: "stamp_sign_in e (shared_app_session sh way i) (w_auth_time way) (w_amr way) w1 = (Inr ?sess, ?w2)"
    by (simp add: stamp_sign_in_Inr)
  have life: "0 < time_sub (w_ends way) (en_now e)" using live(3) by (simp add: not_le[symmetric])
  then obtain s' c1 where create: "op_create_session (en_ops e) ?sid ?sess (time_sub (w_ends way) (en_now e)) (en_now e) (wo_store ?w3) = (Inr s', c1)"
    using steady_store.session_made[OF store now, of _ "wo_store ?w3" ?sid ?sess] fresh by (fastforce simp: sees_def)
  obtain u1 where add: "add_shared_app e i (sh_expires_at sh) (ar_client_id req) ?sid (?w3\<lparr>wo_store := c1\<rparr>) = (Inr True, u1)"
    using steady_store.app_recorded[OF store now refl] live(2) by (fastforce simp: shared_expired_def)
  have "v_shared (sees V e u1) i = Some sh"
    using session_store.recorded_app[OF ss now refl add] session_store.created[OF ss now life create] live(1) by (simp add: sees_def)
  then obtain c2 where c2: "op_load_shared (en_ops e) i (en_now e) (wo_store u1) = (Inr sh, c2)"
    using steady_store.shared_there[OF store now, of "wo_store u1" i sh] live(2) by (auto simp: sees_def)
  let ?u2 = "u1\<lparr>wo_store := c2\<rparr>"
  have still: "shared_live e i u1 = (Inr True, ?u2)"
    by (simp add: shared_live_def andthen_stored[of "op_load_shared (en_ops e) i", OF c2])
  obtain c3 where save: "op_save_app_code (en_ops e) (raw_url_encode (en_rand e (wo_draws ?u2) 24)) (request_code req ?sid) app_code_ttl (en_now e) (wo_store ?u2) = (Inr (), c3)"
    using steady_store.code_saved[OF store now, of app_code_ttl] by (fastforce simp: app_code_ttl_def second_def)
  show ?thesis
    using b p s create add still save
    by (auto simp: answer_from_shared_def andthen_def recover_def stored_def record_event_def code_redirect_def Let_def see_other_def redirect_to_def)
qed


section \<open>A client ends its session\<close>

lemma storeless_verify_dpop [storeless_intros]: "storeless (verify_endpoint_dpop e rq tok)"
  by (rule storelessI)
    (auto simp: verify_endpoint_dpop_def Let_def andthen_def check_and_set_def dpop_refusal_def challenge_nonce_def set_header_def
      refuse_def split: sum.splits if_splits prod.splits)

context steady_store begin

text \<open>What a store that answers says of an entry that is there.\<close>

lemma session_there:
  assumes "0 \<le> now" "v_sessions (V now c) sid = Some s" "\<not> session_expired s now"
  shows "\<exists>c'. op_load_session ops sid now c = (Inr s, c') \<and> V now c' = V now c"
  using refines_Inl[OF load_session[OF assms(1), of sid]] refines_Inr[OF load_session[OF assms(1), of sid]]
    assms(2,3) load_answers[of sid now c]
  by (cases "op_load_session ops sid now c"; cases "fst (op_load_session ops sid now c)")
    (fastforce simp: spec_defs live_session_def)+

lemma session_deleted:
  assumes "0 \<le> now"
  shows "\<exists>c'. op_delete_session ops sid now c = (Inr (), c') \<and> V now c' = (V now c)\<lparr>v_sessions := (v_sessions (V now c))(sid := None)\<rparr>"
  using refines_Inl[OF delete_session[OF assms(1), of sid]] refines_Inr[OF delete_session[OF assms(1), of sid]] delete_answers[of sid now c]
  by (cases "op_delete_session ops sid now c"; cases "fst (op_delete_session ops sid now c)") (fastforce simp: spec_defs)+

lemma refresh_deleted:
  assumes "0 \<le> now"
  shows "\<exists>c'. op_delete_refresh ops k now c = (Inr (), c') \<and> V now c' = (V now c)\<lparr>v_refresh := (v_refresh (V now c))(k := None)\<rparr>"
  using refines_Inl[OF delete_refresh[OF assms(1), of k]] refines_Inr[OF delete_refresh[OF assms(1), of k]] delete_refresh_answers[of k now c]
  by (cases "op_delete_refresh ops k now c"; cases "fst (op_delete_refresh ops k now c)") (fastforce simp: spec_defs)+

lemma refresh_there:
  assumes "0 \<le> now" "v_refresh (V now c) k = Some g" "op_load_refresh ops k now c = (q, c')"
  shows "V now c' = V now c" "q = Inr g \<or> q = Inl Unavailable"
  using load_refresh[OF assms(1), of k, unfolded refines_def, rule_format, OF assms(3)] assms(2) by (auto simp: spec_defs)

end

text \<open>The end of a revocation, once the client and the key are proven.\<close>

definition revoked :: "'c env \<Rightarrow> string \<Rightarrow> refresh_grant \<Rightarrow> session \<Rightarrow> ('c, reply) handler" where
  "revoked e key g sess =
     andthen (recover (stored e (op_delete_session (en_ops e) (rg_session g))) store_refusal) (\<lambda>_.
     andthen (recover (stored e (op_delete_refresh (en_ops e) key)) store_refusal) (\<lambda>_.
     andthen (end_shared e (s_shared sess) (s_subject sess) ended_sign_out) (\<lambda>_.
     andthen (record_event (Session_Ended (s_subject sess) (s_login_method sess))) (\<lambda>_.
     ret (Status_Reply 200)))))"

lemma revoked_ends:
  assumes store: "steady_store (en_ops e) V" and now: "0 \<le> en_now e" and run: "revoked e key g sess w = (res, w')"
  shows "res = Inr (Status_Reply 200) \<and> v_sessions (sees V e w') (rg_session g) = None \<and> v_refresh (sees V e w') key = None
    \<and> (s_shared sess \<noteq> [] \<longrightarrow> v_shared (sees V e w') (s_shared sess) = None)"
proof -
  obtain c where c: "op_delete_session (en_ops e) (rg_session g) (en_now e) (wo_store w) = (Inr (), c)"
    "V (en_now e) c = (sees V e w)\<lparr>v_sessions := (v_sessions (sees V e w))(rg_session g := None)\<rparr>"
    using steady_store.session_deleted[OF store now] unfolding sees_def by blast
  obtain d where d: "op_delete_refresh (en_ops e) key (en_now e) c = (Inr (), d)"
    "V (en_now e) d = (V (en_now e) c)\<lparr>v_refresh := (v_refresh (V (en_now e) c))(key := None)\<rparr>"
    using steady_store.refresh_deleted[OF store now] by blast
  let ?u = "w\<lparr>wo_store := d\<rparr>"
  obtain v where v: "end_shared e (s_shared sess) (s_subject sess) ended_sign_out ?u = (Inr (), v)"
    by (cases "end_shared e (s_shared sess) (s_subject sess) ended_sign_out ?u";
        cases "fst (end_shared e (s_shared sess) (s_subject sess) ended_sign_out ?u)") (auto simp: goes_on)
  have out: "res = Inr (Status_Reply 200)" "wo_store w' = wo_store v"
    using run c(1) d(1) v by (auto simp: revoked_def andthen_def recover_def stored_def record_event_def)
  have u: "v_sessions (sees V e ?u) (rg_session g) = None" "v_refresh (sees V e ?u) key = None"
    using c(2) d(2) by (simp_all add: sees_def)
  have "v_sessions (sees V e v) (rg_session g) = None \<and> v_refresh (sees V e v) key = None
     \<and> (s_shared sess \<noteq> [] \<longrightarrow> v_shared (sees V e v) (s_shared sess) = None)"
  proof (cases "s_shared sess \<noteq> [] \<and> v_shared (sees V e ?u) (s_shared sess) \<noteq> None")
    case True
    from steady_store.ended_shared[OF store now refl conjunct1[OF True] conjunct2[OF True] v]
    obtain apps :: "(string \<times> string) list" where "sees V e v = ended_all (en_now e) (map snd apps)
        ((sees V e ?u)\<lparr>v_shared := (v_shared (sees V e ?u))(s_shared sess := None), v_apps := (v_apps (sees V e ?u))(s_shared sess := Map.empty)\<rparr>)"
      by blast
    then show ?thesis using u by (simp add: ended_all_sessions ended_all_refresh_gone)
  next
    case False
    have "sees V e v = sees V e ?u \<and> (s_shared sess \<noteq> [] \<longrightarrow> v_shared (sees V e v) (s_shared sess) = None)"
    proof (cases "s_shared sess = []")
      case True
      then have "wo_store v = wo_store ?u" using v by (auto simp: end_shared_def)
      then have "sees V e v = sees V e ?u" by (simp only: sees_def)
      with True show ?thesis by simp
    next
      case shared: False
      with False have none: "v_shared (V (en_now e) d) (s_shared sess) = None" by (simp add: sees_def)
      obtain q x where q: "op_end_shared (en_ops e) (s_shared sess) (en_now e) d = (q, x)" by fastforce
      have "q = Inl Not_Found \<and> V (en_now e) x = V (en_now e) d"
        using steady_store.axioms(1)[OF store, THEN session_store.end_shared, OF now, of "s_shared sess"] q none
          steady_store.end_shared_answers[OF store, of "s_shared sess" "en_now e" d]
        by (fastforce simp: refines_def spec_defs)
      then have "wo_store v = x" "V (en_now e) x = V (en_now e) d"
        using v shared q by (auto simp: end_shared_def andthen_stored[of "op_end_shared (en_ops e) (s_shared sess)"])
      with none show ?thesis by (simp add: sees_def)
    qed
    then show ?thesis using u by (elim conjE) simp
  qed
  with out show ?thesis by (simp add: sees_def)
qed


section \<open>Signing in and out on an example\<close>

definition example_shared_id :: string where
  "example_shared_id = replicate 22 (CHR ''i'')"

definition example_secret :: string where
  "example_secret = replicate 43 (CHR ''s'')"

definition example_way :: way where
  "example_way = \<lparr>w_method = ''eidScan'', w_loa = ''high'', w_auth_time = unix example_now - 10, w_amr = [],
      w_signed_in = example_now, w_ends = example_now + 3600 * second\<rparr>"

definition example_shared :: shared where
  "example_shared = keep_person (keep example_way
    (empty_shared\<lparr>sh_secret_hash := shared_secret_hash (run_crypto []) example_secret\<rparr>)) (example_session\<lparr>s_serial_number := ''PNOLV-1''\<rparr>)"

definition shared_entries :: "(string \<times> entry) list" where
  "shared_entries =
     [(''shared:'' @ example_shared_id, \<lparr>e_value = Shared_V example_shared, e_expires = example_now + 3600 * second\<rparr>),
      (''shared-apps:'' @ example_shared_id, \<lparr>e_value = Apps_V [(''shop-app'', ''S1'')], e_expires = example_now + 3600 * second\<rparr>)]
     @ example_entries"

definition open_env :: "memory env" where
  "open_env = example_env None []"

definition portal_request :: request where
  "portal_request = (get_form [(''response_type'', ''code''), (''client_id'', ''portal-app''), (''redirect_uri'', ''https://portal.test/cb''),
     (''code_challenge'', ''cc''), (''code_challenge_method'', ''S256''), (''max_age'', ''60''), (''prompt'', ''none'')])
     \<lparr>rq_cookie := (\<lambda>k. if k = ''__Host-authbyte_sso'' then example_shared_id @ ''.'' @ example_secret else [])\<rparr>"

lemma shared_view:
  "v_shared (sees memory_view (example_env reg known) (example_world shared_entries)) example_shared_id = Some example_shared"
  "v_apps (sees memory_view (example_env reg known) (example_world shared_entries)) example_shared_id ''shop-app'' = Some ''S1''"
  unfolding sees_def memory_view_def view.select_convs
  by (simp_all add: lookup_live_def live_def live_apps_def shared_entries_def example_defs example_now_def of_unix_def second_def)

lemma shared_fresh:
  "v_sessions (sees memory_view (example_env reg known) (example_world shared_entries)) (raw_url_encode (en_rand (example_env reg known) n 24)) = None"
proof -
  have "length (raw_url_encode (en_rand (example_env reg known) n 24)) = 32"
    by (simp add: example_env_parts raw_url_len_def)
  moreover have "length X = 2" if "X = ''S1''" for X :: string using that by simp
  ultimately have "raw_url_encode (en_rand (example_env reg known) n 24) \<noteq> ''S1''" by fastforce
  then show ?thesis
    unfolding sees_def memory_view_def view.select_convs
    by (simp add: lookup_live_def live_def shared_entries_def example_defs example_entries_def)
qed

lemma example_ways: "example_way \<in> set (sh_ways example_shared)"
  by (simp add: example_shared_def keep_person_def keep_def)

lemma portal_asks:
  "\<exists>req. read_authorize open_env portal_request (query_params portal_request) (example_world shared_entries) = (Inr req, example_world shared_entries)
     \<and> fit_for open_env req example_shared example_way \<and> sa_max_age (ar_sign_ask req) = Some 60"
proof -
  let ?read = "fst (read_authorize open_env portal_request (query_params portal_request) (example_world shared_entries))"
  have "case ?read of Inr req \<Rightarrow> si_single_sign_on (ar_client req) \<and> \<not> sa_login (ar_sign_ask req) \<and> \<not> sa_select_account (ar_sign_ask req)
       \<and> way_fits open_env req example_way \<and> \<not> way_too_old open_env (ar_sign_ask req) example_way
       \<and> sh_serial_number example_shared \<noteq> [] \<and> sa_max_age (ar_sign_ask req) = Some 60
      | Inl _ \<Rightarrow> False"
    by code_simp
  then obtain req where req: "?read = Inr req" "fit_for open_env req example_shared example_way" "sa_max_age (ar_sign_ask req) = Some 60"
    using example_ways by (cases ?read) (simp_all add: fit_for_def)
  from read_authorize_Inr[OF ran[OF req(1)]] ran[OF req(1)]
  have "read_authorize open_env portal_request (query_params portal_request) (example_world shared_entries) = (Inr req, example_world shared_entries)"
    by (elim conjE) (simp only:)
  with req(2,3) show ?thesis by blast
qed

lemma staff_now: "0 \<le> en_now staff_env" and staff_steady: "steady_store (en_ops staff_env) memory_view"
  using mem_steady.steady_store_axioms
  by (simp_all only: staff_env_def example_env_parts) (simp add: example_now_def of_unix_def second_def)

lemma portal_holds: "holds_shared open_env portal_request example_shared_id example_shared"
  unfolding holds_shared_def by (rule exI[of _ example_secret]) code_simp

lemma shared_not_over: "\<not> shared_expired example_shared (en_now open_env)" and shared_id_plain: "CHR ''.'' \<notin> set example_shared_id"
  by code_simp+

lemma open_now: "0 \<le> en_now open_env" and open_steady: "steady_store (en_ops open_env) memory_view"
  using mem_steady.steady_store_axioms
  by (simp_all only: open_env_def example_env_parts) (simp add: example_now_def of_unix_def second_def)


lemma portal_answered:
  "\<exists>req st target w. answer_from_shared open_env portal_request req (example_world shared_entries) = (Inl (Redirect st target), w)"
proof -
  obtain req where fit: "fit_for open_env req example_shared example_way" "sa_max_age (ar_sign_ask req) = Some 60"
    using portal_asks by blast
  have free: "free_to_join open_env (ar_client_id req)" by (simp add: free_to_join_def open_env_def example_env_parts)
  note seen = shared_view(1)[of None "[]", folded open_env_def]
  obtain c where c: "op_load_shared (en_ops open_env) example_shared_id (en_now open_env) (wo_store (example_world shared_entries)) = (Inr example_shared, c)"
    "memory_view (en_now open_env) c = sees memory_view open_env (example_world shared_entries)"
    using steady_store.shared_there[OF open_steady open_now, of "wo_store (example_world shared_entries)"] seen shared_not_over by (auto simp: sees_def)
  have "sa_max_age (ar_sign_ask req) \<noteq> Some 0" using fit(2) by simp
  then obtain way' where way: "fit_for open_env req example_shared way'" "shared_way open_env req example_shared ((example_world shared_entries)\<lparr>wo_store := c\<rparr>)
      = (Inr (Some way', []), (example_world shared_entries)\<lparr>wo_store := c\<rparr>)"
    using shared_way_found[OF fit(1) _ free] by blast
  have "en_now open_env < w_ends way'" using way(1) by (simp add: fit_for_def way_fits_def)
  from silently_answered[OF open_steady open_now held_is_read[OF portal_holds shared_id_plain shared_not_over c(1)] way(2) _ shared_not_over this]
    seen shared_fresh[of None "[]", folded open_env_def] c(2)
  show ?thesis by (auto simp: sees_def)
qed

theorem silent_answer_fits_witness:
  "\<exists>req st target w i sid sess. answer_from_shared open_env portal_request req (example_world shared_entries) = (Inl (Redirect st target), w)
     \<and> v_shared (sees memory_view open_env w) i \<noteq> None \<and> v_sessions (sees memory_view open_env w) sid = Some sess"
proof -
  obtain req st target w where run: "answer_from_shared open_env portal_request req (example_world shared_entries) = (Inl (Redirect st target), w)"
    using portal_answered by (elim exE)
  from silent_answer_fits[OF steady_store.axioms(1)[OF open_steady] open_now run] run show ?thesis by blast
qed

theorem one_sign_out_ends_every_app_witness:
  "\<exists>r w. end_shared staff_env example_shared_id ''p1'' ''sign-out'' (example_world shared_entries) = (r, w)
     \<and> v_sessions (sees memory_view staff_env w) ''S1'' = None \<and> v_shared (sees memory_view staff_env w) example_shared_id = None"
proof -
  obtain r w where run: "end_shared staff_env example_shared_id ''p1'' ''sign-out'' (example_world shared_entries) = (r, w)" by fastforce
  note seen = shared_view[of "Some staff_register" "[]", folded staff_env_def]
  have "example_shared_id \<noteq> []" by (simp add: example_shared_id_def)
  from one_sign_out_ends_every_app[OF staff_steady staff_now this _ run] seen run show ?thesis by auto
qed

definition revoke_form :: request where
  "revoke_form = post_form [(''token'', ''r1''), (''client_id'', ''shop-app''), (''client_secret'', ''secret of shop-app'')] ''P1''"

lemma example_grants:
  "v_refresh (sees memory_view staff_env (example_world example_entries)) (refresh_key (en_crypto staff_env) ''r1'')
     = Some \<lparr>rg_session = ''S1'', rg_client = ''shop-app'', rg_rotated = False\<rparr>"
  "v_sessions (sees memory_view staff_env (example_world example_entries)) ''S1'' = Some example_session"
  "\<not> session_expired example_session (en_now staff_env)"
  unfolding sees_def memory_view_def view.select_convs
  by (simp_all add: lookup_live_def live_def session_expired_def example_grant_defs)


end
