(* ===== verification/Sign_In.thy ===== *)
theory Sign_In
  imports Shared_Session
begin

text \<open>
  The sign-in itself, \<open>src/routes/\<close>: the page and its choices (\<open>authorize.go\<close>, \<open>signin.go\<close>), the
  provider's answer on its return path (\<open>callback\<close>), the card's answer (\<open>webeid.go\<close>), the signing
  capabilities a login brings (\<open>capabilities.go\<close>), and the page on which a person chooses which
  assistant an AI app works as (\<open>aiapp.go\<close>).

  A recorded failure carries the constant words of its reason; what an error adds to them is left out.
\<close>

section \<open>The page\<close>

definition assistant_ticket_prefix :: string where "assistant_ticket_prefix = ''assistant:''"

definition is_assistant_ticket :: "string \<Rightarrow> bool" where
  "is_assistant_ticket state \<longleftrightarrow> has_prefix state assistant_ticket_prefix"

definition webeid_nonce :: "'c env \<Rightarrow> ('c world, 'e, string) act" where
  "webeid_nonce e = andthen (draw e 32) (\<lambda>b. ret (std_encode b))"

text \<open>A store that fails is answered 500 by every step of a sign-in.\<close>

definition save_flow :: "'c env \<Rightarrow> string \<Rightarrow> flow \<Rightarrow> ('c, unit) handler" where
  "save_flow e state f = recover (stored e (op_save_flow (en_ops e) state f flow_ttl)) (\<lambda>_. refuse Internal)"

definition request_query :: "authorize_request \<Rightarrow> string" where
  "request_query req = values_encode (ar_params req)"

definition start_card :: "'c env \<Rightarrow> authorize_request \<Rightarrow> string \<Rightarrow> ('c, card) handler" where
  "start_card e req binding =
     andthen (webeid_nonce e) (\<lambda>nonce.
     andthen (random_token e 24) (\<lambda>state.
     andthen (save_flow e state ((new_flow e req [login_webeid] binding True)\<lparr>f_webeid_nonce := nonce\<rparr>)) (\<lambda>_.
     ret \<lparr>card_action = ''/authorize/card?'' @ request_query req, card_nonce = nonce, card_state = state\<rparr>)))"

definition shown_ways :: "'c env \<Rightarrow> authorize_request \<Rightarrow> string list" where
  "shown_ways e req = (case page_ways e req (offered e (ar_client req)) of Some ws \<Rightarrow> ws | None \<Rightarrow> [])"

definition sign_in_page :: "'c env \<Rightarrow> request \<Rightarrow> authorize_request \<Rightarrow> string \<Rightarrow> string \<Rightarrow> page" where
  "sign_in_page e rq req binding notice =
     (let ways = shown_ways e req; p = bare_page Sign_In_Page (page_language e rq (sa_ui_locales (ar_sign_ask req))) in
      if ways = [] then p\<lparr>pg_next := ''/authorize?'' @ request_query req, pg_notice := ''none''\<rparr>
      else p\<lparr>pg_next := ''/authorize?'' @ request_query req, pg_ways := ways, pg_action := ''/authorize/choice?'' @ request_query req,
          pg_token := choice_token (en_crypto e) binding,
          pg_notice := (if notice \<in> {notice_cancelled, notice_provider, notice_expired, notice_no_script, notice_card_failed}
            then notice else [])\<rparr>)"

definition show_page_with :: "'c env \<Rightarrow> request \<Rightarrow> int \<Rightarrow> authorize_request \<Rightarrow> string \<Rightarrow> string \<Rightarrow> ('c, reply) handler" where
  "show_page_with e rq status req binding notice =
     (let p = sign_in_page e rq req binding notice in
      if login_webeid \<in> set (shown_ways e req) then
        andthen (start_card e req binding) (\<lambda>c.
        render_page e status (p\<lparr>pg_card := Some c\<rparr>) [web_origin (ar_redirect_uri req)])
      else render_page e status p [[]])"

definition show_page :: "'c env \<Rightarrow> request \<Rightarrow> authorize_request \<Rightarrow> string \<Rightarrow> string \<Rightarrow> ('c, reply) handler" where
  "show_page e rq req binding notice = show_page_with e rq 200 req binding notice"

section \<open>To the provider\<close>

definition return_address :: "'c env \<Rightarrow> up_entry \<Rightarrow> string" where
  "return_address e u = trim_suffix (cf_base_url (en_config e)) ''/'' @ ue_return_path u"

definition sent_flow :: "'c env \<Rightarrow> authorize_request \<Rightarrow> string list \<Rightarrow> string \<Rightarrow> bool \<Rightarrow> up_entry \<Rightarrow> string \<Rightarrow> flow" where
  "sent_flow e req ms binding from_page u nonce =
     (new_flow e req ms binding from_page)
       \<lparr>f_entrust_redirect_uri := return_address e u, f_upstream := ue_name u, f_nonce := nonce\<rparr>"

definition start_provider :: "'c env \<Rightarrow> authorize_request \<Rightarrow> string list \<Rightarrow> string \<Rightarrow> string \<Rightarrow> bool \<Rightarrow> ('c, reply) handler" where
  "start_provider e req ms binding locales from_page =
     (case provider_of e ms of
        None \<Rightarrow> refuse Not_Found_Problem
      | Some u \<Rightarrow>
          andthen (random_token e 24) (\<lambda>state.
          andthen (random_token e 24) (\<lambda>nonce.
          andthen (save_flow e state (sent_flow e req ms binding from_page u nonce)) (\<lambda>_.
          let target = authorize_url (ue_prov u)
             \<lparr>au_state = state, au_redirect_uri = return_address e u, au_acr_values = upstream_acr (acr_for u) ms,
              au_ui_locales = locales, au_prompt = upstream_prompt (ar_sign_ask req), au_max_age = sa_max_age (ar_sign_ask req),
              au_nonce = nonce\<rparr> in
          if from_page then see_other target else redirect_to target))))"

definition login_required :: "auth_error" where
  "login_required = (''login_required'', ''the person must sign in'')"

definition refuse_request :: "'c env \<Rightarrow> authorize_request \<Rightarrow> auth_error \<Rightarrow> ('c, 'a) handler" where
  "refuse_request e req err = refuse_at_client e (ar_redirect_uri req) (ar_spa_state req) err"

definition authorize :: "'c env \<Rightarrow> request \<Rightarrow> ('c, reply) handler" where
  "authorize e rq =
     andthen (read_authorize e rq (request_params rq)) (\<lambda>req.
     if rq_method rq = ''POST'' \<and> browser_binding e rq = [] then see_other (''/authorize?'' @ request_query req)
     else
       andthen (answer_from_shared e rq req) (\<lambda>_.
       if sa_none (ar_sign_ask req) then refuse_request e req login_required
       else
         andthen (bind_browser e rq) (\<lambda>binding.
         if page_ways e req (offered e (ar_client req)) \<noteq> None then
           andthen (take_notice e rq) (\<lambda>notice. show_page e rq req binding notice)
         else start_provider e req (ar_named req) binding (sa_ui_locales (ar_sign_ask req)) False)))"

section \<open>What a login brings\<close>

text \<open>The identity store's answer to a login (\<open>EnsureMapping\<close>), the call counted and kept.\<close>

definition ensure_mapping :: "'c env \<Rightarrow> string \<Rightarrow> person_profile \<Rightarrow> ('c world, people_error, string \<times> bool) act" where
  "ensure_mapping e idp p w =
     (pe_ensure (en_people e) (length (wo_people w)) idp p, w\<lparr>wo_people := wo_people w @ [Ensure_Mapping idp p]\<rparr>)"

datatype sign_in_error = Method_Not_Requested | Mapping_Failed

definition login_profile :: "ident \<Rightarrow> string \<Rightarrow> person_profile" where
  "login_profile i provider =
     \<lparr>pp_name = id_name i, pp_given_name = id_given_name i, pp_family_name = id_family_name i,
      pp_serial_number = id_serial_number i, pp_login_method = id_login_method i, pp_email = id_email i, pp_provider = provider\<rparr>"

definition new_session :: "ident \<Rightarrow> string \<Rightarrow> session" where
  "new_session i subject =
     empty_session\<lparr>s_subject := subject, s_name := id_name i, s_given_name := id_given_name i, s_family_name := id_family_name i,
       s_serial_number := id_serial_number i, s_loa := id_loa i, s_login_method := id_login_method i,
       s_directory_issuer := id_issuer i, s_directory_guest := id_directory_guest i\<rparr>"

definition establish_session :: "'c env \<Rightarrow> flow \<Rightarrow> ident \<Rightarrow> string \<Rightarrow> ('c world, sign_in_error, session \<times> string) act" where
  "establish_session e f i provider =
     (if \<not> method_requested (f_requested_methods f) (id_login_method i) then stop Method_Not_Requested
      else
        andthen (recover (ensure_mapping e (id_idp_subject i) (login_profile i provider)) (\<lambda>_. stop Mapping_Failed)) (\<lambda>(subject, created).
        andthen (change (\<lambda>w. w\<lparr>wo_events := wo_events w @ [Identity_Written subject (id_loa i) created]\<rparr>)) (\<lambda>_.
        andthen (random_token e 24) (\<lambda>sid. ret (new_session i subject, sid)))))"

definition cert_or_none :: "up_error + string \<Rightarrow> string" where
  "cert_or_none r = (case r of Inr c \<Rightarrow> c | Inl _ \<Rightarrow> [])"

definition capture_capabilities :: "sign_in_client option \<Rightarrow> provider \<Rightarrow> string \<Rightarrow> user_info \<Rightarrow> string \<Rightarrow> capabilities option" where
  "capture_capabilities c p access u m =
     (case (c, ui_sign_identities u) of
        (Some row, Some catalog) \<Rightarrow>
          if \<not> si_signing row \<or> \<not> catalog_enabled p then None
          else
            let cert = (\<lambda>i. cert_or_none (sign_identity_cert p access i)) in
            Some \<lparr>cap_sign_identity = (case select_signing catalog m of Some s \<Rightarrow> sg_id s | None \<Rightarrow> []),
              cap_signing_certificate = (case select_signing catalog m of Some s \<Rightarrow> cert (sg_id s) | None \<Rightarrow> []),
              cap_auth_certificate = (case select_auth catalog m of Some s \<Rightarrow> cert (sg_id s) | None \<Rightarrow> []),
              cap_seals = map (\<lambda>(i, label). \<lparr>seal_id = i, seal_label = label, seal_certificate = cert i\<rparr>) (seals catalog),
              cap_seals_known = True\<rparr>
      | _ \<Rightarrow> None)"

definition card_capabilities :: "sign_in_client option \<Rightarrow> card_reader \<Rightarrow> string \<Rightarrow> capabilities option" where
  "card_capabilities c r tok =
     (case c of
        Some row \<Rightarrow>
          if \<not> si_signing row \<or> cr_certificate r tok = [] then None
          else Some \<lparr>cap_sign_identity = [], cap_signing_certificate = [], cap_auth_certificate = cr_certificate r tok,
            cap_seals = [], cap_seals_known = False\<rparr>
      | None \<Rightarrow> None)"

definition save_signed_in :: "'c env \<Rightarrow> request \<Rightarrow> string \<Rightarrow> string \<Rightarrow> session \<Rightarrow> ('c, session) handler" where
  "save_signed_in e rq client sid sess =
     (if is_ai_app e client then
        recover (stored e (op_create_session (en_ops e) sid sess (cf_session_ttl (en_config e)))) (\<lambda>_. refuse Internal)
      else
        andthen (join_shared e rq sess) (\<lambda>(i, till).
        andthen (recover (stored e (op_create_session (en_ops e) sid (sess\<lparr>s_shared := i\<rparr>) (cf_session_ttl (en_config e))))
           (\<lambda>_. refuse Internal)) (\<lambda>sess'.
        andthen (add_shared_app e i till client sid) (\<lambda>_. ret sess'))))"

section \<open>An AI app's sign-in ends on the assistant page\<close>

definition assistant_page :: "'c env \<Rightarrow> request \<Rightarrow> string \<Rightarrow> string \<Rightarrow> assistant list \<Rightarrow> page" where
  "assistant_page e rq binding ticket own =
     (bare_page Assistant_Page (page_language e rq []))
       \<lparr>pg_action := ''/authorize/assistant?'' @ values_encode [(''ticket'', [ticket])],
        pg_token := choice_token (en_crypto e) binding, pg_ways := map assistant_way own\<rparr>"

definition app_origins :: "sign_in_client \<Rightarrow> string list" where
  "app_origins app =
     (let back = (case si_redirect_uris app of u # _ \<Rightarrow> web_origin u | [] \<Rightarrow> []) in
      back # filter (\<lambda>u. u \<noteq> [] \<and> u \<noteq> back) (map web_origin (si_redirect_uris app)))"

definition show_assistant_page :: "'c env \<Rightarrow> request \<Rightarrow> sign_in_client \<Rightarrow> string \<Rightarrow> assistant list \<Rightarrow> ('c, reply) handler" where
  "show_assistant_page e rq app ticket own =
     andthen (bind_browser e rq) (\<lambda>binding.
     if own = [] then render_page e 403 ((bare_page Assistant_Page (page_language e rq []))\<lparr>pg_notice := ''none''\<rparr>) []
     else render_page e 200 (assistant_page e rq binding ticket own) (app_origins app))"

definition ask_assistant :: "'c env \<Rightarrow> request \<Rightarrow> sign_in_client \<Rightarrow> flow \<Rightarrow> string \<Rightarrow> session \<Rightarrow> ('c, reply) handler" where
  "ask_assistant e rq app f sid sess =
     andthen (random_token e 24) (\<lambda>ticket.
     andthen (save_flow e (assistant_ticket_prefix @ ticket) (f\<lparr>f_session_id := sid\<rparr>)) (\<lambda>_.
     andthen (recover (persons_assistants e (s_subject sess)) (register_unavailable (person_key (s_subject sess)))) (\<lambda>own.
     show_assistant_page e rq app ticket own)))"

section \<open>The provider's answer\<close>

definition start_again :: "'c env \<Rightarrow> request \<Rightarrow> ('c, 'a) handler" where
  "start_again e rq = cannot_start e rq 401 Unauthorized []"

definition returned_here :: "'c env \<Rightarrow> request \<Rightarrow> flow \<Rightarrow> ('c, unit) handler" where
  "returned_here e rq f =
     (if bound_here e rq (f_binding f) then ret ()
      else andthen (record_event (Login_Failure ''the provider's answer reached a browser that did not start the sign-in'')) (\<lambda>_.
        start_again e rq))"

definition sent_to :: "'c env \<Rightarrow> flow \<Rightarrow> up_entry \<Rightarrow> bool" where
  "sent_to e f u \<longleftrightarrow> f_upstream f = ue_name u \<or> f_upstream f = [] \<and> length (en_upstreams e) = 1"

definition answered_by :: "'c env \<Rightarrow> request \<Rightarrow> flow \<Rightarrow> up_entry \<Rightarrow> ('c, unit) handler" where
  "answered_by e rq f u =
     (if \<not> sent_to e f u then
        andthen (record_event (Login_Failure ''the provider's answer arrived on another provider's return path'')) (\<lambda>_.
        start_again e rq)
      else (case query_string rq ''iss'' of
          Some iss \<Rightarrow>
            if pv_issuer (ue_prov u) \<noteq> [] \<and> iss \<noteq> pv_issuer (ue_prov u) then
              andthen (record_event (Login_Failure ''the provider's answer names another issuer'')) (\<lambda>_.
              start_again e rq)
            else ret ()
        | None \<Rightarrow> ret ()))"

definition provider_refused :: "'c env \<Rightarrow> request \<Rightarrow> up_entry \<Rightarrow> string \<Rightarrow> ('c, 'a) handler" where
  "provider_refused e rq u err =
     andthen (record_event (Login_Failure (''eParaksts IdP returned an error: '' @ err))) (\<lambda>_.
     case query_string rq ''state'' of
       None \<Rightarrow> start_again e rq
     | Some state \<Rightarrow>
         if is_assistant_ticket state then start_again e rq
         else
           andthen (recover (stored e (op_consume_flow (en_ops e) state)) (\<lambda>_. start_again e rq)) (\<lambda>f.
           andthen (returned_here e rq f) (\<lambda>_.
           andthen (answered_by e rq f u) (\<lambda>_.
           if f_picker f then
             andthen (set_cookie e rq notice_cookie (if err = ''access_denied'' then notice_cancelled else notice_provider) notice_lifetime) (\<lambda>_.
             redirect_to (''/authorize?'' @ f_request f))
           else redirect_to (append_error_state (f_app_redirect_uri f) (issuer_id e) err
             (case query_string rq ''error_description'' of Some d \<Rightarrow> d | None \<Rightarrow> []) (f_spa_state f))))))"

text \<open>The answer's code, and the sign-in it completes: begun in this browser and sent to this provider.\<close>

definition returned_flow :: "'c env \<Rightarrow> request \<Rightarrow> up_entry \<Rightarrow> ('c, string \<times> flow) handler" where
  "returned_flow e rq u =
     andthen (need_query rq ''code'') (\<lambda>code.
     andthen (need_query rq ''state'') (\<lambda>state.
     if is_assistant_ticket state then start_again e rq
     else
       andthen (recover (stored e (op_consume_flow (en_ops e) state)) (\<lambda>_. start_again e rq)) (\<lambda>f.
       andthen (returned_here e rq f) (\<lambda>_.
       andthen (answered_by e rq f u) (\<lambda>_.
       ret (code, f))))))"

definition read_person :: "'c env \<Rightarrow> up_entry \<Rightarrow> flow \<Rightarrow> string \<Rightarrow> ('c, idp_tokens \<times> user_info) handler" where
  "read_person e u f code =
     andthen (from_sum (exchange (ue_prov u) code (f_entrust_redirect_uri f)) (\<lambda>_. refuse Internal)) (\<lambda>ts.
     andthen (from_sum (claims (en_codes e) (ue_prov u) ts (f_nonce f)) (\<lambda>err.
        case err of
          Identity_Code_Refused _ \<Rightarrow> andthen (record_event (Login_Failure ''upstream identity code'')) (\<lambda>_. refuse Unauthorized)
        | ID_Token_Refused \<Rightarrow> andthen (record_event (Login_Failure ''upstream id_token'')) (\<lambda>_. refuse Unauthorized)
        | _ \<Rightarrow> refuse Internal)) (\<lambda>info.
     ret (ts, info)))"

definition refuse_sign_in :: "'c env \<Rightarrow> flow \<Rightarrow> string \<Rightarrow> string \<Rightarrow> ('c, 'a) handler" where
  "refuse_sign_in e f reason description =
     andthen (record_event (Login_Failure reason)) (\<lambda>_.
     redirect_to (append_error_state (f_app_redirect_uri f) (issuer_id e) ''unmet_authentication_requirements'' description (f_spa_state f)))"

text \<open>The person's new session: who the provider says signed in, by a method it may use and the request
  asked for, recently enough.\<close>

definition provider_session :: "'c env \<Rightarrow> up_entry \<Rightarrow> flow \<Rightarrow> idp_tokens \<times> user_info \<Rightarrow> ('c, session \<times> string) handler" where
  "provider_session e u f = (\<lambda>(ts, info).
     let i = resolve (provider_resolver (ue_prov u)) info; m = id_login_method i in
     if \<not> method_allowed (ue_prov u) m then
       andthen (record_event (Login_Failure (''login method not permitted via the upstream IdP: '' @ m))) (\<lambda>_. refuse Forbidden)
     else (case sign_in_moment info f (en_now e) of
         None \<Rightarrow> refuse_sign_in e f ''authentication older than the client allows'' ''the sign-in is older than the request allows''
       | Some t0 \<Rightarrow>
           andthen (recover (establish_session e f i (ue_key u)) (\<lambda>err.
              case err of
                Method_Not_Requested \<Rightarrow> refuse_sign_in e f (''login method not requested: '' @ m)
                  ''the sign-in used a login method the request did not ask for''
              | Mapping_Failed \<Rightarrow> andthen (record_event (Login_Failure ''session establishment failed'')) (\<lambda>_. refuse Internal))) (\<lambda>(sess, sid).
           andthen (stamp_sign_in e (sess\<lparr>s_capabilities := capture_capabilities (sign_in_client_of (en_registry e) (f_client_id f))
              (ue_prov u) (idt_access ts) info m\<rparr>) t0 (registered_amr (ui_amr info))) (\<lambda>sess'.
           ret (sess', sid)))))"

definition flow_code :: "flow \<Rightarrow> string \<Rightarrow> app_code" where
  "flow_code f sid =
     \<lparr>ac_session_id = sid, ac_code_challenge = f_code_challenge f, ac_code_challenge_method = f_code_challenge_method f,
      ac_client_id = f_client_id f, ac_redirect_uri = f_app_redirect_uri f, ac_tenant = f_tenant f,
      ac_openid = f_openid f, ac_nonce = f_client_nonce f, ac_assistant = [], ac_app_scopes = []\<rparr>"

definition make_code :: "'c env \<Rightarrow> app_code \<Rightarrow> ('c, string) handler" where
  "make_code e ac =
     andthen (random_token e 24) (\<lambda>code.
     andthen (recover (stored e (op_save_app_code (en_ops e) code ac app_code_ttl)) (\<lambda>_. refuse Internal)) (\<lambda>_. ret code))"

definition callback :: "'c env \<Rightarrow> request \<Rightarrow> up_entry \<Rightarrow> ('c, reply) handler" where
  "callback e rq u =
     (case query_string rq ''error'' of
        Some err \<Rightarrow> provider_refused e rq u err
      | None \<Rightarrow>
          andthen (returned_flow e rq u) (\<lambda>(code, f).
          andthen (read_person e u f code) (\<lambda>who.
          andthen (provider_session e u f who) (\<lambda>(sess, sid).
          andthen (save_signed_in e rq (f_client_id f) sid sess) (\<lambda>sess'.
          andthen (record_event (Login_Success (s_subject sess') (s_loa sess') (s_login_method sess'))) (\<lambda>_.
          case ai_app (en_registry e) (f_client_id f) of
            Some app \<Rightarrow> ask_assistant e rq app f sid sess'
          | None \<Rightarrow>
              andthen (make_code e (flow_code f sid)) (\<lambda>app_code.
              redirect_to (append_code_state (f_app_redirect_uri f) (issuer_id e) app_code (f_spa_state f)))))))))"

section \<open>The page's choices\<close>

definition own_page :: "'c env \<Rightarrow> request \<Rightarrow> string \<Rightarrow> ('c, unit) handler" where
  "own_page e rq reason =
     (if from_own_page e rq then ret ()
      else andthen (record_event (Login_Failure reason)) (\<lambda>_. cannot_start e rq 403 Forbidden []))"

definition page_token :: "'c env \<Rightarrow> request \<Rightarrow> string \<Rightarrow> string \<Rightarrow> ('c, unit) handler" where
  "page_token e rq binding reason =
     (if peek rq ''csrf'' = choice_token (en_crypto e) binding then ret ()
      else andthen (record_event (Login_Failure reason)) (\<lambda>_. cannot_start e rq 403 Forbidden []))"

definition page_again :: "'c env \<Rightarrow> request \<Rightarrow> authorize_request \<Rightarrow> string \<Rightarrow> ('c, reply) handler" where
  "page_again e rq req notice = andthen (bind_browser e rq) (\<lambda>b. show_page e rq req b notice)"

definition choose_way :: "'c env \<Rightarrow> request \<Rightarrow> ('c, reply) handler" where
  "choose_way e rq =
     andthen (own_page e rq ''sign-in choice sent from another origin'') (\<lambda>_.
     andthen (read_authorize e rq (query_params rq)) (\<lambda>req.
     if sa_none (ar_sign_ask req) then refuse_request e req login_required
     else (case page_ways e req (offered e (ar_client req)) of
         None \<Rightarrow> cannot_start e rq 400 (Param_Invalid ''acr_values'') []
       | Some ways \<Rightarrow>
           let binding = browser_binding e rq; way = peek rq ''way'' in
           if binding = [] then page_again e rq req notice_expired
           else
             andthen (page_token e rq binding ''sign-in choice without the page's token'') (\<lambda>_.
             if way \<notin> set ways then
               andthen (record_event (Login_Failure ''sign-in choice names a way the page did not offer'')) (\<lambda>_.
               cannot_start e rq 403 Forbidden [])
             else if way = login_webeid then page_again e rq req notice_no_script
             else
               andthen (bind_browser e rq) (\<lambda>_.
               start_provider e req [way] binding (page_language e rq (sa_ui_locales (ar_sign_ask req))) True)))))"

section \<open>The card's answer\<close>

definition webeid_identity :: "codes \<Rightarrow> card_subject \<Rightarrow> code_error + ident" where
  "webeid_identity cl s =
     (case code_canonical cl (cs_id_code s) (cs_country s) of
        Inl err \<Rightarrow> Inl err
      | Inr code \<Rightarrow>
          let name = trim_space (cs_given_name s @ '' '' @ cs_surname s) in
          Inr \<lparr>id_subject = [], id_idp_subject = code, id_name = (if name = [] then cs_common_name s else name),
            id_given_name = cs_given_name s, id_family_name = cs_surname s, id_serial_number = code, id_email = [],
            id_loa = ''high'', id_login_method = login_webeid, id_issuer = [], id_directory_guest = False\<rparr>)"

text \<open>The engine's adapter refuses an empty answer or challenge before it asks. With no card reader wired
  the card is never offered, so its answer is never looked at.\<close>

definition card_validate :: "card_reader option \<Rightarrow> string \<Rightarrow> string \<Rightarrow> card_subject option" where
  "card_validate r tok nonce =
     (if tok = [] \<or> nonce = [] then None else Option.bind r (\<lambda>r. cr_validate r tok nonce))"

datatype card_stop = Card_Refused | Card_Answered reply

definition answering :: "('c, 'a) handler \<Rightarrow> ('c world, card_stop, 'a) act" where
  "answering m = recover m (\<lambda>r. stop (Card_Answered r))"

definition card_refused :: "string \<Rightarrow> ('c world, card_stop, 'a) act" where
  "card_refused reason = andthen (answering (record_event (Login_Failure reason))) (\<lambda>_. stop Card_Refused)"

definition card_session :: "'c env \<Rightarrow> flow \<Rightarrow> string \<Rightarrow> ('c world, card_stop, session \<times> string) act" where
  "card_session e f tok =
     (case card_validate (en_card e) tok (f_webeid_nonce f) of
        None \<Rightarrow> card_refused ''web eid token validation failed''
      | Some subj \<Rightarrow>
          (case webeid_identity (en_codes e) subj of
             Inl _ \<Rightarrow> card_refused ''web eid identity code''
           | Inr i \<Rightarrow>
               andthen (recover (establish_session e f i provider_webeid) (\<lambda>err.
                  case err of
                    Method_Not_Requested \<Rightarrow> card_refused (''login method not requested: '' @ login_webeid)
                  | Mapping_Failed \<Rightarrow> answering (andthen (record_event (Login_Failure ''session establishment failed'')) (\<lambda>_. refuse Internal))))
               (\<lambda>(sess, sid).
               andthen (answering (stamp_sign_in e (sess\<lparr>s_capabilities := card_capabilities
                  (sign_in_client_of (en_registry e) (f_client_id f)) (the (en_card e)) tok\<rparr>) (unix (en_now e)) card_amr)) (\<lambda>sess'.
               ret (sess', sid)))))"

definition complete_card :: "'c env \<Rightarrow> request \<Rightarrow> flow \<Rightarrow> string \<Rightarrow> ('c world, card_stop, string) act" where
  "complete_card e rq f tok =
     andthen (card_session e f tok) (\<lambda>(sess, sid).
     andthen (answering (save_signed_in e rq (f_client_id f) sid sess)) (\<lambda>sess'.
     case ai_app (en_registry e) (f_client_id f) of
       Some app \<Rightarrow>
         andthen (answering (record_event (Login_Success (s_subject sess') (s_loa sess') (s_login_method sess')))) (\<lambda>_.
         andthen (answering (ask_assistant e rq app f sid sess')) (\<lambda>r. stop (Card_Answered r)))
     | None \<Rightarrow>
         andthen (answering (make_code e (flow_code f sid))) (\<lambda>code.
         andthen (answering (record_event (Login_Success (s_subject sess') (s_loa sess') (s_login_method sess')))) (\<lambda>_.
         ret code))))"

definition card_flow :: "'c env \<Rightarrow> request \<Rightarrow> authorize_request \<Rightarrow> ('c world, store_error, flow) act" where
  "card_flow e rq req =
     (let state = peek rq ''state'' in
      if is_assistant_ticket state then stop Not_Found
      else
        andthen (stored e (op_consume_flow (en_ops e) state)) (\<lambda>f.
        if f_webeid_nonce f = [] \<or> f_binding f = [] \<or> f_client_id f \<noteq> ar_client_id req then stop Not_Found else ret f))"

definition card_answer :: "'c env \<Rightarrow> request \<Rightarrow> ('c, reply) handler" where
  "card_answer e rq =
     andthen (own_page e rq ''card answer sent from another origin'') (\<lambda>_.
     andthen (read_authorize e rq (query_params rq)) (\<lambda>req.
     if sa_none (ar_sign_ask req) then refuse_request e req login_required
     else if login_webeid \<notin> set (shown_ways e req) then
       andthen (record_event (Login_Failure ''card answer for a request the card is not offered to'')) (\<lambda>_.
       cannot_start e rq 403 Forbidden [])
     else
       let binding = browser_binding e rq in
       if binding = [] then page_again e rq req notice_expired
       else
         andthen (page_token e rq binding ''card answer without the page's token'') (\<lambda>_.
         andthen (attempt (card_flow e rq req)) (\<lambda>found.
         case found of
           Inl _ \<Rightarrow> page_again e rq req notice_expired
         | Inr f \<Rightarrow>
             if \<not> bound_here e rq (f_binding f) then
               andthen (record_event (Login_Failure ''card answer in a browser the sign-in did not start in'')) (\<lambda>_.
               start_again e rq)
             else
               andthen (bind_browser e rq) (\<lambda>_.
               andthen (attempt (complete_card e rq f (peek rq ''token''))) (\<lambda>done.
               case done of
                 Inl (Card_Answered r) \<Rightarrow> stop r
               | Inl Card_Refused \<Rightarrow> show_page_with e rq 401 req binding notice_card_failed
               | Inr code \<Rightarrow> see_other (append_code_state (f_app_redirect_uri f) (issuer_id e) code (f_spa_state f))))))))"

section \<open>The language, and the assistant\<close>

definition choose_language :: "'c env \<Rightarrow> request \<Rightarrow> ('c, reply) handler" where
  "choose_language e rq =
     andthen (case query_string rq ''lang'' of
         Some l \<Rightarrow> if l \<in> set languages then set_cookie e rq language_cookie l lang_lifetime else ret ()
       | None \<Rightarrow> ret ()) (\<lambda>_.
     see_other (case query_string rq ''next'' of
         Some n \<Rightarrow>
           (case cut_prefix n ''/authorize?'' of
              Some q \<Rightarrow> if query_ok q then ''/authorize?'' @ values_encode (parse_query q) else ''/authorize''
            | None \<Rightarrow> ''/authorize'')
       | None \<Rightarrow> ''/authorize''))"

definition choose_assistant :: "'c env \<Rightarrow> request \<Rightarrow> ('c, reply) handler" where
  "choose_assistant e rq =
     (let binding = browser_binding e rq in
      andthen (own_page e rq ''assistant choice sent from another origin'') (\<lambda>_.
      andthen (if binding = [] \<or> peek rq ''csrf'' \<noteq> choice_token (en_crypto e) binding then
           andthen (record_event (Login_Failure ''assistant choice without the page's token'')) (\<lambda>_. cannot_start e rq 403 Forbidden [])
         else ret ()) (\<lambda>_.
      andthen (from_option (query_string rq ''ticket'') (cannot_start e rq 400 (Param_Required ''ticket'') [])) (\<lambda>ticket.
      andthen (recover (stored e (op_consume_flow (en_ops e) (assistant_ticket_prefix @ ticket))) (\<lambda>_. start_again e rq)) (\<lambda>f.
      if f_session_id f = [] then start_again e rq
      else if \<not> bound_here e rq (f_binding f) then
        andthen (record_event (Login_Failure ''assistant choice in a browser the sign-in did not start in'')) (\<lambda>_. start_again e rq)
      else if \<not> is_ai_app e (f_client_id f) then start_again e rq
      else
        andthen (recover (stored e (op_load_session (en_ops e) (f_session_id f))) (\<lambda>_. start_again e rq)) (\<lambda>sess.
        andthen (recover (persons_assistants e (s_subject sess)) (register_unavailable (person_key (s_subject sess)))) (\<lambda>own.
        case first (\<lambda>a. assistant_way a = peek rq ''way'') own of
          None \<Rightarrow>
            andthen (record_event (Login_Failure ''assistant choice names no assistant of the person's'')) (\<lambda>_.
            cannot_start e rq 403 Forbidden [])
        | Some a \<Rightarrow>
            andthen (recover (stored e (op_replace_session (en_ops e) (f_session_id f)
               (sess\<lparr>s_client_id := f_client_id f, s_tenant := a_tenant a, s_assistant := a_key a, s_app_scopes := f_app_scopes f\<rparr>)))
               (\<lambda>_. start_again e rq)) (\<lambda>_.
            andthen (make_code e ((flow_code f (f_session_id f))\<lparr>ac_tenant := a_tenant a, ac_openid := False, ac_nonce := [],
               ac_assistant := a_key a, ac_app_scopes := f_app_scopes f\<rparr>)) (\<lambda>code.
            see_other (append_code_state (f_app_redirect_uri f) (issuer_id e) code (f_spa_state f)))))))))))"

end
