(* ===== verification/Sign_In_Correct.thy ===== *)
theory Sign_In_Correct
  imports Sign_In
begin

text \<open>
  What the sign-in guarantees. The first part says what each of its steps leaves in the store and what it
  means that a step went through; then come the properties of a provider's answer (it signs a person in
  only where the sign-in began, and an answer that is all right is completed) and of the shared session the
  browser is left with, and the example they are applied to.
\<close>

section \<open>What the steps of a sign-in leave\<close>

lemma storeless_change_events [storeless_intros]: "storeless (change (\<lambda>w. w\<lparr>wo_events := g w\<rparr>))"
  by (simp add: storeless_def keeps_def)

lemma storeless_Pair [storeless_intros]: "storeless (Pair r)"
  by (simp add: storeless_def keeps_def)

lemma storeless_ensure [storeless_intros]: "storeless (ensure_mapping e idp p)"
  by (rule storelessI) (auto simp: ensure_mapping_def)

lemma storeless_start_again [storeless_intros]: "storeless (start_again e rq)"
  unfolding start_again_def by (intro storeless_intros)

lemma storeless_need_query [storeless_intros]: "storeless (need_query rq k)"
  unfolding need_query_def by (intro storeless_intros)

lemma storeless_stamp [storeless_intros]: "storeless (stamp_sign_in e s t0 amr)"
  unfolding stamp_sign_in_def by (intro storeless_intros)

lemma storeless_refuse_sign_in [storeless_intros]: "storeless (refuse_sign_in e f reason description)"
  unfolding refuse_sign_in_def by (intro storeless_intros)

lemma storeless_read_person [storeless_intros]: "storeless (read_person e u f code)"
  unfolding read_person_def by (auto intro!: storeless_intros split: up_error.splits)

lemma storeless_establish [storeless_intros]: "storeless (establish_session e f i provider)"
  unfolding establish_session_def by (auto intro!: storeless_intros split: prod.splits)

lemma storeless_provider_session [storeless_intros]: "storeless (provider_session e u f who)"
  unfolding provider_session_def Let_def
  by (auto intro!: storeless_intros split: prod.splits option.splits sign_in_error.splits)

lemma storeless_checks [storeless_intros]:
  "storeless (returned_here e rq f)" "storeless (answered_by e rq f u)" "storeless (own_page e rq reason)"
  "storeless (page_token e rq binding reason)"
  unfolding returned_here_def answered_by_def own_page_def page_token_def
  by (auto intro!: storeless_intros split: option.splits)

lemma storeless_show_assistant_page [storeless_intros]: "storeless (show_assistant_page e rq app ticket own)"
  unfolding show_assistant_page_def by (intro storeless_intros)

lemmas leaves_plain = storeless_steps[THEN leaves_storeless] storeless_browser[THEN leaves_storeless]
  storeless_Pair[THEN leaves_storeless]

context session_store begin

text \<open>An operation leaves every part of the view but the one it writes.\<close>

lemma leaves_flow_ops:
  assumes "0 \<le> en_now e" "\<And>v x. F (v\<lparr>v_flows := x\<rparr>) = F v"
  shows "leaves V e F (stored e (op_save_flow ops k f flow_ttl))" "leaves V e F (stored e (op_consume_flow ops k))"
proof -
  have ttl: "0 < flow_ttl" by (simp add: flow_ttl_def second_def)
  show "leaves V e F (stored e (op_save_flow ops k f flow_ttl))"
    by (rule leaves_stored[where V = V and e = e and op = "op_save_flow ops k f flow_ttl", OF save_flow[OF assms(1) ttl]]) (auto simp: spec_defs assms(2))
  show "leaves V e F (stored e (op_consume_flow ops k))"
    by (rule leaves_stored[where V = V and e = e and op = "op_consume_flow ops k", OF consume_flow[OF assms(1)]])
      (auto simp: spec_defs assms(2) split: option.splits)
qed

lemma leaves_save_code:
  assumes "0 \<le> en_now e" "\<And>v x. F (v\<lparr>v_codes := x\<rparr>) = F v"
  shows "leaves V e F (stored e (op_save_app_code ops k c app_code_ttl))"
proof -
  have ttl: "0 < app_code_ttl" by (simp add: app_code_ttl_def second_def)
  show ?thesis
    by (rule leaves_stored[where V = V and e = e and op = "op_save_app_code ops k c app_code_ttl", OF save_app_code[OF assms(1) ttl]])
      (auto simp: spec_defs assms(2))
qed

lemma leaves_session_ops:
  assumes "0 \<le> en_now e" "\<And>v x. F (v\<lparr>v_sessions := x\<rparr>) = F v"
  shows "0 < life \<Longrightarrow> leaves V e F (stored e (op_create_session ops sid s life))" "leaves V e F (stored e (op_replace_session ops sid s))"
    "leaves V e F (stored e (op_delete_session ops sid))"
proof -
  show "leaves V e F (stored e (op_create_session ops sid s life))" if "0 < life"
    by (rule leaves_stored[where V = V and e = e and op = "op_create_session ops sid s life", OF create_session[OF assms(1) that]])
      (auto simp: spec_defs Let_def assms(2) split: if_splits)
  show "leaves V e F (stored e (op_replace_session ops sid s))"
    by (rule leaves_stored[where V = V and e = e and op = "op_replace_session ops sid s", OF replace_session[OF assms(1)]])
      (auto simp: spec_defs assms(2) split: if_splits)
  show "leaves V e F (stored e (op_delete_session ops sid))"
    by (rule leaves_stored[where V = V and e = e and op = "op_delete_session ops sid", OF delete_session[OF assms(1)]])
      (auto simp: spec_defs assms(2))
qed

lemma leaves_shared_ops:
  assumes "0 \<le> en_now e" "\<And>v x. F (v\<lparr>v_shared := x\<rparr>) = F v" "\<And>v x. F (v\<lparr>v_apps := x\<rparr>) = F v"
  shows "leaves V e F (stored e (op_create_shared ops i sh))" "leaves V e F (stored e (op_replace_shared ops i sh))"
    "leaves V e F (stored e (op_put_shared_app ops i client sid till))" "leaves V e F (stored e (op_end_shared ops i))"
proof -
  show "leaves V e F (stored e (op_create_shared ops i sh))"
    by (rule leaves_stored[where V = V and e = e and op = "op_create_shared ops i sh", OF create_shared[OF assms(1)]])
      (auto simp: spec_defs assms split: if_splits)
  show "leaves V e F (stored e (op_replace_shared ops i sh))"
    by (rule leaves_stored[where V = V and e = e and op = "op_replace_shared ops i sh", OF replace_shared[OF assms(1)]])
      (auto simp: spec_defs assms split: if_splits)
  show "leaves V e F (stored e (op_put_shared_app ops i client sid till))"
    by (rule leaves_stored[where V = V and e = e and op = "op_put_shared_app ops i client sid till", OF put_shared_app[OF assms(1)]])
      (auto simp: spec_defs assms split: if_splits)
  have both: "F (v\<lparr>v_shared := x, v_apps := y\<rparr>) = F v" for v x y
    using assms(3)[where v = "v\<lparr>v_shared := x\<rparr>" and x = y] assms(2)[where v = v and x = x] by simp
  show "leaves V e F (stored e (op_end_shared ops i))"
    by (rule leaves_stored[where V = V and e = e and op = "op_end_shared ops i", OF end_shared[OF assms(1)]])
      (auto simp: spec_defs assms both split: if_splits)
qed

text \<open>The shared session's steps write shared sessions, their lists, and end sessions with what renews them.\<close>

lemma leaves_join_shared:
  assumes now: "0 \<le> en_now e" and ops: "en_ops e = ops"
    and F: "\<And>v x. F (v\<lparr>v_shared := x\<rparr>) = F v" "\<And>v x. F (v\<lparr>v_apps := x\<rparr>) = F v"
      "\<And>v x. F (v\<lparr>v_sessions := x\<rparr>) = F v" "\<And>v x. F (v\<lparr>v_refresh := x\<rparr>) = F v"
  shows "leaves V e F (end_app_sessions e sids)" "leaves V e F (Shared_Session.end_shared e i subject reason)"
    "leaves V e F (browser_shared e rq)" "leaves V e F (join_shared e rq sess)"
proof -
  have one: "leaves V e F (end_app_session e sid)" for sid
    by (rule leaves_end_app_session[OF now ops]) (simp_all add: F)
  show apps: "leaves V e F (end_app_sessions e sids)" for sids
    by (induction sids) (auto intro!: leaves_intros one leaves_storeless[OF storeless_Pair] leaves_storeless[OF storeless_steps(1)])
  show ended: "leaves V e F (Shared_Session.end_shared e i subject reason)" for i subject reason
    unfolding Shared_Session.end_shared_def ops
    by (auto intro!: leaves_intros leaves_attempt apps leaves_shared_ops(4)[OF now F(1,2)] leaves_storeless[OF storeless_steps(1)]
        leaves_storeless[OF storeless_steps(6)] split: sum.splits)
  show found: "leaves V e F (browser_shared e rq)"
    unfolding browser_shared_def ops Let_def
    by (auto intro!: leaves_intros leaves_attempt leaves_ops(6)[OF now] leaves_plain split: sum.splits prod.splits)
  have made: "leaves V e F (new_shared e rq secret sess)" for secret
    unfolding new_shared_def shared_joined_def ops Let_def
    by (auto intro!: leaves_intros leaves_shared_ops(1)[OF now F(1,2)] leaves_plain)
  show "leaves V e F (join_shared e rq sess)"
    unfolding join_shared_def shared_joined_def ops Let_def
    by (auto intro!: leaves_intros leaves_attempt found ended made leaves_shared_ops(2)[OF now F(1,2)]
        leaves_plain split: option.splits sum.splits)
qed

lemma leaves_add_shared_app:
  assumes now: "0 \<le> en_now e" and ops: "en_ops e = ops"
    and F: "\<And>v x. F (v\<lparr>v_shared := x\<rparr>) = F v" "\<And>v x. F (v\<lparr>v_apps := x\<rparr>) = F v"
      "\<And>v old. old \<noteq> sid \<Longrightarrow> F (v\<lparr>v_sessions := (v_sessions v)(old := None)\<rparr>) = F v" "\<And>v x. F (v\<lparr>v_refresh := x\<rparr>) = F v"
  shows "leaves V e F (add_shared_app e i till client sid)"
proof -
  have one: "leaves V e F (end_app_session e old)" if "old \<noteq> sid" for old
    by (rule leaves_end_app_session[OF now ops]) (simp_all add: F that)
  show ?thesis
    unfolding add_shared_app_def ops
    by (auto intro!: leaves_intros leaves_attempt one leaves_shared_ops(3)[OF now F(1,2)] leaves_storeless[OF storeless_Pair] leaves_storeless[OF storeless_steps(1)] split: sum.splits)
qed

lemma leaves_save_signed_in:
  assumes now: "0 \<le> en_now e" and ops: "en_ops e = ops" and ttl: "0 < cf_session_ttl (en_config e)"
    and F: "\<And>v x. F (v\<lparr>v_shared := x\<rparr>) = F v" "\<And>v x. F (v\<lparr>v_apps := x\<rparr>) = F v"
      "\<And>v x. F (v\<lparr>v_sessions := x\<rparr>) = F v" "\<And>v x. F (v\<lparr>v_refresh := x\<rparr>) = F v"
  shows "leaves V e F (save_signed_in e rq client sid sess)"
  unfolding save_signed_in_def ops
  by (auto intro!: leaves_intros leaves_join_shared[OF now ops F] leaves_add_shared_app[OF now ops] leaves_session_ops(1)[OF now F(3) ttl]
      leaves_storeless[OF storeless_steps(1)] leaves_storeless[OF storeless_steps(3)] simp: F split: prod.splits)

lemma leaves_ask_assistant:
  assumes now: "0 \<le> en_now e" and ops: "en_ops e = ops" and F: "\<And>v x. F (v\<lparr>v_flows := x\<rparr>) = F v"
  shows "leaves V e F (ask_assistant e rq app f sid sess)"
  unfolding ask_assistant_def save_flow_def ops
  by (auto intro!: leaves_intros leaves_flow_ops[OF now F] intro: leaves_storeless storeless_intros)

lemma leaves_returned_flow:
  assumes now: "0 \<le> en_now e" and ops: "en_ops e = ops" and F: "\<And>v x. F (v\<lparr>v_flows := x\<rparr>) = F v"
  shows "leaves V e F (returned_flow e rq u)" "leaves V e F (provider_refused e rq u err)"
  unfolding returned_flow_def provider_refused_def ops
  by (auto intro!: leaves_intros leaves_flow_ops[OF now F] intro: leaves_storeless storeless_intros split: option.splits)

end

text \<open>A part of the view that changed was changed by the rest of the handler, once its first steps answered.\<close>

lemma moved_on:
  assumes "andthen m f w = (r, w')" "leaves V e F m" "F (sees V e w') \<noteq> F (sees V e w)"
  shows "\<exists>x w1. m w = (Inr x, w1) \<and> F (sees V e w1) = F (sees V e w) \<and> f x w1 = (r, w')"
proof -
  obtain q w1 where m: "m w = (q, w1)" by fastforce
  note same = leavesD[OF assms(2) m]
  show ?thesis
  proof (cases q)
    case (Inl r')
    then have "w' = w1" using assms(1) m by simp
    with same assms(3) show ?thesis by simp
  next
    case (Inr x)
    then show ?thesis using assms(1) m same by simp
  qed
qed

lemma made_code:
  assumes store: "session_store (en_ops e) V" and now: "0 \<le> en_now e"
    and run: "andthen (make_code e ac) f w = (r, w')" and same: "\<And>code. storeless (f code)"
    and new: "v_codes (sees V e w') code = Some c" "v_codes (sees V e w) code \<noteq> Some c"
  shows "c = ac \<and> sees V e w' = (sees V e w)\<lparr>v_codes := (v_codes (sees V e w))(code \<mapsto> ac)\<rparr>
    \<and> ((\<exists>w1. f code w1 = (r, w')) \<or> r = Inl (Refused Internal))"
proof -
  let ?k = "raw_url_encode (en_rand e (wo_draws w) 24)" and ?u = "w\<lparr>wo_draws := Suc (wo_draws w)\<rparr>"
  obtain q d where save: "op_save_app_code (en_ops e) ?k ac app_code_ttl (en_now e) (wo_store w) = (q, d)" by fastforce
  have ttl: "0 < app_code_ttl" by (simp add: app_code_ttl_def second_def)
  have view: "V (en_now e) d = sees V e w \<or> V (en_now e) d = (sees V e w)\<lparr>v_codes := (v_codes (sees V e w))(?k \<mapsto> ac)\<rparr>"
    using session_store.save_app_code[OF store now ttl, of ?k ac] save by (fastforce simp: refines_def spec_defs sees_def)
  have out: "sees V e w' = V (en_now e) d \<and> (f ?k (?u\<lparr>wo_store := d\<rparr>) = (r, w') \<or> r = Inl (Refused Internal))"
  proof (cases q)
    case (Inr x)
    then have f: "f ?k (?u\<lparr>wo_store := d\<rparr>) = (r, w')"
      using run save by (simp add: make_code_def andthen_def recover_def stored_def)
    then show ?thesis using storelessD[OF same f] by (simp add: sees_def)
  next
    case (Inl x)
    then show ?thesis using run save by (auto simp: make_code_def andthen_def recover_def stored_def refuse_def sees_def)
  qed
  with view new have "code = ?k \<and> c = ac" by (auto split: if_splits)
  with view out new show ?thesis by auto
qed

definition signs_in_by :: "'c env \<Rightarrow> up_entry \<Rightarrow> flow \<Rightarrow> user_info \<Rightarrow> session \<Rightarrow> bool" where
  "signs_in_by e u f info sess \<longleftrightarrow>
     (let i = resolve (provider_resolver (ue_prov u)) info in
      method_allowed (ue_prov u) (id_login_method i) \<and> method_requested (f_requested_methods f) (id_login_method i)
      \<and> sign_in_moment info f (en_now e) = Some (s_auth_time sess)
      \<and> s_login_method sess = id_login_method i \<and> s_loa sess = id_loa i
      \<and> (\<exists>n created. pe_ensure (en_people e) n (id_idp_subject i) (login_profile i (ue_key u)) = Inr (s_subject sess, created)))"

lemma signs_in_by_kept: "signs_in_by e u f info (sess\<lparr>s_shared := i, s_expires_at := t\<rparr>) = signs_in_by e u f info sess"
  by (simp add: signs_in_by_def)

lemma establish_session_Inr:
  "establish_session e f i provider w = (Inr (sess, sid), w') \<Longrightarrow>
     method_requested (f_requested_methods f) (id_login_method i)
     \<and> (\<exists>n subject created. pe_ensure (en_people e) n (id_idp_subject i) (login_profile i provider) = Inr (subject, created)
          \<and> sess = new_session i subject)"
  by (auto simp: establish_session_def act_simps ensure_mapping_def split: if_splits prod.splits)

lemma provider_session_Inr:
  assumes "provider_session e u f (ts, info) w = (Inr (sess, sid), w')"
  shows "signs_in_by e u f info sess \<and> s_shared sess = []"
proof -
  let ?i = "resolve (provider_resolver (ue_prov u)) info"
  have allowed: "method_allowed (ue_prov u) (id_login_method ?i)"
    using assms by (auto simp: provider_session_def Let_def act_simps split: if_splits)
  obtain t0 where t0: "sign_in_moment info f (en_now e) = Some t0"
    using assms allowed by (auto simp: provider_session_def Let_def refuse_sign_in_def act_simps split: option.splits)
  obtain s w1 where est: "establish_session e f ?i (ue_key u) w = (Inr (s, sid), w1)"
    and stamp: "stamp_sign_in e (s\<lparr>s_capabilities := capture_capabilities (sign_in_client_of (en_registry e) (f_client_id f))
              (ue_prov u) (idt_access ts) info (id_login_method ?i)\<rparr>) t0 (registered_amr (ui_amr info)) w1 = (Inr sess, w')"
    using assms allowed t0
    by (auto simp: provider_session_def Let_def refuse_sign_in_def andthen_Inr recover_Inr refuse_Inr redirect_Inr split: sign_in_error.splits)
      (metis sign_in_error.exhaust)
  from establish_session_Inr[OF est] obtain n subject created where m: "method_requested (f_requested_methods f) (id_login_method ?i)"
    and p: "pe_ensure (en_people e) n (id_idp_subject ?i) (login_profile ?i (ue_key u)) = Inr (subject, created)"
    and s: "s = new_session ?i subject" by blast
  have "s_subject sess = subject \<and> s_login_method sess = id_login_method ?i \<and> s_loa sess = id_loa ?i \<and> s_auth_time sess = t0 \<and> s_shared sess = []"
    using stamp s by (simp add: stamp_sign_in_Inr new_session_def empty_session_def)
  with m p allowed t0 show ?thesis unfolding signs_in_by_def Let_def by (intro conjI exI[of _ n] exI[of _ created]) simp_all
qed

lemma need_query_Inr [act_simps]: "need_query rq k w = (Inr v, w') \<longleftrightarrow> query_string rq k = Some v \<and> w' = w"
  by (auto simp: need_query_def act_simps)

lemma start_again_Inr [act_simps]: "start_again e rq w = (Inr x, w') \<longleftrightarrow> False"
  by (simp add: start_again_def act_simps)

lemma returned_here_Inr [act_simps]: "returned_here e rq f w = (Inr x, w') \<longleftrightarrow> bound_here e rq (f_binding f) \<and> w' = w"
  by (auto simp: returned_here_def act_simps)

definition names_issuer :: "request \<Rightarrow> up_entry \<Rightarrow> bool" where
  "names_issuer rq u \<longleftrightarrow> query_string rq ''iss'' \<in> {None, Some (pv_issuer (ue_prov u))} \<or> pv_issuer (ue_prov u) = []"

lemma answered_by_Inr [act_simps]: "answered_by e rq f u w = (Inr x, w') \<longleftrightarrow> sent_to e f u \<and> names_issuer rq u \<and> w' = w"
  by (auto simp: answered_by_def names_issuer_def act_simps split: option.splits)

lemma returned_flow_Inr:
  assumes store: "session_store (en_ops e) V" and now: "0 \<le> en_now e"
    and run: "returned_flow e rq u w = (Inr (code, f), w')"
  shows "\<exists>state. query_string rq ''state'' = Some state \<and> query_string rq ''code'' = Some code \<and> \<not> is_assistant_ticket state
    \<and> v_flows (sees V e w) state = Some f \<and> v_flows (sees V e w') state = None
    \<and> bound_here e rq (f_binding f) \<and> sent_to e f u \<and> names_issuer rq u"
  using run session_store.consumed_flow[OF store now]
  by (auto simp: returned_flow_def act_simps sees_def recover_Inr stored_def split: if_splits prod.splits)

lemma read_person_Inr:
  "read_person e u f c w = (Inr (ts, info), w') \<Longrightarrow>
     exchange (ue_prov u) c (f_entrust_redirect_uri f) = Inr ts \<and> claims (en_codes e) (ue_prov u) ts (f_nonce f) = Inr info"
  by (cases "claims (en_codes e) (ue_prov u) ts (f_nonce f)"; cases "exchange (ue_prov u) c (f_entrust_redirect_uri f)")
    (auto simp: read_person_def act_simps split: up_error.splits)

text \<open>Saving the session: it stands, as the person's, until its whole lifetime has passed.\<close>

lemma signed_in_saved:
  assumes store: "session_store (en_ops e) V" and now: "0 \<le> en_now e" and ttl: "0 < cf_session_ttl (en_config e)"
    and run: "save_signed_in e rq client sid sess w = (Inr sess', w')"
  shows "v_sessions (sees V e w') sid = Some sess' \<and> s_expires_at sess' = en_now e + cf_session_ttl (en_config e)
    \<and> (\<exists>i. sess' = sess\<lparr>s_shared := i, s_expires_at := s_expires_at sess'\<rparr>)"
proof -
  have made: "v_sessions (V (en_now e) c') sid = Some s' \<and> s' = s\<lparr>s_expires_at := en_now e + cf_session_ttl (en_config e)\<rparr>"
    if "op_create_session (en_ops e) sid s (cf_session_ttl (en_config e)) (en_now e) c = (Inr s', c')" for s s' c c'
    using session_store.created[OF store now ttl that] by simp
  have kept: "v_sessions (sees V e x') sid = v_sessions (sees V e x) sid" if "add_shared_app e i till client sid x = (r, x')" for i till x r x'
    using leavesD[OF session_store.leaves_add_shared_app[OF store now refl, of "\<lambda>v. v_sessions v sid"] that] by simp
  show ?thesis
  proof (cases "is_ai_app e client")
    case True
    then have "stored e (op_create_session (en_ops e) sid sess (cf_session_ttl (en_config e))) w = (Inr sess', w')"
      using run by (simp add: save_signed_in_def act_simps)
    then obtain c where "op_create_session (en_ops e) sid sess (cf_session_ttl (en_config e)) (en_now e) (wo_store w) = (Inr sess', c)"
      "wo_store w' = c" by (auto simp: stored_Inr)
    with made[OF this(1)] have v: "v_sessions (sees V e w') sid = Some sess'"
      and s: "sess' = sess\<lparr>s_expires_at := en_now e + cf_session_ttl (en_config e)\<rparr>" by (simp_all add: sees_def)
    have "sess' = sess\<lparr>s_shared := s_shared sess, s_expires_at := s_expires_at sess'\<rparr>" using s by simp
    with v s show ?thesis by (intro conjI exI[of _ "s_shared sess"]) simp_all
  next
    case False
    then obtain i till w1 c r where create: "op_create_session (en_ops e) sid (sess\<lparr>s_shared := i\<rparr>) (cf_session_ttl (en_config e)) (en_now e) (wo_store w1) = (Inr sess', c)"
      and add: "add_shared_app e i till client sid (w1\<lparr>wo_store := c\<rparr>) = (Inr r, w')"
      using run by (auto simp: save_signed_in_def act_simps)
    from made[OF create] kept[OF add] have v: "v_sessions (sees V e w') sid = Some sess'"
      and s: "sess' = sess\<lparr>s_shared := i, s_expires_at := en_now e + cf_session_ttl (en_config e)\<rparr>" by (simp_all add: sees_def)
    have "sess' = sess\<lparr>s_shared := i, s_expires_at := s_expires_at sess'\<rparr>" using s by simp
    with v s show ?thesis by (intro conjI exI[of _ i]) simp_all
  qed
qed

text \<open>A callback that made a code went through every step: these are their runs, and what the code is.\<close>

lemma callback_steps:
  assumes store: "session_store (en_ops e) V" and now: "0 \<le> en_now e" and ttl: "0 < cf_session_ttl (en_config e)"
    and run: "callback e rq u w = (res, w')"
    and new: "v_codes (sees V e w') code = Some ac" "v_codes (sees V e w) code \<noteq> Some ac"
  shows "\<exists>c f w1 ts info w2 sess sid w3 sess' w4.
     returned_flow e rq u w = (Inr (c, f), w1) \<and> read_person e u f c w1 = (Inr (ts, info), w2)
     \<and> provider_session e u f (ts, info) w2 = (Inr (sess, sid), w3)
     \<and> save_signed_in e rq (f_client_id f) sid sess w3 = (Inr sess', w4) \<and> ai_app (en_registry e) (f_client_id f) = None
     \<and> ac = flow_code f sid \<and> sees V e w' = (sees V e w4)\<lparr>v_codes := (v_codes (sees V e w4))(code \<mapsto> ac)\<rparr>
     \<and> (res = Inl (Redirect 302 (append_code_state (f_app_redirect_uri f) (issuer_id e) code (f_spa_state f)))
          \<or> res = Inl (Refused Internal))"
proof -
  note F = session_store.leaves_returned_flow[OF store now refl]
  have moved: "v_codes (sees V e w') \<noteq> v_codes (sees V e w)" using new by auto
  have ok: "query_string rq ''error'' = None"
  proof (rule ccontr)
    assume "query_string rq ''error'' \<noteq> None"
    then obtain err where "query_string rq ''error'' = Some err" by blast
    then have "provider_refused e rq u err w = (res, w')" using run by (simp add: callback_def)
    from leavesD[OF F(2)[of v_codes] this] moved show False by simp
  qed
  note run = run[unfolded callback_def ok option.case]
  let ?fin = "\<lambda>f sid sess'. case ai_app (en_registry e) (f_client_id f) of
            Some app \<Rightarrow> ask_assistant e rq app f sid sess'
          | None \<Rightarrow>
              andthen (make_code e (flow_code f sid)) (\<lambda>app_code.
              redirect_to (append_code_state (f_app_redirect_uri f) (issuer_id e) app_code (f_spa_state f)))"
  let ?saved = "\<lambda>f sid sess'. andthen (record_event (Login_Success (s_subject sess') (s_loa sess') (s_login_method sess'))) (\<lambda>_. ?fin f sid sess')"
  let ?save = "\<lambda>f. \<lambda>(sess, sid). andthen (save_signed_in e rq (f_client_id f) sid sess) (?saved f sid)"
  obtain c f w1 where s1: "returned_flow e rq u w = (Inr (c, f), w1)" and m1: "v_codes (sees V e w1) = v_codes (sees V e w)"
    and run1: "andthen (read_person e u f c) (\<lambda>who. andthen (provider_session e u f who) (?save f)) w1 = (res, w')"
    using moved_on[OF run F(1)[of v_codes] moved] by auto
  obtain ts info w2 where s2: "read_person e u f c w1 = (Inr (ts, info), w2)" and m2: "v_codes (sees V e w2) = v_codes (sees V e w1)"
    and run2: "andthen (provider_session e u f (ts, info)) (?save f) w2 = (res, w')"
    using moved_on[OF run1 leaves_storeless[OF storeless_read_person], where V = V and e = e and F = v_codes] moved m1 by auto
  obtain sess sid w3 where s3: "provider_session e u f (ts, info) w2 = (Inr (sess, sid), w3)" and m3: "v_codes (sees V e w3) = v_codes (sees V e w2)"
    and run3: "andthen (save_signed_in e rq (f_client_id f) sid sess) (?saved f sid) w3 = (res, w')"
    using moved_on[OF run2 leaves_storeless[OF storeless_provider_session], where V = V and e = e and F = v_codes] moved m1 m2 by auto
  obtain sess' w4 where s4: "save_signed_in e rq (f_client_id f) sid sess w3 = (Inr sess', w4)" and m4: "v_codes (sees V e w4) = v_codes (sees V e w3)"
    and run4: "?saved f sid sess' w4 = (res, w')"
    using moved_on[OF run3 session_store.leaves_save_signed_in[OF store now refl ttl], of v_codes] moved m1 m2 m3 by auto
  let ?w5 = "w4\<lparr>wo_events := wo_events w4 @ [Login_Success (s_subject sess') (s_loa sess') (s_login_method sess')]\<rparr>"
  have run5: "?fin f sid sess' ?w5 = (res, w')" using run4 by simp
  have m5: "v_codes (sees V e ?w5) = v_codes (sees V e w)" using m1 m2 m3 m4 by simp
  have app: "ai_app (en_registry e) (f_client_id f) = None"
  proof (rule ccontr)
    assume "ai_app (en_registry e) (f_client_id f) \<noteq> None"
    then obtain a where "ask_assistant e rq a f sid sess' ?w5 = (res, w')" using run5 by auto
    from leavesD[OF session_store.leaves_ask_assistant[OF store now refl, of v_codes] this] m5 moved show False by simp
  qed
  have made: "ac = flow_code f sid \<and> sees V e w' = (sees V e ?w5)\<lparr>v_codes := (v_codes (sees V e ?w5))(code \<mapsto> flow_code f sid)\<rparr>
    \<and> ((\<exists>x. redirect_to (append_code_state (f_app_redirect_uri f) (issuer_id e) code (f_spa_state f)) x = (res, w')) \<or> res = Inl (Refused Internal))"
    using run5 unfolding app option.case
    by (rule made_code[OF store now _ storeless_browser(3) new(1)]) (use m5 new(2) in simp)
  show ?thesis
    by (rule exI[of _ c], rule exI[of _ f], rule exI[of _ w1], rule exI[of _ ts], rule exI[of _ info], rule exI[of _ w2],
        rule exI[of _ sess], rule exI[of _ sid], rule exI[of _ w3], rule exI[of _ sess'], rule exI[of _ w4])
      (use s1 s2 s3 s4 app made in \<open>auto simp: redirect_to_def\<close>)
qed

text \<open>
  C31. A provider's answer signs a person in only where the sign-in began: in the browser the flow is bound
  to, on the return path of the provider it was sent to, with a state that is a flow's and is spent by it.
  A code is then made for the flow's client alone, at its address and with its challenge, over a new session
  of the person the identity store knows this provider's claims as, who signed in by a method the provider
  may use and the request asked for, at a moment the request allows.
\<close>

theorem callback_signs_in_where_it_began:
  assumes store: "session_store (en_ops e) V" and now: "0 \<le> en_now e" and ttl: "0 < cf_session_ttl (en_config e)"
    and run: "callback e rq u w = (res, w')"
    and new: "v_codes (sees V e w') code = Some ac" "v_codes (sees V e w) code \<noteq> Some ac"
  shows "\<exists>state c f ts info sid sess.
     query_string rq ''state'' = Some state \<and> \<not> is_assistant_ticket state \<and> v_flows (sees V e w) state = Some f
     \<and> v_flows (sees V e w') state = None \<and> bound_here e rq (f_binding f) \<and> sent_to e f u \<and> names_issuer rq u
     \<and> query_string rq ''code'' = Some c \<and> exchange (ue_prov u) c (f_entrust_redirect_uri f) = Inr ts
     \<and> claims (en_codes e) (ue_prov u) ts (f_nonce f) = Inr info \<and> signs_in_by e u f info sess
     \<and> ac = flow_code f sid \<and> ai_app (en_registry e) (f_client_id f) = None
     \<and> v_sessions (sees V e w') sid = Some sess \<and> s_expires_at sess = en_now e + cf_session_ttl (en_config e)
     \<and> (res = Inl (Redirect 302 (append_code_state (f_app_redirect_uri f) (issuer_id e) code (f_spa_state f)))
          \<or> res = Inl (Refused Internal))"
proof -
  obtain c f w1 ts info w2 sess sid w3 sess' w4 where steps: "returned_flow e rq u w = (Inr (c, f), w1)"
      "read_person e u f c w1 = (Inr (ts, info), w2)" "provider_session e u f (ts, info) w2 = (Inr (sess, sid), w3)"
      "save_signed_in e rq (f_client_id f) sid sess w3 = (Inr sess', w4)"
    and app: "ai_app (en_registry e) (f_client_id f) = None" and ac: "ac = flow_code f sid"
    and after: "sees V e w' = (sees V e w4)\<lparr>v_codes := (v_codes (sees V e w4))(code \<mapsto> ac)\<rparr>"
    and out: "res = Inl (Redirect 302 (append_code_state (f_app_redirect_uri f) (issuer_id e) code (f_spa_state f)))
      \<or> res = Inl (Refused Internal)"
    using callback_steps[OF store now ttl run new] by (elim exE conjE)
  have r: "exchange (ue_prov u) c (f_entrust_redirect_uri f) = Inr ts \<and> claims (en_codes e) (ue_prov u) ts (f_nonce f) = Inr info"
    by (rule read_person_Inr[OF steps(2)])
  have flows: "v_flows (sees V e w') state = None" if "v_flows (sees V e w1) state = None" for state
  proof -
    have "v_flows (sees V e w4) = v_flows (sees V e w3)"
      by (rule leavesD[OF session_store.leaves_save_signed_in[OF store now refl ttl] steps(4)]) simp_all
    moreover have "wo_store w3 = wo_store w1" using storelessD[OF storeless_provider_session steps(3)] storelessD[OF storeless_read_person steps(2)] by simp
    ultimately show ?thesis using that after by (simp add: sees_def)
  qed
  note saved = signed_in_saved[OF store now ttl steps(4)]
  have stands: "v_sessions (sees V e w') sid = Some sess' \<and> s_expires_at sess' = en_now e + cf_session_ttl (en_config e)"
    using saved after by simp
  have same: "\<exists>i. sess' = sess\<lparr>s_shared := i, s_expires_at := s_expires_at sess'\<rparr>" using saved by blast
  have by_u: "signs_in_by e u f info sess'"
    using provider_session_Inr[OF steps(3)] same signs_in_by_kept by metis
  obtain state where st: "query_string rq ''state'' = Some state" "\<not> is_assistant_ticket state" "v_flows (sees V e w) state = Some f"
      "v_flows (sees V e w1) state = None" "bound_here e rq (f_binding f)" "sent_to e f u" "names_issuer rq u" "query_string rq ''code'' = Some c"
    using returned_flow_Inr[OF store now steps(1)] by blast
  show ?thesis
    by (intro exI[of _ state] exI[of _ c] exI[of _ f] exI[of _ ts] exI[of _ info] exI[of _ sid] exI[of _ sess'] conjI
      st(1-3,5-8) flows[OF st(4)] conjunct1[OF r] conjunct2[OF r] by_u ac app conjunct1[OF stands] conjunct2[OF stands] out)
qed

section \<open>A sign-in that is all right is completed\<close>

locale ready_store = steady_store +
  assumes consume_flow_answers: "op_consume_flow ops k now c \<noteq> (Inl Unavailable, c')"
    and create_shared_answers: "op_create_shared ops i sh now c \<noteq> (Inl Unavailable, c')"
    and replace_shared_answers: "op_replace_shared ops i sh now c \<noteq> (Inl Unavailable, c')"

interpretation mem_ready: ready_store memory_ops memory_view
  by unfold_locales
    (auto simp: memory_ops_parts mem_consume_flow_def mem_create_shared_def mem_replace_shared_def mem_get_def mem_read_def
      split: option.splits if_splits prod.splits)

lemma joined_lives:
  assumes "0 \<le> en_now e" "0 < cf_session_ttl (en_config e)"
  shows "\<not> shared_expired (keep_person (keep (session_way e sess) sh) sess) (en_now e)"
proof -
  have "w_ends (session_way e sess) \<le> sh_expires_at (keep (session_way e sess) sh)"
    unfolding keep_expires by (rule Max_ge) (auto simp: keep_ways)
  with assms show ?thesis by (simp add: shared_expired_def keep_person_def session_way_def)
qed

definition joined :: "'c env \<Rightarrow> string \<Rightarrow> shared \<Rightarrow> session \<Rightarrow> shared" where
  "joined e secret sh sess =
     keep_person (keep (session_way e sess) (sh\<lparr>sh_secret_hash := shared_secret_hash (en_crypto e) secret\<rparr>)) sess"

lemma joined_fields [simp]:
  "sh_subject (joined e secret sh sess) = s_subject sess" "session_way e sess \<in> set (sh_ways (joined e secret sh sess))"
  "sh_secret_hash (joined e secret sh sess) = shared_secret_hash (en_crypto e) secret"
  by (simp_all add: joined_def keep_person_def keep_ways)

lemma shared_joined_Inr [act_simps]:
  "shared_joined e rq i secret sh sess w = (Inr p, w') \<longleftrightarrow> p = (i, sh_expires_at sh)
     \<and> w' = w\<lparr>wo_events := wo_events w @ [Shared_Session_Created (s_subject sess) (s_login_method sess)],
         wo_cookies := wo_cookies w @ [Set_Cookie (cookie_name e rq shared_cookie) (i @ ''.'' @ secret)
           (time_sub (sh_expires_at sh) (en_now e)) (secure_cookies e rq)]\<rparr>"
  by (auto simp: shared_joined_def act_simps)

context ready_store begin

lemma flow_there:
  assumes "0 \<le> now" "v_flows (V now c) k = Some f"
  shows "\<exists>c'. op_consume_flow ops k now c = (Inr f, c') \<and> V now c' = (V now c)\<lparr>v_flows := (v_flows (V now c))(k := None)\<rparr>"
  using refines_answered[OF consume_flow[OF assms(1), of k], of c] consume_flow_answers[of k now c] assms(2)
  by (cases "op_consume_flow ops k now c") (simp add: spec_defs)

lemma shared_made:
  assumes "0 \<le> now" "v_shared (V now c) i = None" "\<not> shared_expired sh now"
  shows "\<exists>c'. op_create_shared ops i sh now c = (Inr (), c') \<and> V now c' = (V now c)\<lparr>v_shared := (v_shared (V now c))(i \<mapsto> sh)\<rparr>"
  using refines_answered[OF create_shared[OF assms(1), of i sh], of c] create_shared_answers[of i sh now c] assms(2,3)
  by (cases "op_create_shared ops i sh now c") (simp add: spec_defs)

lemma shared_replaced:
  assumes "0 \<le> now" "v_shared (V now c) i = Some old" "\<not> shared_expired sh now"
  shows "\<exists>c'. op_replace_shared ops i sh now c = (Inr (), c') \<and> V now c' = (V now c)\<lparr>v_shared := (v_shared (V now c))(i \<mapsto> sh)\<rparr>"
  using refines_answered[OF replace_shared[OF assms(1), of i sh], of c] replace_shared_answers[of i sh now c] assms(2,3)
  by (cases "op_replace_shared ops i sh now c") (simp add: spec_defs)

text \<open>A new shared session: the person's, under the fresh secret the browser is given.\<close>

lemma new_shared_made:
  assumes now: "0 \<le> en_now e" and ops: "en_ops e = ops" and ttl: "0 < cf_session_ttl (en_config e)"
    and i: "i = raw_url_encode (en_rand e (wo_draws w) shared_id_bytes)" "v_shared (sees V e w) i = None"
  shows "\<exists>w'. new_shared e rq secret sess w = (Inr (i, sh_expires_at (joined e secret empty_shared sess)), w')
     \<and> sees V e w' = (sees V e w)\<lparr>v_shared := (v_shared (sees V e w))(i \<mapsto> joined e secret empty_shared sess)\<rparr>
     \<and> (\<exists>life. wo_cookies w' = wo_cookies w @ [Set_Cookie (cookie_name e rq shared_cookie) (i @ ''.'' @ secret) life (secure_cookies e rq)])"
proof -
  let ?sh = "joined e secret empty_shared sess"
  obtain c where c: "op_create_shared ops i ?sh (en_now e) (wo_store w) = (Inr (), c)"
      "V (en_now e) c = (V (en_now e) (wo_store w))\<lparr>v_shared := (v_shared (V (en_now e) (wo_store w)))(i \<mapsto> ?sh)\<rparr>"
    using shared_made[OF now, of "wo_store w" i ?sh] i(2) joined_lives[OF now ttl] by (auto simp: sees_def joined_def)
  let ?w = "w\<lparr>wo_draws := Suc (wo_draws w), wo_store := c,
      wo_events := wo_events w @ [Shared_Session_Created (s_subject sess) (s_login_method sess)],
      wo_cookies := wo_cookies w @ [Set_Cookie (cookie_name e rq shared_cookie) (i @ ''.'' @ secret)
           (time_sub (sh_expires_at ?sh) (en_now e)) (secure_cookies e rq)]\<rparr>"
  have "new_shared e rq secret sess w = (Inr (i, sh_expires_at ?sh), ?w)"
    using c(1) by (simp add: new_shared_def joined_def Let_def ops i(1) act_simps stored_Inr)
  then show ?thesis using c(2) by (intro exI[of _ ?w]) (simp add: sees_def)
qed

end

text \<open>A browser that holds a shared session joins it again, or ends it for another person's.\<close>

lemma join_held:
  assumes store: "ready_store (en_ops e) V" and now: "0 \<le> en_now e" and ttl: "0 < cf_session_ttl (en_config e)"
    and b: "browser_shared e rq (w\<lparr>wo_draws := Suc (wo_draws w)\<rparr>) = (Inr (Some (j, old)), w\<lparr>wo_draws := Suc (wo_draws w), wo_store := c\<rparr>)"
    and c: "V (en_now e) c = sees V e w" and held: "v_shared (sees V e w) j = Some old" "j \<noteq> []"
    and fresh: "\<And>n. v_shared (sees V e w) (raw_url_encode (en_rand e n shared_id_bytes)) = None"
  shows "\<exists>i secret life till w' sh. join_shared e rq sess w = (Inr (i, till), w')
     \<and> secret = raw_url_encode (en_rand e (wo_draws w) shared_secret_bytes)
     \<and> last (wo_cookies w') = Set_Cookie (cookie_name e rq shared_cookie) (i @ ''.'' @ secret) life (secure_cookies e rq)
     \<and> v_shared (sees V e w') i = Some (joined e secret sh sess)
     \<and> (if sh_subject old = s_subject sess then i = j \<and> sh = old
        else i \<noteq> j \<and> sh = empty_shared \<and> v_shared (sees V e w') j = None
          \<and> (\<forall>client sid. v_apps (sees V e w) j client = Some sid \<longrightarrow> v_sessions (sees V e w') sid = None))
     \<and> (\<forall>s. v_sessions (sees V e w) s = None \<longrightarrow> v_sessions (sees V e w') s = None)"
proof -
  have steady: "steady_store (en_ops e) V" by (rule ready_store.axioms(1)[OF store])
  let ?secret = "raw_url_encode (en_rand e (wo_draws w) shared_secret_bytes)" and ?w1 = "w\<lparr>wo_draws := Suc (wo_draws w)\<rparr>"
  let ?w2 = "?w1\<lparr>wo_store := c\<rparr>"
  show ?thesis
  proof (cases "sh_subject old = s_subject sess")
    case True
    let ?sh = "joined e ?secret old sess"
    obtain d where d: "op_replace_shared (en_ops e) j ?sh (en_now e) c = (Inr (), d)"
        "V (en_now e) d = (sees V e w)\<lparr>v_shared := (v_shared (sees V e w))(j \<mapsto> ?sh)\<rparr>"
      using ready_store.shared_replaced[OF store now, of c j old ?sh] held(1) c joined_lives[OF now ttl] by (auto simp: joined_def)
    have r: "andthen (attempt (stored e (op_replace_shared (en_ops e) j ?sh))) f ?w2 = f (Inr ()) (?w2\<lparr>wo_store := d\<rparr>)"
      for f :: "store_error + unit \<Rightarrow> ('a, string \<times> time) handler"
      by (rule andthen_stored) (simp add: d(1))
    let ?life = "time_sub (sh_expires_at ?sh) (en_now e)"
    let ?w = "?w2\<lparr>wo_store := d, wo_events := wo_events w @ [Shared_Session_Created (s_subject sess) (s_login_method sess)],
        wo_cookies := wo_cookies w @ [Set_Cookie (cookie_name e rq shared_cookie) (j @ ''.'' @ ?secret) ?life (secure_cookies e rq)]\<rparr>"
    have "join_shared e rq sess w = (Inr (j, sh_expires_at ?sh), ?w)"
      using b True by (simp add: join_shared_def Let_def joined_def[symmetric] r act_simps)
    then show ?thesis
      using True d(2) by (intro exI[of _ j] exI[of _ ?secret] exI[of _ ?life] exI[of _ "sh_expires_at ?sh"] exI[of _ ?w] exI[of _ old])
        (simp add: sees_def)
  next
    case False
    obtain v where ended: "end_shared e j (sh_subject old) ended_another_person ?w2 = (Inr (), v)"
      by (cases "end_shared e j (sh_subject old) ended_another_person ?w2";
          cases "fst (end_shared e j (sh_subject old) ended_another_person ?w2)") (auto simp: goes_on)
    have there: "v_shared (sees V e ?w2) j \<noteq> None" using held(1) c by simp
    obtain apps :: "(string \<times> string) list" where apps: "map_of apps = v_apps (sees V e w) j"
      and v: "sees V e v = ended_all (en_now e) (map snd apps)
         ((sees V e w)\<lparr>v_shared := (v_shared (sees V e w))(j := None), v_apps := (v_apps (sees V e w))(j := Map.empty)\<rparr>)"
      using steady_store.ended_shared[OF steady now refl held(2) there ended] c by auto
    let ?i = "raw_url_encode (en_rand e (wo_draws v) shared_id_bytes)"
    have i: "?i \<noteq> j" using fresh[of "wo_draws v"] held(1) by auto
    have none: "v_shared (sees V e v) ?i = None" using fresh[of "wo_draws v"] v by simp
    obtain w' life where new: "new_shared e rq ?secret sess v = (Inr (?i, sh_expires_at (joined e ?secret empty_shared sess)), w')"
        "sees V e w' = (sees V e v)\<lparr>v_shared := (v_shared (sees V e v))(?i \<mapsto> joined e ?secret empty_shared sess)\<rparr>"
        "wo_cookies w' = wo_cookies v @ [Set_Cookie (cookie_name e rq shared_cookie) (?i @ ''.'' @ ?secret) life (secure_cookies e rq)]"
      using ready_store.new_shared_made[OF store now refl ttl refl none] by blast
    have run: "join_shared e rq sess w = (Inr (?i, sh_expires_at (joined e ?secret empty_shared sess)), w')"
      using b ended new(1) False by (simp add: join_shared_def)
    have gone: "v_sessions (sees V e w') sid = None" if "v_apps (sees V e w) j client = Some sid" for client sid
    proof -
      have "(client, sid) \<in> set apps" using that unfolding apps[symmetric] by (rule map_of_SomeD)
      then show ?thesis using new(2) v by (force simp: ended_all_sessions)
    qed
    show ?thesis
      using False run i new v gone ended_all_sessions
      by (intro exI[of _ ?i] exI[of _ ?secret] exI[of _ life] exI[of _ "sh_expires_at (joined e ?secret empty_shared sess)"]
          exI[of _ w'] exI[of _ empty_shared]) auto
  qed
qed


lemma browser_shared_sees:
  assumes "session_store (en_ops e) V" "0 \<le> en_now e" "browser_shared e rq w = (r, w')"
  shows "sees V e w' = sees V e w"
proof -
  have "leaves V e (\<lambda>v. v) (browser_shared e rq)"
    unfolding browser_shared_def Let_def
    by (auto intro!: leaves_intros session_store.leaves_attempt[OF assms(1)] session_store.leaves_ops(6)[OF assms(1,2)] leaves_plain
        split: sum.splits prod.splits)
  from leavesD[OF this assms(3)] show ?thesis .
qed

lemma join_shared_made:
  assumes store: "ready_store (en_ops e) V" and now: "0 \<le> en_now e" and ttl: "0 < cf_session_ttl (en_config e)"
    and fresh: "\<And>n. v_shared (sees V e w) (raw_url_encode (en_rand e n shared_id_bytes)) = None"
  shows "\<exists>i till w'. join_shared e rq sess w = (Inr (i, till), w')
     \<and> (\<forall>s. v_sessions (sees V e w) s = None \<longrightarrow> v_sessions (sees V e w') s = None)"
proof -
  have ss: "session_store (en_ops e) V" using store by (intro steady_store.axioms(1) ready_store.axioms(1))
  let ?secret = "raw_url_encode (en_rand e (wo_draws w) shared_secret_bytes)" and ?w1 = "w\<lparr>wo_draws := Suc (wo_draws w)\<rparr>"
  obtain found w2 where b: "browser_shared e rq ?w1 = (Inr found, w2)"
    by (cases "browser_shared e rq ?w1"; cases "fst (browser_shared e rq ?w1)") (auto simp: goes_on)
  have same: "sees V e w2 = sees V e w" using browser_shared_sees[OF ss now b] by simp
  show ?thesis
  proof (cases found)
    case None
    have none: "v_shared (sees V e w2) (raw_url_encode (en_rand e (wo_draws w2) shared_id_bytes)) = None" using fresh same by simp
    obtain w' where "new_shared e rq ?secret sess w2 = (Inr (raw_url_encode (en_rand e (wo_draws w2) shared_id_bytes),
          sh_expires_at (joined e ?secret empty_shared sess)), w')"
        "sees V e w' = (sees V e w2)\<lparr>v_shared := (v_shared (sees V e w2))(raw_url_encode (en_rand e (wo_draws w2) shared_id_bytes) \<mapsto> joined e ?secret empty_shared sess)\<rparr>"
      using ready_store.new_shared_made[OF store now refl ttl refl none, of rq ?secret sess] by blast
    with b None same show ?thesis by (simp add: join_shared_def)
  next
    case (Some p)
    obtain j old where p: "p = (j, old)" by fastforce
    note held = browser_shared_Some[OF b[unfolded Some p]]
    then obtain c where c: "op_load_shared (en_ops e) j (en_now e) (wo_store ?w1) = (Inr old, c)" "w2 = ?w1\<lparr>wo_store := c\<rparr>" by blast
    have there: "v_shared (sees V e w) j = Some old" using session_store.shared_loaded[OF ss now c(1)] by (simp add: sees_def)
    have j: "j \<noteq> []" using held by (auto simp: holds_shared_def raw_url_len_def shared_id_bytes_def)
    have run: "browser_shared e rq ?w1 = (Inr (Some (j, old)), ?w1\<lparr>wo_store := c\<rparr>)" using b Some p c(2) by simp
    have "V (en_now e) c = sees V e w" using same c(2) by simp
    from join_held[OF store now ttl run this there j fresh, of sess] show ?thesis by blast
  qed
qed

lemma add_shared_app_runs: "\<exists>r w'. add_shared_app e i till client sid w = (Inr r, w')"
  by (cases "add_shared_app e i till client sid w"; cases "fst (add_shared_app e i till client sid w)") (auto simp: goes_on)

lemma signed_in_made:
  assumes store: "ready_store (en_ops e) V" and now: "0 \<le> en_now e" and ttl: "0 < cf_session_ttl (en_config e)"
    and app: "ai_app (en_registry e) client = None"
    and fresh: "\<And>n. v_shared (sees V e w) (raw_url_encode (en_rand e n shared_id_bytes)) = None" "v_sessions (sees V e w) sid = None"
  shows "\<exists>sess' w'. save_signed_in e rq client sid sess w = (Inr sess', w')"
proof -
  have steady: "steady_store (en_ops e) V" by (rule ready_store.axioms(1)[OF store])
  obtain i till w1 where j: "join_shared e rq sess w = (Inr (i, till), w1)" and none: "v_sessions (sees V e w1) sid = None"
    using join_shared_made[OF store now ttl fresh(1)] fresh(2) by blast
  obtain c where create: "op_create_session (en_ops e) sid (sess\<lparr>s_shared := i\<rparr>) (cf_session_ttl (en_config e)) (en_now e) (wo_store w1)
      = (Inr (sess\<lparr>s_shared := i, s_expires_at := en_now e + cf_session_ttl (en_config e)\<rparr>), c)"
    using steady_store.session_made[OF steady now ttl, of "wo_store w1" sid "sess\<lparr>s_shared := i\<rparr>"] none by (auto simp: sees_def)
  obtain r w2 where "add_shared_app e i till client sid (w1\<lparr>wo_store := c\<rparr>) = (Inr r, w2)" using add_shared_app_runs by blast
  with j create app show ?thesis
    by (auto simp: save_signed_in_def is_ai_app_def andthen_def recover_def stored_def)
qed

lemma establish_session_made:
  assumes "method_requested (f_requested_methods f) (id_login_method i)"
    and "pe_ensure (en_people e) (length (wo_people w)) (id_idp_subject i) (login_profile i provider) = Inr (subject, created)"
  shows "\<exists>w'. establish_session e f i provider w = (Inr (new_session i subject, raw_url_encode (en_rand e (wo_draws w) 24)), w')"
  using assms by (simp add: establish_session_def ensure_mapping_def andthen_def recover_def)

lemma provider_session_made:
  assumes m: "method_allowed (ue_prov u) (id_login_method i)" "method_requested (f_requested_methods f) (id_login_method i)"
    and i: "i = resolve (provider_resolver (ue_prov u)) info" and t: "sign_in_moment info f (en_now e) = Some t0"
    and p: "pe_ensure (en_people e) (length (wo_people w)) (id_idp_subject i) (login_profile i (ue_key u)) = Inr (subject, created)"
  shows "\<exists>sess w'. provider_session e u f (ts, info) w = (Inr (sess, raw_url_encode (en_rand e (wo_draws w) 24)), w')"
proof -
  obtain w1 where est: "establish_session e f i (ue_key u) w = (Inr (new_session i subject, raw_url_encode (en_rand e (wo_draws w) 24)), w1)"
    using establish_session_made[OF m(2) p] by blast
  obtain sess w2 where "stamp_sign_in e ((new_session i subject)\<lparr>s_capabilities := capture_capabilities (sign_in_client_of (en_registry e) (f_client_id f))
              (ue_prov u) (idt_access ts) info (id_login_method i)\<rparr>) t0 (registered_amr (ui_amr info)) w1 = (Inr sess, w2)"
    by (simp add: stamp_sign_in_Inr)
  with est m(1) t show ?thesis by (simp add: provider_session_def Let_def i[symmetric] andthen_def recover_def)
qed

lemma sign_in_run:
  assumes store: "ready_store (en_ops e) V" and now: "0 \<le> en_now e" and ttl: "0 < cf_session_ttl (en_config e)"
    and q: "query_string rq ''error'' = None" "query_string rq ''code'' = Some c" "query_string rq ''state'' = Some state" "\<not> is_assistant_ticket state"
    and f: "v_flows (sees V e w) state = Some f" "bound_here e rq (f_binding f)" "sent_to e f u" "names_issuer rq u"
    and app: "ai_app (en_registry e) (f_client_id f) = None"
    and who: "exchange (ue_prov u) c (f_entrust_redirect_uri f) = Inr ts" "claims (en_codes e) (ue_prov u) ts (f_nonce f) = Inr info"
    and i: "i = resolve (provider_resolver (ue_prov u)) info"
    and m: "method_allowed (ue_prov u) (id_login_method i)" "method_requested (f_requested_methods f) (id_login_method i)"
    and t: "sign_in_moment info f (en_now e) = Some t0"
    and p: "pe_ensure (en_people e) (length (wo_people w)) (id_idp_subject i) (login_profile i (ue_key u)) = Inr (subject, created)"
    and fresh: "\<And>n. v_shared (sees V e w) (raw_url_encode (en_rand e n shared_id_bytes)) = None"
      "\<And>n. v_sessions (sees V e w) (raw_url_encode (en_rand e n 24)) = None"
  shows "\<exists>code sid w'. callback e rq u w = (Inl (Redirect 302 (append_code_state (f_app_redirect_uri f) (issuer_id e) code (f_spa_state f))), w')
     \<and> v_codes (sees V e w') code = Some (flow_code f sid)"
proof -
  have steady: "steady_store (en_ops e) V" by (rule ready_store.axioms(1)[OF store])
  obtain d where d: "op_consume_flow (en_ops e) state (en_now e) (wo_store w) = (Inr f, d)"
      "V (en_now e) d = (sees V e w)\<lparr>v_flows := (v_flows (sees V e w))(state := None)\<rparr>"
    using ready_store.flow_there[OF store now] f(1) unfolding sees_def by blast
  let ?w1 = "w\<lparr>wo_store := d\<rparr>"
  have s1: "returned_flow e rq u w = (Inr (c, f), ?w1)"
    using q f d(1) by (simp add: returned_flow_def returned_here_def act_simps stored_Inr)
  have s2: "read_person e u f c ?w1 = (Inr (ts, info), ?w1)"
    using who by (simp add: read_person_def act_simps)
  let ?sid = "raw_url_encode (en_rand e (wo_draws ?w1) 24)"
  obtain sess w2 where s3: "provider_session e u f (ts, info) ?w1 = (Inr (sess, ?sid), w2)"
    using provider_session_made[OF m i t, of ?w1 subject created ts] p by auto
  have "wo_store w2 = d" using storelessD[OF storeless_provider_session s3] by simp
  then have v2: "sees V e w2 = (sees V e w)\<lparr>v_flows := (v_flows (sees V e w))(state := None)\<rparr>" using d(2) by (simp add: sees_def)
  obtain sess' w3 where s4: "save_signed_in e rq (f_client_id f) ?sid sess w2 = (Inr sess', w3)"
    using signed_in_made[OF store now ttl app, of w2 ?sid rq sess] fresh v2 by auto
  let ?w4 = "w3\<lparr>wo_events := wo_events w3 @ [Login_Success (s_subject sess') (s_loa sess') (s_login_method sess')]\<rparr>"
  let ?code = "raw_url_encode (en_rand e (wo_draws ?w4) 24)"
  obtain x where x: "op_save_app_code (en_ops e) ?code (flow_code f ?sid) app_code_ttl (en_now e) (wo_store ?w4) = (Inr (), x)"
    using steady_store.code_saved[OF steady now, of app_code_ttl] by (fastforce simp: app_code_ttl_def second_def)
  let ?w5 = "?w4\<lparr>wo_draws := Suc (wo_draws ?w4), wo_store := x\<rparr>"
  have s5: "make_code e (flow_code f ?sid) ?w4 = (Inr ?code, ?w5)"
    using x by (simp add: make_code_def act_simps stored_Inr)
  have v5: "v_codes (sees V e ?w5) ?code = Some (flow_code f ?sid)"
    using session_store.saved_code[OF steady_store.axioms(1)[OF steady] now _ x] by (simp add: sees_def app_code_ttl_def second_def)
  have "callback e rq u w = (Inl (Redirect 302 (append_code_state (f_app_redirect_uri f) (issuer_id e) ?code (f_spa_state f))), ?w5)"
    using s1 s2 s3 s4 s5 q(1) app by (simp add: callback_def redirect_to_def)
  with v5 show ?thesis by blast
qed


section \<open>A sign-in on an example\<close>

definition answering_idp :: idp where
  "answering_idp = signing_idp\<lparr>idp_token := (\<lambda>url auth form. Some (200, Some \<lparr>idt_access = ''a'', idt_id = ''idtok''\<rparr>))\<rparr>"

definition national_entry :: up_entry where
  "national_entry = (example_entry answering_idp ''national'' [login_eid_scan] True)
     \<lparr>ue_provider := Some ((example_provider answering_idp ''national'' [login_eid_scan])\<lparr>pv_keys := True\<rparr>)\<rparr>"

definition sign_in_env :: "memory env" where
  "sign_in_env = (example_env None [])\<lparr>en_upstreams := [national_entry]\<rparr>"

definition example_binding :: string where
  "example_binding = replicate 43 (CHR ''A'')"

definition example_ask :: authorize_request where
  "example_ask = \<lparr>ar_params = [], ar_redirect_uri = ''https://portal.test/cb'', ar_client_id = ''portal-app'', ar_spa_state = ''s1'',
     ar_challenge = ''cc'', ar_method = ''S256'', ar_id_ask = \<lparr>ia_openid = False, ia_nonce = []\<rparr>,
     ar_sign_ask = \<lparr>sa_forced = False, sa_login = False, sa_none = False, sa_select_account = False, sa_max_age = None, sa_ui_locales = []\<rparr>,
     ar_named = [login_eid_scan], ar_tenant = [], ar_client = the (sign_in_client_of example_registry ''portal-app''), ar_app_scopes = []\<rparr>"

definition example_flow :: flow where
  "example_flow = sent_flow sign_in_env example_ask [login_eid_scan] example_binding False national_entry ''n1''"

definition flow_entries :: "(string \<times> entry) list" where
  "flow_entries = [(''flow:st1'', \<lparr>e_value = Flow_V example_flow, e_expires = example_now + flow_ttl\<rparr>)]"

definition bound_request :: "(string \<times> string) list \<Rightarrow> request" where
  "bound_request q = (get_form q)\<lparr>rq_cookie := (\<lambda>k. if k = ''__Host-authbyte_signin'' then example_binding else [])\<rparr>"

definition callback_request :: request where
  "callback_request = bound_request [(''code'', ''c1''), (''state'', ''st1'')]"


definition signed_tokens :: idp_tokens where
  "signed_tokens = \<lparr>idt_access = ''a'', idt_id = ''idtok''\<rparr>"

definition signed_person :: user_info where
  "signed_person = \<lparr>ui_subject = ''u1'', ui_acr = [], ui_amr = [], ui_given_name = ''Anna'', ui_family_name = [], ui_name = [],
     ui_serial_number = [], ui_email = [], ui_sign_identities = None, ui_issuer = [], ui_directory_id = ''u1'',
     ui_directory_guest = False, ui_auth_time = 1700000000\<rparr>"

lemma sign_in_now: "0 \<le> en_now sign_in_env" "0 < cf_session_ttl (en_config sign_in_env)"
  and sign_in_ready: "ready_store (en_ops sign_in_env) memory_view"
  using mem_ready.ready_store_axioms
  by (simp_all add: sign_in_env_def example_env_parts example_now_def of_unix_def second_def example_config_def)

lemma callback_fits:
  "query_string callback_request ''error'' = None" "query_string callback_request ''code'' = Some ''c1''"
  "query_string callback_request ''state'' = Some ''st1''" "\<not> is_assistant_ticket ''st1''"
  "browser_binding sign_in_env callback_request = example_binding" "example_binding \<noteq> []" "names_issuer callback_request national_entry"
  "ai_app (en_registry sign_in_env) (ar_client_id example_ask) = None"
  by code_simp+

lemma provider_vouches:
  "exchange (ue_prov national_entry) ''c1'' (return_address sign_in_env national_entry) = Inr signed_tokens"
  "claims (en_codes sign_in_env) (ue_prov national_entry) signed_tokens ''n1'' = Inr signed_person"
  by code_simp+

lemma person_read:
  "method_allowed (ue_prov national_entry) (id_login_method (resolve (provider_resolver (ue_prov national_entry)) signed_person))"
  "id_login_method (resolve (provider_resolver (ue_prov national_entry)) signed_person) \<in> set [login_eid_scan]"
  "sign_in_moment signed_person example_flow (en_now sign_in_env) = Some 1700000000"
  by code_simp+

lemma flow_kept: "v_flows (sees memory_view sign_in_env (example_world flow_entries)) ''st1'' = Some example_flow"
  unfolding sees_def memory_view_def view.select_convs
  by (simp add: lookup_live_def live_def flow_entries_def sign_in_env_def example_defs example_now_def of_unix_def second_def flow_ttl_def)

lemma nothing_else:
  "v_shared (sees memory_view sign_in_env (example_world flow_entries)) i = None"
  "v_sessions (sees memory_view sign_in_env (example_world flow_entries)) sid = None"
  "v_codes (sees memory_view sign_in_env (example_world flow_entries)) code = None"
  unfolding sees_def memory_view_def view.select_convs
  by (simp_all add: lookup_live_def flow_entries_def example_defs)

lemma person_known: "pe_ensure (en_people sign_in_env) n idp p = Inr (''p1'', False)"
  by (simp add: sign_in_env_def example_env_parts example_people_def)


lemma example_signs_in:
  "\<exists>code sid w. callback sign_in_env callback_request national_entry (example_world flow_entries)
      = (Inl (Redirect 302 (append_code_state (f_app_redirect_uri example_flow) (issuer_id sign_in_env) code (f_spa_state example_flow))), w)
     \<and> v_codes (sees memory_view sign_in_env w) code = Some (flow_code example_flow sid)"
proof -
  have f: "bound_here sign_in_env callback_request (f_binding example_flow)" "sent_to sign_in_env example_flow national_entry"
    "f_client_id example_flow = ar_client_id example_ask" "f_entrust_redirect_uri example_flow = return_address sign_in_env national_entry"
    "f_nonce example_flow = ''n1''" "f_requested_methods example_flow = [login_eid_scan]"
    by code_simp+
  show ?thesis
    by (rule sign_in_run[OF sign_in_ready sign_in_now callback_fits(1-4) flow_kept f(1,2) callback_fits(7) _ _ _ refl person_read(1) _ person_read(3)
        person_known nothing_else(1,2)]) (use callback_fits(8) provider_vouches person_read(2) f in \<open>simp_all add: method_requested_def\<close>)
qed

theorem callback_signs_in_where_it_began_witness:
  "\<exists>code w sid sess. v_codes (sees memory_view sign_in_env w) code = Some (flow_code example_flow sid)
     \<and> v_sessions (sees memory_view sign_in_env w) sid = Some sess \<and> signs_in_by sign_in_env national_entry example_flow signed_person sess"
proof -
  obtain code sid w where run: "callback sign_in_env callback_request national_entry (example_world flow_entries)
      = (Inl (Redirect 302 (append_code_state (f_app_redirect_uri example_flow) (issuer_id sign_in_env) code (f_spa_state example_flow))), w)"
    and made: "v_codes (sees memory_view sign_in_env w) code = Some (flow_code example_flow sid)"
    using example_signs_in by blast
  have new: "v_codes (sees memory_view sign_in_env (example_world flow_entries)) code \<noteq> Some (flow_code example_flow sid)"
    by (simp add: nothing_else)
  note store = steady_store.axioms(1)[OF ready_store.axioms(1)[OF sign_in_ready]]
  have fl: "f_entrust_redirect_uri example_flow = return_address sign_in_env national_entry" "f_nonce example_flow = ''n1''" by code_simp+
  from callback_signs_in_where_it_began[OF store sign_in_now run made new]
  obtain sid' sess where "flow_code example_flow sid = flow_code example_flow sid'"
    "v_sessions (sees memory_view sign_in_env w) sid' = Some sess" "signs_in_by sign_in_env national_entry example_flow signed_person sess"
    using flow_kept callback_fits(2,3) provider_vouches by (auto simp: fl)
  with made show ?thesis by (intro exI[of _ code] exI[of _ w] exI[of _ sid'] exI[of _ sess] conjI) simp_all
qed

lemma open_ready: "ready_store (en_ops open_env) memory_view" and open_ttl: "0 < cf_session_ttl (en_config open_env)"
  using mem_ready.ready_store_axioms by (simp_all add: open_env_def example_env_parts example_config_def second_def)

lemma shared_new: "v_shared (sees memory_view open_env (example_world shared_entries)) (raw_url_encode (en_rand open_env n shared_id_bytes)) = None"
proof -
  have long: "replicate 16 c = [c, c, c, c, c, c, c, c, c, c, c, c, c, c, c, c]" for c :: char by (simp add: eval_nat_numeral)
  have last: "last (raw_url_encode (en_rand open_env n shared_id_bytes)) = url_alphabet ! (of_char (char_of (n + 1) :: char) mod 4 * 16)"
    by (simp only: open_env_def example_env_parts shared_id_bytes_def raw_url_encode_def long list.map b64_encode.simps) simp
  have "k < 4 \<Longrightarrow> url_alphabet ! (k * 16) \<noteq> CHR ''i''" for k
    by (auto simp: url_alphabet_def numeral_eq_Suc less_Suc_eq)
  from this[of "of_char (char_of (n + 1) :: char) mod 4"]
  have "last (raw_url_encode (en_rand open_env n shared_id_bytes)) \<noteq> last example_shared_id"
    unfolding last by (simp add: example_shared_id_def)
  then have "raw_url_encode (en_rand open_env n shared_id_bytes) \<noteq> example_shared_id" by auto
  then show ?thesis
    unfolding sees_def memory_view_def view.select_convs
    by (simp add: lookup_live_def live_def shared_entries_def example_defs example_entries_def open_env_def)
qed



end
