(* ===== verification/Configuration.thy ===== *)
theory Configuration
  imports Http
begin

text \<open>
  The service's settings, \<open>src/config.go\<close> and \<open>src/secretfile.go\<close>: the names they are bound to, their defaults,
  what is refused, and what the parts of the service are given of them.

  The environment, the secret store, and how a value's text is read as a flag, a number or a length of time
  (viper) are parameters; a variable that is empty is one that is not set, as there. So are the check that a text
  is an address (the validator's \<open>url\<close>) and the validation of the fleet's own base configuration.
\<close>

section \<open>The settings\<close>

text \<open>\<open>Configuration\<close>, its fields by the keys they are bound to, in three parts.\<close>

record upstream_settings =
  st_issuer_url :: string
  st_jwks_url :: string
  st_base_url :: string
  st_oidc_upstream_authority_url :: string
  st_oidc_upstream_client_id :: string
  st_oidc_upstream_client_secret :: string
  st_oidc_upstream_scopes :: string
  st_oidc_upstream_authorize_url :: string
  st_oidc_upstream_token_url :: string
  st_oidc_upstream_userinfo_url :: string
  st_oidc_upstream_end_session_url :: string
  st_oidc_upstream_claim_serial :: string
  st_oidc_upstream_trust_identity_codes :: bool
  st_oidc_upstream_issuer :: string
  st_oidc_upstream_jwks_url :: string
  st_oidc_upstream_claim_directory_id :: string
  st_oidc_upstream_claim_email :: string
  st_oidc_upstream_claim_account_status :: string
  st_oidc_upstream_account_status_guest :: string
  st_oidc_upstream_method_policy :: string
  st_oidc_upstream_method_default :: string
  st_oidc_upstream_methods_allowed :: string
  st_oidc_upstream_methods_federated :: string
  st_oidc_upstream_loa_default :: string

record signing_settings = upstream_settings +
  st_eparaksts_authority_url :: string
  st_eparaksts_client_id :: string
  st_eparaksts_client_secret :: string
  st_eparaksts_redirect_path :: string
  st_eparaksts_scopes :: string
  st_eparaksts_acr_mobile :: string
  st_eparaksts_acr_eidscan :: string
  st_eparaksts_acr_legacy_eid :: string
  st_eparaksts_logout_idp :: string
  st_loa_policy :: string
  st_token_signing_key :: string
  st_token_signing_alg :: string
  st_allow_ephemeral_signing_key :: bool
  st_signing_key_reload_interval :: duration
  st_user_token_ttl :: duration
  st_service_token_ttl :: duration
  st_app_token_ttl :: duration
  st_dpop_proof_max_age :: duration
  st_token_clock_skew_leeway :: duration
  st_session_ttl :: duration
  st_dpop_nonce_enabled :: bool
  st_dpop_nonce_ttl :: duration
  st_service_client_registry :: string

record settings = signing_settings +
  st_postgres_dsn :: string
  st_access_audit_url :: string
  st_access_audit_audience :: string
  st_access_audit_scope :: string
  st_access_audit_outbox_dir :: string
  st_webeid_engine_url :: string
  st_webeid_audience :: string
  st_webeid_scope :: string
  st_rolebyte_url :: string
  st_rolebyte_audience :: string
  st_audit_client_id :: string
  st_audit_client_secret :: string
  st_audit_issuer_url :: string
  st_oidc_upstream_display_name :: string
  st_sign_in_operator_name :: string
  st_sign_in_operator_mark_file :: string
  st_sign_in_rate_limit :: int
  st_sign_in_rate_window :: duration
  st_demo_dir :: string

section \<open>Reading them\<close>

record environment =
  ev_variables :: "string \<Rightarrow> string"
  ev_secrets :: "string \<Rightarrow> string option"
  ev_files :: "string \<Rightarrow> string option"
  ev_flag :: "string \<Rightarrow> bool option"
  ev_count :: "string \<Rightarrow> int option"
  ev_duration :: "string \<Rightarrow> duration option"

definition minute :: duration where "minute = 60 * second"

definition bindings :: "(string \<times> string) list" where
  "bindings =
     [(''issuer_url'', ''AUTH_ISSUER_URL''), (''jwks_url'', ''AUTH_JWKS_URL''),
      (''oidc_upstream_authority_url'', ''OIDC_UPSTREAM_AUTHORITY_URL''),
      (''oidc_upstream_client_id'', ''OIDC_UPSTREAM_CLIENT_ID''),
      (''oidc_upstream_client_secret'', ''OIDC_UPSTREAM_CLIENT_SECRET''),
      (''oidc_upstream_scopes'', ''OIDC_UPSTREAM_SCOPES''),
      (''oidc_upstream_authorize_url'', ''OIDC_UPSTREAM_AUTHORIZE_URL''),
      (''oidc_upstream_token_url'', ''OIDC_UPSTREAM_TOKEN_URL''),
      (''oidc_upstream_userinfo_url'', ''OIDC_UPSTREAM_USERINFO_URL''),
      (''oidc_upstream_end_session_url'', ''OIDC_UPSTREAM_END_SESSION_URL''),
      (''oidc_upstream_claim_serial'', ''OIDC_UPSTREAM_CLAIM_SERIAL''),
      (''oidc_upstream_trust_identity_codes'', ''OIDC_UPSTREAM_TRUST_IDENTITY_CODES''),
      (''oidc_upstream_issuer'', ''OIDC_UPSTREAM_ISSUER''), (''oidc_upstream_jwks_url'', ''OIDC_UPSTREAM_JWKS_URL''),
      (''oidc_upstream_claim_directory_id'', ''OIDC_UPSTREAM_CLAIM_DIRECTORY_ID''),
      (''oidc_upstream_claim_email'', ''OIDC_UPSTREAM_CLAIM_EMAIL''),
      (''oidc_upstream_claim_account_status'', ''OIDC_UPSTREAM_CLAIM_ACCOUNT_STATUS''),
      (''oidc_upstream_account_status_guest'', ''OIDC_UPSTREAM_ACCOUNT_STATUS_GUEST''),
      (''oidc_upstream_method_policy'', ''OIDC_UPSTREAM_METHOD_POLICY''),
      (''oidc_upstream_method_default'', ''OIDC_UPSTREAM_METHOD_DEFAULT''),
      (''oidc_upstream_methods_allowed'', ''OIDC_UPSTREAM_METHODS_ALLOWED''),
      (''oidc_upstream_methods_federated'', ''OIDC_UPSTREAM_METHODS_FEDERATED''),
      (''oidc_upstream_loa_default'', ''OIDC_UPSTREAM_LOA_DEFAULT''),
      (''oidc_upstream_display_name'', ''OIDC_UPSTREAM_DISPLAY_NAME''),
      (''sign_in_operator_name'', ''SIGN_IN_OPERATOR_NAME''),
      (''sign_in_operator_mark_file'', ''SIGN_IN_OPERATOR_MARK_FILE''),
      (''sign_in_rate_limit'', ''SIGN_IN_RATE_LIMIT''), (''sign_in_rate_window'', ''SIGN_IN_RATE_WINDOW''),
      (''eparaksts_authority_url'', ''EPARAKSTS_AUTHORITY_URL''), (''eparaksts_client_id'', ''EPARAKSTS_CLIENT_ID''),
      (''eparaksts_client_secret'', ''EPARAKSTS_CLIENT_SECRET''), (''base_url'', ''BASE_URL''),
      (''eparaksts_redirect_path'', ''EPARAKSTS_REDIRECT_PATH''), (''eparaksts_scopes'', ''EPARAKSTS_SCOPES''),
      (''eparaksts_acr_mobile'', ''EPARAKSTS_ACR_MOBILE''), (''eparaksts_acr_eidscan'', ''EPARAKSTS_ACR_EIDSCAN''),
      (''eparaksts_acr_legacy_eid'', ''EPARAKSTS_ACR_LEGACY_EID''),
      (''eparaksts_logout_idp'', ''EPARAKSTS_LOGOUT_IDP''), (''loa_policy'', ''LOA_POLICY''),
      (''token_signing_key'', ''TOKEN_SIGNING_KEY''), (''token_signing_alg'', ''TOKEN_SIGNING_ALG''),
      (''allow_ephemeral_signing_key'', ''ALLOW_EPHEMERAL_SIGNING_KEY''),
      (''signing_key_reload_interval'', ''SIGNING_KEY_RELOAD_INTERVAL''), (''user_token_ttl'', ''USER_TOKEN_TTL''),
      (''service_token_ttl'', ''SERVICE_TOKEN_TTL''), (''app_token_ttl'', ''APP_TOKEN_TTL''),
      (''session_ttl'', ''SESSION_TTL''), (''dpop_proof_max_age'', ''DPOP_PROOF_MAX_AGE''),
      (''token_clock_skew_leeway'', ''TOKEN_CLOCK_SKEW_LEEWAY''), (''dpop_nonce_enabled'', ''DPOP_NONCE_ENABLED''),
      (''dpop_nonce_ttl'', ''DPOP_NONCE_TTL''), (''service_client_registry'', ''SERVICE_CLIENT_REGISTRY''),
      (''postgres_dsn'', ''POSTGRES_DSN''), (''demo_dir'', ''DEMO_DIR''),
      (''access_audit_url'', ''ACCESS_AUDIT_URL''), (''access_audit_audience'', ''ACCESS_AUDIT_AUDIENCE''),
      (''access_audit_scope'', ''ACCESS_AUDIT_SCOPE''), (''access_audit_outbox_dir'', ''ACCESS_AUDIT_OUTBOX_DIR''),
      (''webeid_engine_url'', ''WEBEID_ENGINE_URL''), (''webeid_audience'', ''WEBEID_AUDIENCE''),
      (''webeid_scope'', ''WEBEID_SCOPE''), (''rolebyte_url'', ''ROLEBYTE_URL''),
      (''rolebyte_audience'', ''ROLEBYTE_AUDIENCE''), (''audit_client_id'', ''AUDIT_CLIENT_ID''),
      (''audit_client_secret'', ''AUDIT_CLIENT_SECRET''), (''audit_issuer_url'', ''AUDIT_ISSUER_URL'')]"

definition secret_names :: "(string \<times> string) list" where
  "secret_names =
     [(''oidc_upstream_client_secret'', ''OIDC_UPSTREAM_CLIENT_SECRET''),
      (''eparaksts_client_secret'', ''EPARAKSTS_CLIENT_SECRET''), (''token_signing_key'', ''TOKEN_SIGNING_KEY''),
      (''service_client_registry'', ''SERVICE_CLIENT_REGISTRY''), (''postgres_dsn'', ''POSTGRES_DSN''),
      (''audit_client_secret'', ''AUDIT_CLIENT_SECRET'')]"

definition text_defaults :: "(string \<times> string) list" where
  "text_defaults =
     [(''token_signing_alg'', ''ES256''),
      (''eparaksts_scopes'', ''urn:lvrtc:fpeil:aa urn:safelayer:eidas:sign:identity:profile''),
      (''eparaksts_redirect_path'', ''/callback''), (''base_url'', ''http://localhost:8080''),
      (''eparaksts_acr_mobile'', ''urn:eparaksts:authentication:flow:mobileid''),
      (''eparaksts_acr_eidscan'', ''urn:eparaksts:authentication:flow:mobile-eid''),
      (''eparaksts_acr_legacy_eid'', ''urn:eparaksts:authentication:flow:sc_plugin''),
      (''eparaksts_logout_idp'', eparaksts_default_logout_idp),
      (''access_audit_audience'', ''svc:access-audit''), (''access_audit_scope'', ''access-audit:write''),
      (''audit_client_id'', ''svc:authbyte-core''), (''webeid_audience'', ''svc:web-eid''),
      (''webeid_scope'', ''webeid:validate''), (''rolebyte_audience'', ''svc:rolebyte'')]"

definition duration_defaults :: "(string \<times> duration) list" where
  "duration_defaults =
     [(''user_token_ttl'', 15 * minute), (''service_token_ttl'', 5 * minute), (''app_token_ttl'', 5 * minute),
      (''session_ttl'', 12 * 60 * minute), (''dpop_proof_max_age'', 60 * second),
      (''token_clock_skew_leeway'', 30 * second), (''dpop_nonce_ttl'', 5 * minute),
      (''sign_in_rate_window'', minute)]"

definition flag_defaults :: "(string \<times> bool) list" where
  "flag_defaults = [(''dpop_nonce_enabled'', True)]"

definition count_defaults :: "(string \<times> int) list" where
  "count_defaults = [(''sign_in_rate_limit'', 60)]"

text \<open>The text a key's variable gives; a secret the store gives is a default, so its variable still overrides it.\<close>

definition bound :: "environment \<Rightarrow> string \<Rightarrow> string option" where
  "bound ev key =
     (case map_of bindings key of
        None \<Rightarrow> None
      | Some name \<Rightarrow> if ev_variables ev name = [] then None else Some (ev_variables ev name))"

definition load_secret :: "environment \<Rightarrow> string \<Rightarrow> string option" where
  "load_secret ev key =
     (case map_of secret_names key of
        None \<Rightarrow> None
      | Some name \<Rightarrow> (case ev_secrets ev name of Some s \<Rightarrow> if s = [] then None else Some s | None \<Rightarrow> None))"

definition with_default :: "'a \<Rightarrow> 'a option \<Rightarrow> 'a" where
  "with_default d v = (case v of Some x \<Rightarrow> x | None \<Rightarrow> d)"

definition text_setting :: "environment \<Rightarrow> string \<Rightarrow> string" where
  "text_setting ev key =
     with_default (with_default (with_default [] (map_of text_defaults key)) (load_secret ev key)) (bound ev key)"

text \<open>A value of another type: \<open>None\<close> when its variable's text does not read as one.\<close>

definition typed_setting :: "(string \<Rightarrow> 'a option) \<Rightarrow> 'a \<Rightarrow> (string \<times> 'a) list \<Rightarrow> environment \<Rightarrow> string \<Rightarrow> 'a option" where
  "typed_setting read zero defaults ev key =
     (case bound ev key of Some s \<Rightarrow> read s | None \<Rightarrow> Some (with_default zero (map_of defaults key)))"

definition flag_read :: "environment \<Rightarrow> string \<Rightarrow> bool option" where
  "flag_read ev = typed_setting (ev_flag ev) False flag_defaults ev"

definition count_read :: "environment \<Rightarrow> string \<Rightarrow> int option" where
  "count_read ev = typed_setting (ev_count ev) 0 count_defaults ev"

definition duration_read :: "environment \<Rightarrow> string \<Rightarrow> duration option" where
  "duration_read ev = typed_setting (ev_duration ev) 0 duration_defaults ev"

definition flag_setting :: "environment \<Rightarrow> string \<Rightarrow> bool" where
  "flag_setting ev key = with_default False (flag_read ev key)"

definition count_setting :: "environment \<Rightarrow> string \<Rightarrow> int" where
  "count_setting ev key = with_default 0 (count_read ev key)"

definition duration_setting :: "environment \<Rightarrow> string \<Rightarrow> duration" where
  "duration_setting ev key = with_default 0 (duration_read ev key)"

definition flag_keys :: "string list" where
  "flag_keys = [''oidc_upstream_trust_identity_codes'', ''allow_ephemeral_signing_key'', ''dpop_nonce_enabled'']"

definition count_keys :: "string list" where
  "count_keys = [''sign_in_rate_limit'']"

definition duration_keys :: "string list" where
  "duration_keys =
     [''signing_key_reload_interval'', ''user_token_ttl'', ''service_token_ttl'', ''app_token_ttl'', ''dpop_proof_max_age'',
      ''token_clock_skew_leeway'', ''session_ttl'', ''dpop_nonce_ttl'', ''sign_in_rate_window'']"

definition read_settings :: "environment \<Rightarrow> settings" where
  "read_settings ev =
     \<lparr>st_issuer_url = text_setting ev ''issuer_url'', st_jwks_url = text_setting ev ''jwks_url'',
      st_base_url = text_setting ev ''base_url'',
      st_oidc_upstream_authority_url = text_setting ev ''oidc_upstream_authority_url'',
      st_oidc_upstream_client_id = text_setting ev ''oidc_upstream_client_id'',
      st_oidc_upstream_client_secret = text_setting ev ''oidc_upstream_client_secret'',
      st_oidc_upstream_scopes = text_setting ev ''oidc_upstream_scopes'',
      st_oidc_upstream_authorize_url = text_setting ev ''oidc_upstream_authorize_url'',
      st_oidc_upstream_token_url = text_setting ev ''oidc_upstream_token_url'',
      st_oidc_upstream_userinfo_url = text_setting ev ''oidc_upstream_userinfo_url'',
      st_oidc_upstream_end_session_url = text_setting ev ''oidc_upstream_end_session_url'',
      st_oidc_upstream_claim_serial = text_setting ev ''oidc_upstream_claim_serial'',
      st_oidc_upstream_trust_identity_codes = flag_setting ev ''oidc_upstream_trust_identity_codes'',
      st_oidc_upstream_issuer = text_setting ev ''oidc_upstream_issuer'',
      st_oidc_upstream_jwks_url = text_setting ev ''oidc_upstream_jwks_url'',
      st_oidc_upstream_claim_directory_id = text_setting ev ''oidc_upstream_claim_directory_id'',
      st_oidc_upstream_claim_email = text_setting ev ''oidc_upstream_claim_email'',
      st_oidc_upstream_claim_account_status = text_setting ev ''oidc_upstream_claim_account_status'',
      st_oidc_upstream_account_status_guest = text_setting ev ''oidc_upstream_account_status_guest'',
      st_oidc_upstream_method_policy = text_setting ev ''oidc_upstream_method_policy'',
      st_oidc_upstream_method_default = text_setting ev ''oidc_upstream_method_default'',
      st_oidc_upstream_methods_allowed = text_setting ev ''oidc_upstream_methods_allowed'',
      st_oidc_upstream_methods_federated = text_setting ev ''oidc_upstream_methods_federated'',
      st_oidc_upstream_loa_default = text_setting ev ''oidc_upstream_loa_default'',
      st_eparaksts_authority_url = text_setting ev ''eparaksts_authority_url'',
      st_eparaksts_client_id = text_setting ev ''eparaksts_client_id'',
      st_eparaksts_client_secret = text_setting ev ''eparaksts_client_secret'',
      st_eparaksts_redirect_path = text_setting ev ''eparaksts_redirect_path'',
      st_eparaksts_scopes = text_setting ev ''eparaksts_scopes'',
      st_eparaksts_acr_mobile = text_setting ev ''eparaksts_acr_mobile'',
      st_eparaksts_acr_eidscan = text_setting ev ''eparaksts_acr_eidscan'',
      st_eparaksts_acr_legacy_eid = text_setting ev ''eparaksts_acr_legacy_eid'',
      st_eparaksts_logout_idp = text_setting ev ''eparaksts_logout_idp'',
      st_loa_policy = text_setting ev ''loa_policy'', st_token_signing_key = text_setting ev ''token_signing_key'',
      st_token_signing_alg = text_setting ev ''token_signing_alg'',
      st_allow_ephemeral_signing_key = flag_setting ev ''allow_ephemeral_signing_key'',
      st_signing_key_reload_interval = duration_setting ev ''signing_key_reload_interval'',
      st_user_token_ttl = duration_setting ev ''user_token_ttl'',
      st_service_token_ttl = duration_setting ev ''service_token_ttl'',
      st_app_token_ttl = duration_setting ev ''app_token_ttl'',
      st_dpop_proof_max_age = duration_setting ev ''dpop_proof_max_age'',
      st_token_clock_skew_leeway = duration_setting ev ''token_clock_skew_leeway'',
      st_session_ttl = duration_setting ev ''session_ttl'',
      st_dpop_nonce_enabled = flag_setting ev ''dpop_nonce_enabled'',
      st_dpop_nonce_ttl = duration_setting ev ''dpop_nonce_ttl'',
      st_service_client_registry = text_setting ev ''service_client_registry'',
      st_postgres_dsn = text_setting ev ''postgres_dsn'', st_access_audit_url = text_setting ev ''access_audit_url'',
      st_access_audit_audience = text_setting ev ''access_audit_audience'',
      st_access_audit_scope = text_setting ev ''access_audit_scope'',
      st_access_audit_outbox_dir = text_setting ev ''access_audit_outbox_dir'',
      st_webeid_engine_url = text_setting ev ''webeid_engine_url'',
      st_webeid_audience = text_setting ev ''webeid_audience'', st_webeid_scope = text_setting ev ''webeid_scope'',
      st_rolebyte_url = text_setting ev ''rolebyte_url'',
      st_rolebyte_audience = text_setting ev ''rolebyte_audience'',
      st_audit_client_id = text_setting ev ''audit_client_id'',
      st_audit_client_secret = text_setting ev ''audit_client_secret'',
      st_audit_issuer_url = text_setting ev ''audit_issuer_url'',
      st_oidc_upstream_display_name = text_setting ev ''oidc_upstream_display_name'',
      st_sign_in_operator_name = text_setting ev ''sign_in_operator_name'',
      st_sign_in_operator_mark_file = text_setting ev ''sign_in_operator_mark_file'',
      st_sign_in_rate_limit = count_setting ev ''sign_in_rate_limit'',
      st_sign_in_rate_window = duration_setting ev ''sign_in_rate_window'',
      st_demo_dir = text_setting ev ''demo_dir''\<rparr>"

definition load_settings :: "environment \<Rightarrow> settings option" where
  "load_settings ev =
     (if (\<forall>k\<in>set flag_keys. flag_read ev k \<noteq> None) \<and> (\<forall>k\<in>set count_keys. count_read ev k \<noteq> None)
       \<and> (\<forall>k\<in>set duration_keys. duration_read ev k \<noteq> None)
      then Some (read_settings ev) else None)"

section \<open>What is refused\<close>

datatype config_error =
    Unreadable_Setting
  | Empty_File_Secret string
  | Base_Refused
  | Invalid_Fields "string list"
  | No_Upstream
  | Two_Upstreams
  | Generic_Without_Client
  | Eparaksts_Without_Client
  | Claim_Never_Read

definition refuse_empty_file_secret :: "environment \<Rightarrow> string \<Rightarrow> string \<Rightarrow> config_error option" where
  "refuse_empty_file_secret ev name val =
     fail_if (ev_variables ev (name @ ''_FILE'') \<noteq> [] \<and> trim_space val = []) (Empty_File_Secret name)"

definition issuer_identifier :: "string \<Rightarrow> string" where
  "issuer_identifier raw = trim_suffix (trim_space raw) ''/''"

text \<open>The fields' rules, by the fields' own names, in their order.\<close>

definition field_rules :: "(string \<Rightarrow> bool) \<Rightarrow> settings \<Rightarrow> (string \<times> bool) list" where
  "field_rules url s =
     [(''IssuerURL'', st_issuer_url s \<noteq> [] \<and> url (st_issuer_url s)),
      (''BaseURL'', st_base_url s \<noteq> [] \<and> url (st_base_url s)),
      (''OIDCUpstreamAuthorityURL'', st_oidc_upstream_authority_url s = [] \<or> url (st_oidc_upstream_authority_url s)),
      (''OIDCUpstreamAuthorizeURL'', st_oidc_upstream_authorize_url s = [] \<or> url (st_oidc_upstream_authorize_url s)),
      (''OIDCUpstreamTokenURL'', st_oidc_upstream_token_url s = [] \<or> url (st_oidc_upstream_token_url s)),
      (''OIDCUpstreamUserInfoURL'', st_oidc_upstream_userinfo_url s = [] \<or> url (st_oidc_upstream_userinfo_url s)),
      (''OIDCUpstreamEndSessionURL'', st_oidc_upstream_end_session_url s = [] \<or> url (st_oidc_upstream_end_session_url s)),
      (''OIDCUpstreamIssuer'', st_oidc_upstream_issuer s = [] \<or> url (st_oidc_upstream_issuer s)),
      (''OIDCUpstreamJWKSURL'', st_oidc_upstream_jwks_url s = [] \<or> url (st_oidc_upstream_jwks_url s)),
      (''EparakstsAuthorityURL'', st_eparaksts_authority_url s = [] \<or> url (st_eparaksts_authority_url s)),
      (''TokenSigningAlg'', st_token_signing_alg s \<noteq> [] \<and> st_token_signing_alg s = es256),
      (''SigningKeyReloadInterval'', 0 \<le> st_signing_key_reload_interval s),
      (''UserTokenTTL'', st_user_token_ttl s \<noteq> 0 \<and> 0 < st_user_token_ttl s),
      (''ServiceTokenTTL'', st_service_token_ttl s \<noteq> 0 \<and> 0 < st_service_token_ttl s),
      (''AppTokenTTL'', st_app_token_ttl s \<noteq> 0 \<and> 0 < st_app_token_ttl s),
      (''DPoPProofMaxAge'', st_dpop_proof_max_age s \<noteq> 0 \<and> 0 < st_dpop_proof_max_age s),
      (''TokenClockSkewLeeway'', 0 \<le> st_token_clock_skew_leeway s),
      (''SessionTTL'', st_session_ttl s \<noteq> 0 \<and> 0 < st_session_ttl s),
      (''DPoPNonceTTL'', st_dpop_nonce_ttl s \<noteq> 0 \<and> 0 < st_dpop_nonce_ttl s),
      (''PostgresDSN'', st_postgres_dsn s \<noteq> []),
      (''AccessAuditURL'', st_access_audit_url s = [] \<or> url (st_access_audit_url s)),
      (''WebEIDEngineURL'', st_webeid_engine_url s = [] \<or> url (st_webeid_engine_url s)),
      (''RolebyteURL'', st_rolebyte_url s = [] \<or> url (st_rolebyte_url s)),
      (''AuditIssuerURL'', st_audit_issuer_url s = [] \<or> url (st_audit_issuer_url s)),
      (''SignInRateLimit'', 0 \<le> st_sign_in_rate_limit s),
      (''SignInRateWindow'', 0 < st_sign_in_rate_window s)]"

definition invalid_fields :: "(string \<Rightarrow> bool) \<Rightarrow> settings \<Rightarrow> string list" where
  "invalid_fields url s = map fst (filter (\<lambda>(n, ok). \<not> ok) (field_rules url s))"

text \<open>The generic provider is configured by its authority or by all three of its endpoints.\<close>

definition generic_upstream :: "settings \<Rightarrow> bool" where
  "generic_upstream s \<longleftrightarrow> st_oidc_upstream_authority_url s \<noteq> []
     \<or> st_oidc_upstream_authorize_url s \<noteq> [] \<and> st_oidc_upstream_token_url s \<noteq> [] \<and> st_oidc_upstream_userinfo_url s \<noteq> []"

definition validate_upstream :: "settings \<Rightarrow> config_error option" where
  "validate_upstream s =
     (let generic = generic_upstream s; eparaksts = (st_eparaksts_authority_url s \<noteq> []) in
      if \<not> generic \<and> \<not> eparaksts then Some No_Upstream
      else if generic \<and> eparaksts then Some Two_Upstreams
      else if generic \<and> st_oidc_upstream_client_id s = [] then Some Generic_Without_Client
      else if \<not> generic \<and> eparaksts \<and> st_eparaksts_client_id s = [] then Some Eparaksts_Without_Client
      else if generic \<and> st_oidc_upstream_claim_serial s \<noteq> [] \<and> \<not> st_oidc_upstream_trust_identity_codes s
        then Some Claim_Never_Read
      else None)"

text \<open>\<open>Validate\<close>: the settings the service runs with, the issuer's address in its one form. \<open>given\<close> says the
  composing program passed its own providers.\<close>

definition validate :: "environment \<Rightarrow> (string \<Rightarrow> bool) \<Rightarrow> bool \<Rightarrow> string \<Rightarrow> bool \<Rightarrow> settings \<Rightarrow> config_error + settings" where
  "validate ev url base_ok cache_password given s =
     (case refuse_empty_file_secret ev ''CACHE_PASSWORD'' cache_password of
        Some err \<Rightarrow> Inl err
      | None \<Rightarrow>
          if \<not> base_ok then Inl Base_Refused
          else if invalid_fields url s \<noteq> [] then Inl (Invalid_Fields (invalid_fields url s))
          else let s' = s\<lparr>st_issuer_url := issuer_identifier (st_issuer_url s)\<rparr> in
            if given then Inr s'
            else (case validate_upstream s' of Some err \<Rightarrow> Inl err | None \<Rightarrow> Inr s'))"

section \<open>Lists and pairs in one setting\<close>

fun split_where :: "(char \<Rightarrow> bool) \<Rightarrow> string \<Rightarrow> string list" where
  "split_where p [] = [[]]"
| "split_where p (c # s) =
     (if p c then [] # split_where p s else (case split_where p s of t # ts \<Rightarrow> (c # t) # ts | [] \<Rightarrow> [[c]]))"

definition fields_where :: "(char \<Rightarrow> bool) \<Rightarrow> string \<Rightarrow> string list" where
  "fields_where p s = filter (\<lambda>t. t \<noteq> []) (split_where p s)"

definition split_space_list :: "string \<Rightarrow> string list" where
  "split_space_list s =
     filter (\<lambda>p. p \<noteq> []) (map trim_space (fields_where (\<lambda>c. c = CHR '' '' \<or> c = CHR '','') s))"

definition split_list :: "string \<Rightarrow> string list" where
  "split_list s = filter (\<lambda>p. p \<noteq> []) (map trim_space (split_on (CHR '','') s))"

text \<open>One \<open>key=value\<close> pair: nothing when it has no \<open>=\<close>, or nothing on a side.\<close>

definition read_pair :: "string \<Rightarrow> (string \<times> string) option" where
  "read_pair p =
     (case cut (CHR ''='') p of (k, v, ok) \<Rightarrow>
        if ok \<and> trim_space k \<noteq> [] \<and> trim_space v \<noteq> [] then Some (trim_space k, trim_space v) else None)"

definition put_pair :: "policy \<Rightarrow> string \<Rightarrow> policy" where
  "put_pair m p = (case read_pair (trim_space p) of Some (k, v) \<Rightarrow> AList.update k v m | None \<Rightarrow> m)"

definition parse_pairs :: "string \<Rightarrow> policy" where
  "parse_pairs s = foldl put_pair [] (split_on (CHR '','') s)"

definition loa_policy_map :: "settings \<Rightarrow> policy" where
  "loa_policy_map s =
     foldl (\<lambda>m p. if trim_space p = [] then m else put_pair m p) [] (split_on (CHR '','') (st_loa_policy s))"

section \<open>What the parts are given\<close>

definition given_list :: "'a list \<Rightarrow> 'a list \<Rightarrow> 'a list" where
  "given_list new old = (if new \<noteq> [] then new else old)"

definition base_upstream :: "settings \<Rightarrow> up_config" where
  "base_upstream s =
     (if generic_upstream s then
        empty_up_config\<lparr>uc_authority_url := st_oidc_upstream_authority_url s, uc_client_id := st_oidc_upstream_client_id s,
          uc_client_secret := st_oidc_upstream_client_secret s, uc_scopes := split_space_list (st_oidc_upstream_scopes s),
          uc_authorize_url := st_oidc_upstream_authorize_url s, uc_token_url := st_oidc_upstream_token_url s,
          uc_userinfo_url := st_oidc_upstream_userinfo_url s, uc_end_session_url := st_oidc_upstream_end_session_url s,
          uc_issuer := st_oidc_upstream_issuer s, uc_jwks_url := st_oidc_upstream_jwks_url s,
          uc_method_default := ''upstream'', uc_trust_codes := st_oidc_upstream_trust_identity_codes s\<rparr>
      else
        let c = eparaksts_profile (st_eparaksts_authority_url s) (st_eparaksts_logout_idp s) in
        c\<lparr>uc_client_id := st_eparaksts_client_id s, uc_client_secret := st_eparaksts_client_secret s,
          uc_scopes := given_list (split_space_list (st_eparaksts_scopes s)) (uc_scopes c)\<rparr>)"

definition upstream_config :: "settings \<Rightarrow> up_config" where
  "upstream_config s =
     (let c = base_upstream s in
      c\<lparr>uc_claim_serial := given_list (st_oidc_upstream_claim_serial s) (uc_claim_serial c),
        uc_claim_directory_id := st_oidc_upstream_claim_directory_id s,
        uc_claim_email := st_oidc_upstream_claim_email s,
        uc_claim_account_status := st_oidc_upstream_claim_account_status s,
        uc_account_status_guest := st_oidc_upstream_account_status_guest s,
        uc_clock_skew := st_token_clock_skew_leeway s,
        uc_method_policy := given_list (parse_pairs (st_oidc_upstream_method_policy s)) (uc_method_policy c),
        uc_method_default := given_list (st_oidc_upstream_method_default s) (uc_method_default c),
        uc_methods_allowed := given_list (split_list (st_oidc_upstream_methods_allowed s)) (uc_methods_allowed c),
        uc_methods_federated := given_list (split_list (st_oidc_upstream_methods_federated s)) (uc_methods_federated c),
        uc_loa_policy := given_list (loa_policy_map s) (uc_loa_policy c),
        uc_loa_default := given_list (st_oidc_upstream_loa_default s) (uc_loa_default c)\<rparr>)"

definition jwks_url :: "settings \<Rightarrow> string" where
  "jwks_url s =
     (let u = trim_space (st_jwks_url s) in
      if u \<noteq> [] then u else trim_suffix (st_issuer_url s) ''/'' @ ''/.well-known/jwks.json'')"

definition callback_path :: "settings \<Rightarrow> string" where
  "callback_path s =
     (let p = trim_space (st_eparaksts_redirect_path s) in if has_prefix p ''/'' then p else ''/'' @ p)"

definition acr_for_method :: "settings \<Rightarrow> string \<Rightarrow> string" where
  "acr_for_method s m =
     (if m = login_eparaksts_mobile then st_eparaksts_acr_mobile s
      else if m = login_eid_scan then st_eparaksts_acr_eidscan s
      else if m = login_legacy_eid then st_eparaksts_acr_legacy_eid s
      else [])"

definition upstream_entry :: "settings \<Rightarrow> provider \<Rightarrow> up_entry" where
  "upstream_entry s p =
     \<lparr>ue_name = (if generic_upstream s then ''oidc'' else ''eparaksts''), ue_provider = Some p,
      ue_return_path = callback_path s, ue_display_name = st_oidc_upstream_display_name s,
      ue_acr = foldl (\<lambda>acr m. if acr_for_method s m \<noteq> [] then AList.update m (acr_for_method s m) acr else acr) [] (methods p),
      ue_holds_stored = True, ue_key = []\<rparr>"

definition scope_list :: "settings \<Rightarrow> string list" where
  "scope_list s = split_list (st_eparaksts_scopes s)"

definition access_audit_enabled :: "settings \<Rightarrow> bool" where
  "access_audit_enabled s \<longleftrightarrow> trim_space (st_access_audit_url s) \<noteq> []"

definition webeid_enabled :: "settings \<Rightarrow> bool" where
  "webeid_enabled s \<longleftrightarrow> trim_space (st_webeid_engine_url s) \<noteq> []"

definition rolebyte_enabled :: "settings \<Rightarrow> bool" where
  "rolebyte_enabled s \<longleftrightarrow> trim_space (st_rolebyte_url s) \<noteq> []"

definition audit_issuer :: "settings \<Rightarrow> string" where
  "audit_issuer s = (let u = trim_space (st_audit_issuer_url s) in if u \<noteq> [] then u else st_issuer_url s)"

text \<open>The authentication library's configuration, its replay guard in memory and proofs of possession required
  for both of the service's uses of it.\<close>

record auth_config =
  aa_issuer_url :: string
  aa_jwks_url :: string
  aa_jwks_cache :: duration
  aa_client_id :: string
  aa_client_secret :: string
  aa_early_refresh :: duration
  aa_proof_max_age :: duration
  aa_leeway :: duration
  aa_nonce_enabled :: bool
  aa_nonce_ttl :: duration
  aa_require_dpop :: bool
  aa_audience :: string
  aa_also_audiences :: "string list"

definition auth_client_config :: "settings \<Rightarrow> auth_config" where
  "auth_client_config s =
     \<lparr>aa_issuer_url = st_issuer_url s, aa_jwks_url = jwks_url s, aa_jwks_cache = 10 * minute, aa_client_id = [],
      aa_client_secret = [], aa_early_refresh = 30 * second, aa_proof_max_age = st_dpop_proof_max_age s,
      aa_leeway = st_token_clock_skew_leeway s, aa_nonce_enabled = st_dpop_nonce_enabled s,
      aa_nonce_ttl = st_dpop_nonce_ttl s, aa_require_dpop = True, aa_audience = [], aa_also_audiences = []\<rparr>"

definition audit_auth_client_config :: "settings \<Rightarrow> auth_config" where
  "audit_auth_client_config s =
     \<lparr>aa_issuer_url = audit_issuer s, aa_jwks_url = jwks_url s, aa_jwks_cache = 10 * minute,
      aa_client_id = st_audit_client_id s, aa_client_secret = st_audit_client_secret s, aa_early_refresh = 30 * second,
      aa_proof_max_age = st_dpop_proof_max_age s, aa_leeway = st_token_clock_skew_leeway s,
      aa_nonce_enabled = st_dpop_nonce_enabled s, aa_nonce_ttl = st_dpop_nonce_ttl s, aa_require_dpop = True,
      aa_audience = [], aa_also_audiences = []\<rparr>"

text \<open>The access-records client; its other knobs are its library's defaults.\<close>

record gdpr_config =
  gc_endpoint :: string
  gc_audience :: string
  gc_scope :: string

definition gdpr_configuration :: "settings \<Rightarrow> gdpr_config" where
  "gdpr_configuration s =
     \<lparr>gc_endpoint = st_access_audit_url s, gc_audience = st_access_audit_audience s, gc_scope = st_access_audit_scope s\<rparr>"

record rate_limit =
  rl_enabled :: bool
  rl_strategy :: string
  rl_limit :: int
  rl_window :: duration

definition sign_in_rate :: "settings \<Rightarrow> rate_limit" where
  "sign_in_rate s =
     \<lparr>rl_enabled = (0 < st_sign_in_rate_limit s), rl_strategy = ''fixed-window'', rl_limit = st_sign_in_rate_limit s,
      rl_window = st_sign_in_rate_window s\<rparr>"

text \<open>What the handlers read of the settings; whether the service runs in development is the base configuration's.\<close>

definition handler_config :: "bool \<Rightarrow> settings \<Rightarrow> config" where
  "handler_config development s =
     \<lparr>cf_session_ttl = st_session_ttl s, cf_app_token_ttl = st_app_token_ttl s, cf_dpop_max_age = st_dpop_proof_max_age s,
      cf_leeway = st_token_clock_skew_leeway s, cf_dpop_nonce = st_dpop_nonce_enabled s, cf_development = development,
      cf_base_url = st_base_url s, cf_issuer_url = st_issuer_url s\<rparr>"

end
