(* ===== verification/Valkey_Store.thy ===== *)
theory Valkey_Store
  imports Session_Spec "HOL-Library.AList"
begin

text \<open>
  The session store of \<open>src/session/store.go\<close>: flows, codes, sessions, refresh grants, shared sessions,
  their lists of app sessions and the assistants' connection indexes, kept in a shared Valkey cache. The
  typed cache, the client's connection and the server are not this repository's: they are a parameter, a
  record of functions, and what is relied on of them (\<open>cache_laws\<close>: their documented behaviour) is a
  hypothesis. The four Lua scripts are this repository's, and are translated.

  A server runs one command or one script at a time. A request that got no answer may or may not have
  been carried out.
\<close>

section \<open>The cache\<close>

datatype 'j datum = Text 'j | Hash "(string \<times> string) list" | Sorted "(string \<times> int) list"

type_synonym 'j keyspace = "string \<rightharpoonup> 'j datum \<times> time option"

text \<open>The commands the store and its scripts give, each with its key; times to live are milliseconds.\<close>

datatype 'j command =
    Set_If_There string 'j int
  | Del string
  | H_Get string string
  | H_Set string string string
  | H_Get_All string
  | P_Expire string int
  | P_TTL string
  | Z_Add string int string
  | Z_Remove_Up_To string int
  | Z_Range_All string
  | Z_Rem string string

datatype resp = R_Nil | R_Int int | R_Text string | R_List "string list"

datatype cache_error = Key_Missing | Cache_Failed

text \<open>One named instance of the typed cache, which writes its values as JSON.\<close>

record ('c, 'a) typed =
  tc_set :: "string \<Rightarrow> 'a \<Rightarrow> duration \<Rightarrow> time \<Rightarrow> ('c, cache_error, unit) act"
  tc_add :: "string \<Rightarrow> 'a \<Rightarrow> duration \<Rightarrow> time \<Rightarrow> ('c, cache_error, bool) act"
  tc_get :: "string \<Rightarrow> time \<Rightarrow> ('c, cache_error, 'a option) act"
  tc_pop :: "string \<Rightarrow> time \<Rightarrow> ('c, cache_error, 'a option) act"
  tc_delete :: "string \<Rightarrow> time \<Rightarrow> ('c, cache_error, unit) act"

record ('c, 'j) cache =
  ca_in_memory :: bool
  ca_prefix :: string
  ca_connected :: bool
  ca_flows :: "('c, flow) typed"
  ca_codes :: "('c, app_code) typed"
  ca_sessions :: "('c, session) typed"
  ca_refresh :: "('c, refresh_grant) typed"
  ca_shared :: "('c, shared) typed"
  ca_do :: "time \<Rightarrow> 'j command \<Rightarrow> ('c, cache_error, resp) act"
  ca_eval :: "time \<Rightarrow> ('c, unit, resp) act \<Rightarrow> ('c, cache_error, resp) act"
  ca_call :: "time \<Rightarrow> 'j command \<Rightarrow> ('c, unit, resp) act"
  ca_session_json :: "session \<Rightarrow> 'j option"
  ca_shared_json :: "shared \<Rightarrow> 'j option"

section \<open>Keys and scripts\<close>

definition flow_instance :: string where "flow_instance = ''flows''"
definition code_instance :: string where "code_instance = ''codes''"
definition session_instance :: string where "session_instance = ''sessions''"
definition refresh_instance :: string where "refresh_instance = ''refresh''"
definition shared_instance :: string where "shared_instance = ''shared''"
definition shared_apps_instance :: string where "shared_apps_instance = ''shared-apps''"
definition connections_instance :: string where "connections_instance = ''connections''"

definition store_key :: "('c, 'j) cache \<Rightarrow> string \<Rightarrow> string \<Rightarrow> string" where
  "store_key ca inst k = (if ca_prefix ca \<noteq> [] then ca_prefix ca @ '':'' else []) @ inst @ '':'' @ k"

definition add_connection_script :: "('j command \<Rightarrow> ('c, unit, resp) act) \<Rightarrow> string \<Rightarrow> int \<Rightarrow> string \<Rightarrow> int \<Rightarrow> ('c, unit, resp) act" where
  "add_connection_script call k score m ms =
     andthen (call (Z_Add k score m)) (\<lambda>_.
     andthen (call (P_TTL k)) (\<lambda>t.
     andthen (case t of R_Int n \<Rightarrow> if n < ms then call (P_Expire k ms) else ret R_Nil | _ \<Rightarrow> stop ()) (\<lambda>_.
     ret (R_Int 1))))"

definition live_connections_script :: "('j command \<Rightarrow> ('c, unit, resp) act) \<Rightarrow> string \<Rightarrow> int \<Rightarrow> ('c, unit, resp) act" where
  "live_connections_script call k now_ms =
     andthen (call (Z_Remove_Up_To k now_ms)) (\<lambda>_. call (Z_Range_All k))"

definition put_shared_app_script :: "('j command \<Rightarrow> ('c, unit, resp) act) \<Rightarrow> string \<Rightarrow> string \<Rightarrow> string \<Rightarrow> int \<Rightarrow> ('c, unit, resp) act" where
  "put_shared_app_script call k client sid ms =
     andthen (call (H_Get k client)) (\<lambda>old.
     andthen (call (H_Set k client sid)) (\<lambda>_.
     andthen (call (P_Expire k ms)) (\<lambda>_.
     ret (if old \<noteq> R_Nil then old else R_Text []))))"

definition take_shared_apps_script :: "('j command \<Rightarrow> ('c, unit, resp) act) \<Rightarrow> string \<Rightarrow> ('c, unit, resp) act" where
  "take_shared_apps_script call k =
     andthen (call (H_Get_All k)) (\<lambda>apps.
     andthen (call (Del k)) (\<lambda>_.
     ret apps))"

text \<open>Reading a reply as a map of fields, a list of strings, a number or a string.\<close>

fun field_pairs :: "string list \<Rightarrow> (string \<times> string) list option" where
  "field_pairs [] = Some []"
| "field_pairs [f] = None"
| "field_pairs (f # v # r) = map_option ((#) (f, v)) (field_pairs r)"

definition as_str_map :: "resp \<Rightarrow> (string \<times> string) list option" where
  "as_str_map r = (case r of R_List xs \<Rightarrow> field_pairs xs | _ \<Rightarrow> None)"

definition as_str_slice :: "resp \<Rightarrow> string list option" where
  "as_str_slice r = (case r of R_List xs \<Rightarrow> Some xs | _ \<Rightarrow> None)"

definition as_int64 :: "resp \<Rightarrow> int option" where
  "as_int64 r = (case r of R_Int n \<Rightarrow> Some n | _ \<Rightarrow> None)"

definition as_text :: "resp \<Rightarrow> string option" where
  "as_text r = (case r of R_Text t \<Rightarrow> Some t | _ \<Rightarrow> None)"

section \<open>The store\<close>

definition whole_ms :: "duration \<Rightarrow> int" where
  "whole_ms d = d div millisecond"

definition unless_failed :: "('c, cache_error, 'a) act \<Rightarrow> ('c, store_error, 'a) act" where
  "unless_failed m = recover m (\<lambda>_. stop Unavailable)"

text \<open>A raw command or script, and its reply read as what the store expects.\<close>

definition ask :: "('c, 'j) cache \<Rightarrow> ('c, cache_error, resp) act \<Rightarrow> (resp \<Rightarrow> 'a option) \<Rightarrow> ('c, store_error, 'a) act" where
  "ask ca m read =
     (if \<not> ca_connected ca then stop Unavailable
      else andthen (unless_failed m) (\<lambda>r. from_option (read r) (stop Unavailable)))"

definition take_entry :: "('c, 'a) typed \<Rightarrow> string \<Rightarrow> ('c, 'a) store_op" where
  "take_entry inst k now =
     andthen (recover (tc_pop inst k now) (\<lambda>err. stop (if err = Key_Missing then Not_Found else Unavailable))) (\<lambda>v.
     from_option v (stop Not_Found))"

definition vk_save_flow :: "('c, 'j) cache \<Rightarrow> string \<Rightarrow> flow \<Rightarrow> duration \<Rightarrow> ('c, unit) store_op" where
  "vk_save_flow ca state f ttl now = unless_failed (tc_set (ca_flows ca) state f ttl now)"

definition vk_consume_flow :: "('c, 'j) cache \<Rightarrow> string \<Rightarrow> ('c, flow) store_op" where
  "vk_consume_flow ca state = take_entry (ca_flows ca) state"

definition vk_save_app_code :: "('c, 'j) cache \<Rightarrow> string \<Rightarrow> app_code \<Rightarrow> duration \<Rightarrow> ('c, unit) store_op" where
  "vk_save_app_code ca code c ttl now = unless_failed (tc_set (ca_codes ca) code c ttl now)"

definition vk_consume_app_code :: "('c, 'j) cache \<Rightarrow> string \<Rightarrow> ('c, app_code) store_op" where
  "vk_consume_app_code ca code = take_entry (ca_codes ca) code"

definition vk_create_session :: "('c, 'j) cache \<Rightarrow> string \<Rightarrow> session \<Rightarrow> duration \<Rightarrow> ('c, session) store_op" where
  "vk_create_session ca sid sess lifetime now =
     (let sess' = sess\<lparr>s_expires_at := now + lifetime\<rparr> in
      andthen (unless_failed (tc_add (ca_sessions ca) sid sess' lifetime now)) (\<lambda>added.
      if \<not> added then stop Already_Exists else ret sess'))"

text \<open>A write over a key that is still there, for what is left of its life.\<close>

definition vk_replace :: "('c, 'j) cache \<Rightarrow> string \<Rightarrow> 'j option \<Rightarrow> duration \<Rightarrow> ('c, unit) store_op" where
  "vk_replace ca k json left now =
     (if \<not> ca_connected ca then stop Unavailable
      else (case json of
         None \<Rightarrow> stop Unavailable
       | Some t \<Rightarrow>
           andthen (unless_failed (ca_do ca now (Set_If_There k t (whole_ms left)))) (\<lambda>r.
           if r = R_Nil then stop Not_Found else ret ())))"

definition vk_replace_session :: "('c, 'j) cache \<Rightarrow> string \<Rightarrow> session \<Rightarrow> ('c, unit) store_op" where
  "vk_replace_session ca sid sess now =
     (let left = time_sub (s_expires_at sess) now in
      if s_expires_at sess = 0 \<or> left \<le> 0 then stop Not_Found
      else vk_replace ca (store_key ca session_instance sid) (ca_session_json ca sess) left now)"

definition vk_load_session :: "('c, 'j) cache \<Rightarrow> string \<Rightarrow> ('c, session) store_op" where
  "vk_load_session ca sid now =
     andthen (unless_failed (tc_get (ca_sessions ca) sid now)) (\<lambda>v.
     case v of Some sess \<Rightarrow> if session_expired sess now then stop Not_Found else ret sess | None \<Rightarrow> stop Not_Found)"

definition vk_delete_session :: "('c, 'j) cache \<Rightarrow> string \<Rightarrow> ('c, unit) store_op" where
  "vk_delete_session ca sid now = unless_failed (tc_delete (ca_sessions ca) sid now)"

definition vk_save_refresh :: "('c, 'j) cache \<Rightarrow> string \<Rightarrow> refresh_grant \<Rightarrow> time \<Rightarrow> ('c, unit) store_op" where
  "vk_save_refresh ca k g till now =
     (let left = time_sub till now in
      if left \<le> 0 then stop Not_Found else unless_failed (tc_set (ca_refresh ca) k g left now))"

definition vk_load_refresh :: "('c, 'j) cache \<Rightarrow> string \<Rightarrow> ('c, refresh_grant) store_op" where
  "vk_load_refresh ca k now =
     andthen (unless_failed (tc_get (ca_refresh ca) k now)) (\<lambda>v. from_option v (stop Not_Found))"

definition vk_take_refresh :: "('c, 'j) cache \<Rightarrow> string \<Rightarrow> ('c, refresh_grant) store_op" where
  "vk_take_refresh ca k = take_entry (ca_refresh ca) k"

definition vk_delete_refresh :: "('c, 'j) cache \<Rightarrow> string \<Rightarrow> ('c, unit) store_op" where
  "vk_delete_refresh ca k now = unless_failed (tc_delete (ca_refresh ca) k now)"

definition vk_create_shared :: "('c, 'j) cache \<Rightarrow> string \<Rightarrow> shared \<Rightarrow> ('c, unit) store_op" where
  "vk_create_shared ca i sh now =
     (let left = time_sub (sh_expires_at sh) now in
      if left \<le> 0 then stop Not_Found
      else
        andthen (unless_failed (tc_add (ca_shared ca) i sh left now)) (\<lambda>added.
        if \<not> added then stop Already_Exists else ret ()))"

definition vk_replace_shared :: "('c, 'j) cache \<Rightarrow> string \<Rightarrow> shared \<Rightarrow> ('c, unit) store_op" where
  "vk_replace_shared ca i sh now =
     (let left = time_sub (sh_expires_at sh) now in
      if left \<le> 0 then stop Not_Found
      else vk_replace ca (store_key ca shared_instance i) (ca_shared_json ca sh) left now)"

definition vk_load_shared :: "('c, 'j) cache \<Rightarrow> string \<Rightarrow> ('c, shared) store_op" where
  "vk_load_shared ca i now =
     andthen (unless_failed (tc_get (ca_shared ca) i now)) (\<lambda>v.
     case v of Some sh \<Rightarrow> if shared_expired sh now then stop Not_Found else ret sh | None \<Rightarrow> stop Not_Found)"

definition vk_put_shared_app :: "('c, 'j) cache \<Rightarrow> string \<Rightarrow> string \<Rightarrow> string \<Rightarrow> time \<Rightarrow> ('c, string) store_op" where
  "vk_put_shared_app ca i client sid till now =
     (let left = time_sub till now in
      if left \<le> 0 then stop Not_Found
      else ask ca (ca_eval ca now (put_shared_app_script (ca_call ca now) (store_key ca shared_apps_instance i) client sid (whole_ms left))) as_text)"

definition vk_shared_apps :: "('c, 'j) cache \<Rightarrow> string \<Rightarrow> ('c, (string \<times> string) list) store_op" where
  "vk_shared_apps ca i now = ask ca (ca_do ca now (H_Get_All (store_key ca shared_apps_instance i))) as_str_map"

definition vk_end_shared :: "('c, 'j) cache \<Rightarrow> string \<Rightarrow> ('c, (string \<times> string) list) store_op" where
  "vk_end_shared ca i now =
     andthen (ask ca (ca_do ca now (Del (store_key ca shared_instance i))) as_int64) (\<lambda>removed.
     if removed = 0 then stop Not_Found
     else ask ca (ca_eval ca now (take_shared_apps_script (ca_call ca now) (store_key ca shared_apps_instance i))) as_str_map)"

definition connection_key :: "('c, 'j) cache \<Rightarrow> string \<Rightarrow> string \<Rightarrow> string" where
  "connection_key ca tenant assistant = store_key ca connections_instance (tenant @ ''/'' @ assistant)"

definition conn_member :: "connection \<Rightarrow> string" where
  "conn_member c = con_id c @ '' '' @ con_session c"

definition vk_add_connection :: "('c, 'j) cache \<Rightarrow> string \<Rightarrow> string \<Rightarrow> connection \<Rightarrow> time \<Rightarrow> ('c, unit) store_op" where
  "vk_add_connection ca tenant assistant c till now =
     (let left = time_sub till now in
      if left \<le> 0 then stop Not_Found
      else ask ca (ca_eval ca now (add_connection_script (ca_call ca now) (connection_key ca tenant assistant)
        (unix_milli till) (conn_member c) (whole_ms left))) (\<lambda>_. Some ()))"

definition member_connection :: "string \<Rightarrow> connection option" where
  "member_connection m = (case cut (CHR '' '') m of (i, sid, ok) \<Rightarrow> if ok then Some \<lparr>con_id = i, con_session = sid\<rparr> else None)"

definition vk_connections :: "('c, 'j) cache \<Rightarrow> string \<Rightarrow> string \<Rightarrow> ('c, connection list) store_op" where
  "vk_connections ca tenant assistant now =
     andthen (ask ca (ca_eval ca now (live_connections_script (ca_call ca now) (connection_key ca tenant assistant) (unix_milli now))) as_str_slice)
       (\<lambda>ms. ret (List.map_filter member_connection ms))"

definition vk_remove_connection :: "('c, 'j) cache \<Rightarrow> string \<Rightarrow> string \<Rightarrow> connection \<Rightarrow> ('c, unit) store_op" where
  "vk_remove_connection ca tenant assistant c now =
     ask ca (ca_do ca now (Z_Rem (connection_key ca tenant assistant) (conn_member c))) (\<lambda>_. Some ())"

definition valkey_ops :: "('c, 'j) cache \<Rightarrow> 'c store_ops" where
  "valkey_ops ca =
     \<lparr>op_save_flow = vk_save_flow ca, op_consume_flow = vk_consume_flow ca,
      op_save_app_code = vk_save_app_code ca, op_consume_app_code = vk_consume_app_code ca,
      op_create_session = vk_create_session ca, op_replace_session = vk_replace_session ca,
      op_load_session = vk_load_session ca, op_delete_session = vk_delete_session ca,
      op_save_refresh = vk_save_refresh ca, op_load_refresh = vk_load_refresh ca,
      op_take_refresh = vk_take_refresh ca, op_delete_refresh = vk_delete_refresh ca,
      op_create_shared = vk_create_shared ca, op_replace_shared = vk_replace_shared ca,
      op_load_shared = vk_load_shared ca, op_put_shared_app = vk_put_shared_app ca,
      op_end_shared = vk_end_shared ca, op_add_connection = vk_add_connection ca,
      op_connections = vk_connections ca, op_remove_connection = vk_remove_connection ca\<rparr>"

text \<open>\<open>New\<close>: a store in one process's memory is refused.\<close>

definition new_store :: "('c, 'j) cache \<Rightarrow> 'c store_ops option" where
  "new_store ca = (if ca_in_memory ca then None else Some (valkey_ops ca))"


section \<open>What is relied on of the cache\<close>

text \<open>What the commands are documented to answer and to leave of the keyspace. A key of another kind is an
  error and left alone; a key with no time to live left is gone; an emptied sorted set is no longer there.\<close>

definition typed_error :: "'j keyspace \<Rightarrow> unit + resp \<Rightarrow> 'j keyspace \<Rightarrow> bool" where
  "typed_error K r K' \<longleftrightarrow> r = Inl () \<and> K' = K"

definition documented_hash :: "time \<Rightarrow> string \<Rightarrow> 'j command \<Rightarrow> 'j keyspace \<Rightarrow> (string \<times> string) list \<Rightarrow> time option \<Rightarrow> unit + resp \<Rightarrow> 'j keyspace \<Rightarrow> bool" where
  "documented_hash now k cmd K h e r K' =
     (case cmd of
        H_Get _ f \<Rightarrow> r = Inr (case map_of h f of Some v \<Rightarrow> R_Text v | None \<Rightarrow> R_Nil) \<and> K' = K
      | H_Set _ f v \<Rightarrow> (\<exists>n h'. r = Inr (R_Int n) \<and> map_of h' = (map_of h)(f \<mapsto> v) \<and> K' = K(k \<mapsto> (Hash h', e)))
      | H_Get_All _ \<Rightarrow> (\<exists>ps. distinct (map fst ps) \<and> map_of ps = map_of h
            \<and> r = Inr (R_List (concat (map (\<lambda>(f, v). [f, v]) ps))) \<and> K' = K)
      | _ \<Rightarrow> False)"

definition put_sorted :: "string \<Rightarrow> time option \<Rightarrow> (string \<times> int) list \<Rightarrow> 'j keyspace \<Rightarrow> 'j keyspace" where
  "put_sorted k e z c = c(k := if z = [] then None else Some (Sorted z, e))"

definition documented_sorted :: "time \<Rightarrow> string \<Rightarrow> 'j command \<Rightarrow> 'j keyspace \<Rightarrow> (string \<times> int) list \<Rightarrow> time option \<Rightarrow> unit + resp \<Rightarrow> 'j keyspace \<Rightarrow> bool" where
  "documented_sorted now k cmd K z e r K' =
     (let left = (\<lambda>m. \<exists>n z'. r = Inr (R_Int n) \<and> map_of z' = m \<and> K' = put_sorted k e z' K) in
      case cmd of
        Z_Add _ score x \<Rightarrow> left ((map_of z)(x \<mapsto> score))
      | Z_Remove_Up_To _ n \<Rightarrow> left (\<lambda>x. case map_of z x of Some score \<Rightarrow> if score \<le> n then None else Some score | None \<Rightarrow> None)
      | Z_Rem _ x \<Rightarrow> left ((map_of z)(x := None))
      | Z_Range_All _ \<Rightarrow> (\<exists>xs. set xs = dom (map_of z) \<and> r = Inr (R_List xs) \<and> K' = K)
      | _ \<Rightarrow> False)"

fun documented :: "time \<Rightarrow> 'j command \<Rightarrow> 'j keyspace \<Rightarrow> unit + resp \<Rightarrow> 'j keyspace \<Rightarrow> bool" where
  "documented now (Set_If_There k t ms) K r K' =
     (if ms \<le> 0 then typed_error K r K'
      else if K k = None then r = Inr R_Nil \<and> K' = K
      else (\<exists>ok. r = Inr (R_Text ok)) \<and> K' = K(k \<mapsto> (Text t, Some (now + ms * millisecond))))"
| "documented now (Del k) K r K' = (r = Inr (R_Int (if K k = None then 0 else 1)) \<and> K' = K(k := None))"
| "documented now (P_Expire k ms) K r K' =
     (case K k of
        None \<Rightarrow> r = Inr (R_Int 0) \<and> K' = K
      | Some (d, _) \<Rightarrow> r = Inr (R_Int 1) \<and> K' = K(k := if ms \<le> 0 then None else Some (d, Some (now + ms * millisecond))))"
| "documented now (P_TTL k) K r K' =
     ((case K k of
         None \<Rightarrow> r = Inr (R_Int (- 2))
       | Some (_, None) \<Rightarrow> r = Inr (R_Int (- 1))
       | Some (_, Some _) \<Rightarrow> (\<exists>n\<ge>0. r = Inr (R_Int n))) \<and> K' = K)"
| "documented now (H_Get k f) K r K' =
     (case K k of None \<Rightarrow> documented_hash now k (H_Get k f) K [] None r K' | Some (Hash h, e) \<Rightarrow> documented_hash now k (H_Get k f) K h e r K'
      | _ \<Rightarrow> typed_error K r K')"
| "documented now (H_Set k f v) K r K' =
     (case K k of None \<Rightarrow> documented_hash now k (H_Set k f v) K [] None r K' | Some (Hash h, e) \<Rightarrow> documented_hash now k (H_Set k f v) K h e r K'
      | _ \<Rightarrow> typed_error K r K')"
| "documented now (H_Get_All k) K r K' =
     (case K k of None \<Rightarrow> documented_hash now k (H_Get_All k) K [] None r K' | Some (Hash h, e) \<Rightarrow> documented_hash now k (H_Get_All k) K h e r K'
      | _ \<Rightarrow> typed_error K r K')"
| "documented now (Z_Add k score x) K r K' =
     (case K k of None \<Rightarrow> documented_sorted now k (Z_Add k score x) K [] None r K' | Some (Sorted z, e) \<Rightarrow> documented_sorted now k (Z_Add k score x) K z e r K'
      | _ \<Rightarrow> typed_error K r K')"
| "documented now (Z_Remove_Up_To k n) K r K' =
     (case K k of None \<Rightarrow> documented_sorted now k (Z_Remove_Up_To k n) K [] None r K' | Some (Sorted z, e) \<Rightarrow> documented_sorted now k (Z_Remove_Up_To k n) K z e r K'
      | _ \<Rightarrow> typed_error K r K')"
| "documented now (Z_Range_All k) K r K' =
     (case K k of None \<Rightarrow> documented_sorted now k (Z_Range_All k) K [] None r K' | Some (Sorted z, e) \<Rightarrow> documented_sorted now k (Z_Range_All k) K z e r K'
      | _ \<Rightarrow> typed_error K r K')"
| "documented now (Z_Rem k x) K r K' =
     (case K k of None \<Rightarrow> documented_sorted now k (Z_Rem k x) K [] None r K' | Some (Sorted z, e) \<Rightarrow> documented_sorted now k (Z_Rem k x) K z e r K'
      | _ \<Rightarrow> typed_error K r K')"

text \<open>A request is carried out as a whole, or not at all; one that failed may have been either.\<close>

definition delivered :: "('c \<Rightarrow> 'j keyspace) \<Rightarrow> ('c, cache_error, resp) act \<Rightarrow> ('c, unit, resp) act \<Rightarrow> bool" where
  "delivered K m served \<longleftrightarrow> (\<forall>c r c'. m c = (r, c') \<longrightarrow>
     (case r of Inr x \<Rightarrow> fst (served c) = Inr x \<and> K c' = K (snd (served c))
      | Inl _ \<Rightarrow> K c' = K c \<or> K c' = K (snd (served c))))"

text \<open>The typed cache keeps an instance's values under the store's own keys, written as text that reads back.\<close>

definition value_at :: "('j \<Rightarrow> 'a option) \<Rightarrow> string \<Rightarrow> 'j keyspace \<Rightarrow> 'a option" where
  "value_at dec k K = (case K k of Some (Text t, _) \<Rightarrow> dec t | _ \<Rightarrow> None)"

definition stored_as :: "('j \<Rightarrow> 'a option) \<Rightarrow> string \<Rightarrow> 'a \<Rightarrow> 'j keyspace \<Rightarrow> 'j keyspace \<Rightarrow> bool" where
  "stored_as dec k x K K' \<longleftrightarrow> (\<exists>t e. dec t = Some x \<and> K' = K(k \<mapsto> (Text t, e)))"

definition typed_laws :: "(time \<Rightarrow> 'c \<Rightarrow> 'j keyspace) \<Rightarrow> (string \<Rightarrow> string) \<Rightarrow> ('j \<Rightarrow> 'a option) \<Rightarrow> ('c, 'a) typed \<Rightarrow> bool" where
  "typed_laws K key dec inst \<longleftrightarrow>
     (\<forall>k x ttl now c r c'. 0 < ttl \<longrightarrow> tc_set inst k x ttl now c = (r, c') \<longrightarrow>
        stored_as dec (key k) x (K now c) (K now c') \<or> (\<exists>e. r = Inl e) \<and> K now c' = K now c)
   \<and> (\<forall>k x ttl now c r c'. 0 < ttl \<longrightarrow> tc_add inst k x ttl now c = (r, c') \<longrightarrow>
        (if K now c (key k) = None then stored_as dec (key k) x (K now c) (K now c') \<and> (\<forall>b. r = Inr b \<longrightarrow> b)
         else K now c' = K now c \<and> (\<forall>b. r = Inr b \<longrightarrow> \<not> b))
        \<or> (\<exists>e. r = Inl e) \<and> K now c' = K now c)
   \<and> (\<forall>k now c r c'. tc_get inst k now c = (r, c') \<longrightarrow>
        K now c' = K now c \<and> (\<forall>v. r = Inr v \<longrightarrow> v = value_at dec (key k) (K now c)))
   \<and> (\<forall>k now c r c'. tc_pop inst k now c = (r, c') \<longrightarrow>
        (case r of Inr v \<Rightarrow> v = value_at dec (key k) (K now c) \<and> K now c' = (K now c)(key k := None)
         | Inl Key_Missing \<Rightarrow> K now c (key k) = None \<and> K now c' = K now c
         | Inl Cache_Failed \<Rightarrow> K now c' = K now c \<or> K now c' = (K now c)(key k := None)))
   \<and> (\<forall>k now c r c'. tc_delete inst k now c = (r, c') \<longrightarrow>
        K now c' = (K now c)(key k := None) \<or> (\<exists>e. r = Inl e) \<and> K now c' = K now c)"

record 'j decoders =
  de_flow :: "'j \<Rightarrow> flow option"
  de_code :: "'j \<Rightarrow> app_code option"
  de_session :: "'j \<Rightarrow> session option"
  de_refresh :: "'j \<Rightarrow> refresh_grant option"
  de_shared :: "'j \<Rightarrow> shared option"

definition cache_laws :: "('c, 'j) cache \<Rightarrow> 'j decoders \<Rightarrow> (time \<Rightarrow> 'c \<Rightarrow> 'j keyspace) \<Rightarrow> bool" where
  "cache_laws ca de K \<longleftrightarrow>
     (\<forall>now now' c. now \<le> now' \<longrightarrow> K now' c \<subseteq>\<^sub>m K now c)
   \<and> typed_laws K (store_key ca flow_instance) (de_flow de) (ca_flows ca)
   \<and> typed_laws K (store_key ca code_instance) (de_code de) (ca_codes ca)
   \<and> typed_laws K (store_key ca session_instance) (de_session de) (ca_sessions ca)
   \<and> typed_laws K (store_key ca refresh_instance) (de_refresh de) (ca_refresh ca)
   \<and> typed_laws K (store_key ca shared_instance) (de_shared de) (ca_shared ca)
   \<and> (\<forall>now cmd c. documented now cmd (K now c) (fst (ca_call ca now cmd c)) (K now (snd (ca_call ca now cmd c))))
   \<and> (\<forall>now cmd. delivered (K now) (ca_do ca now cmd) (ca_call ca now cmd))
   \<and> (\<forall>now script. delivered (K now) (ca_eval ca now script) script)
   \<and> (\<forall>s t. ca_session_json ca s = Some t \<longrightarrow> de_session de t = Some s)
   \<and> (\<forall>s t. ca_shared_json ca s = Some t \<longrightarrow> de_shared de t = Some s)"

section \<open>The promise kept\<close>

text \<open>What a keyspace holds for the store.\<close>

text \<open>A session there that does not read back is one that has ended.\<close>

definition entry_at :: "('j \<Rightarrow> 'a option) \<Rightarrow> 'a \<Rightarrow> string \<Rightarrow> 'j keyspace \<Rightarrow> 'a option" where
  "entry_at dec ended k K =
     (case K k of None \<Rightarrow> None | Some (Text t, _) \<Rightarrow> Some (case dec t of Some x \<Rightarrow> x | None \<Rightarrow> ended) | Some _ \<Rightarrow> Some ended)"

definition hash_at :: "string \<Rightarrow> 'j keyspace \<Rightarrow> string \<rightharpoonup> string" where
  "hash_at k K = (case K k of Some (Hash h, _) \<Rightarrow> map_of h | _ \<Rightarrow> Map.empty)"

definition sorted_at :: "string \<Rightarrow> 'j keyspace \<Rightarrow> string \<rightharpoonup> int" where
  "sorted_at k K = (case K k of Some (Sorted z, _) \<Rightarrow> map_of z | _ \<Rightarrow> Map.empty)"

definition members_after :: "int \<Rightarrow> (string \<rightharpoonup> int) \<Rightarrow> connection set" where
  "members_after n z = {c. \<exists>m score. z m = Some score \<and> n < score \<and> member_connection m = Some c}"

definition keyspace_view :: "('c, 'j) cache \<Rightarrow> 'j decoders \<Rightarrow> time \<Rightarrow> 'j keyspace \<Rightarrow> view" where
  "keyspace_view ca de now K =
     \<lparr>v_flows = (\<lambda>k. value_at (de_flow de) (store_key ca flow_instance k) K),
      v_codes = (\<lambda>k. value_at (de_code de) (store_key ca code_instance k) K),
      v_sessions = (\<lambda>k. entry_at (de_session de) empty_session (store_key ca session_instance k) K),
      v_refresh = (\<lambda>k. value_at (de_refresh de) (store_key ca refresh_instance k) K),
      v_shared = (\<lambda>k. entry_at (de_shared de) empty_shared (store_key ca shared_instance k) K),
      v_apps = (\<lambda>i. hash_at (store_key ca shared_apps_instance i) K),
      v_conns = (\<lambda>k. members_after (unix_milli now) (sorted_at (store_key ca connections_instance k) K))\<rparr>"

definition valkey_view :: "('c, 'j) cache \<Rightarrow> 'j decoders \<Rightarrow> (time \<Rightarrow> 'c \<Rightarrow> 'j keyspace) \<Rightarrow> time \<Rightarrow> 'c \<Rightarrow> view" where
  "valkey_view ca de K now c = keyspace_view ca de now (K now c)"

text \<open>The keys of two instances are never the same.\<close>

lemmas instance_names = flow_instance_def code_instance_def session_instance_def refresh_instance_def shared_instance_def
  shared_apps_instance_def connections_instance_def

lemma store_key_eq [simp]: "store_key ca a k = store_key ca b k' \<longleftrightarrow> a @ '':'' @ k = b @ '':'' @ k'"
  by (simp add: store_key_def)

lemma value_at_simps [simp]:
  "value_at dec k (K(k' \<mapsto> (d, e))) = (if k = k' then (case d of Text t \<Rightarrow> dec t | _ \<Rightarrow> None) else value_at dec k K)"
  "value_at dec k (K(k' := None)) = (if k = k' then None else value_at dec k K)"
  "K k = None \<Longrightarrow> value_at dec k K = None"
  by (auto simp: value_at_def split: datum.splits)

lemma entry_at_simps [simp]:
  "entry_at dec x k (K(k' \<mapsto> (d, e))) = (if k = k' then Some (case d of Text t \<Rightarrow> (case dec t of Some y \<Rightarrow> y | None \<Rightarrow> x) | _ \<Rightarrow> x) else entry_at dec x k K)"
  "entry_at dec x k (K(k' := None)) = (if k = k' then None else entry_at dec x k K)"
  by (auto simp: entry_at_def split: datum.splits)

lemma entry_at_None [simp]: "entry_at dec x k K = None \<longleftrightarrow> K k = None"
  by (auto simp: entry_at_def split: option.splits datum.splits prod.splits)

lemma live_entry:
  assumes "live x = None"
  shows "Option.bind (entry_at dec x k K) live = Option.bind (value_at dec k K) live"
  using assms by (auto simp: entry_at_def value_at_def split: option.splits datum.splits prod.splits)

lemma hash_at_simps [simp]:
  "hash_at k (K(k' \<mapsto> (d, e))) = (if k = k' then (case d of Hash h \<Rightarrow> map_of h | _ \<Rightarrow> Map.empty) else hash_at k K)"
  "hash_at k (K(k' := None)) = (if k = k' then Map.empty else hash_at k K)"
  by (auto simp: hash_at_def split: datum.splits)

lemma sorted_at_simps [simp]:
  "sorted_at k (K(k' \<mapsto> (d, e))) = (if k = k' then (case d of Sorted z \<Rightarrow> map_of z | _ \<Rightarrow> Map.empty) else sorted_at k K)"
  "sorted_at k (K(k' := None)) = (if k = k' then Map.empty else sorted_at k K)"
  by (auto simp: sorted_at_def split: datum.splits)

lemma view_text:
  "keyspace_view ca de now (K(store_key ca flow_instance k \<mapsto> (Text t, e))) =
     (keyspace_view ca de now K)\<lparr>v_flows := (v_flows (keyspace_view ca de now K))(k := de_flow de t)\<rparr>"
  "keyspace_view ca de now (K(store_key ca code_instance k \<mapsto> (Text t, e))) =
     (keyspace_view ca de now K)\<lparr>v_codes := (v_codes (keyspace_view ca de now K))(k := de_code de t)\<rparr>"
  "keyspace_view ca de now (K(store_key ca session_instance k \<mapsto> (Text t, e))) =
     (keyspace_view ca de now K)\<lparr>v_sessions := (v_sessions (keyspace_view ca de now K))(k \<mapsto> (case de_session de t of Some x \<Rightarrow> x | None \<Rightarrow> empty_session))\<rparr>"
  "keyspace_view ca de now (K(store_key ca refresh_instance k \<mapsto> (Text t, e))) =
     (keyspace_view ca de now K)\<lparr>v_refresh := (v_refresh (keyspace_view ca de now K))(k := de_refresh de t)\<rparr>"
  "keyspace_view ca de now (K(store_key ca shared_instance k \<mapsto> (Text t, e))) =
     (keyspace_view ca de now K)\<lparr>v_shared := (v_shared (keyspace_view ca de now K))(k \<mapsto> (case de_shared de t of Some x \<Rightarrow> x | None \<Rightarrow> empty_shared))\<rparr>"
  by (simp_all add: keyspace_view_def instance_names fun_eq_iff)

lemma view_gone:
  "keyspace_view ca de now (K(store_key ca flow_instance k := None)) =
     (keyspace_view ca de now K)\<lparr>v_flows := (v_flows (keyspace_view ca de now K))(k := None)\<rparr>"
  "keyspace_view ca de now (K(store_key ca code_instance k := None)) =
     (keyspace_view ca de now K)\<lparr>v_codes := (v_codes (keyspace_view ca de now K))(k := None)\<rparr>"
  "keyspace_view ca de now (K(store_key ca session_instance k := None)) =
     (keyspace_view ca de now K)\<lparr>v_sessions := (v_sessions (keyspace_view ca de now K))(k := None)\<rparr>"
  "keyspace_view ca de now (K(store_key ca refresh_instance k := None)) =
     (keyspace_view ca de now K)\<lparr>v_refresh := (v_refresh (keyspace_view ca de now K))(k := None)\<rparr>"
  "keyspace_view ca de now (K(store_key ca shared_instance k := None)) =
     (keyspace_view ca de now K)\<lparr>v_shared := (v_shared (keyspace_view ca de now K))(k := None)\<rparr>"
  "keyspace_view ca de now (K(store_key ca shared_apps_instance k := None)) =
     (keyspace_view ca de now K)\<lparr>v_apps := (v_apps (keyspace_view ca de now K))(k := Map.empty)\<rparr>"
  by (simp_all add: keyspace_view_def instance_names fun_eq_iff)

lemma view_hash:
  "keyspace_view ca de now (K(store_key ca shared_apps_instance k \<mapsto> (Hash h, e))) =
     (keyspace_view ca de now K)\<lparr>v_apps := (v_apps (keyspace_view ca de now K))(k := map_of h)\<rparr>"
  by (simp add: keyspace_view_def instance_names fun_eq_iff)

lemma view_sorted:
  "keyspace_view ca de now (K(store_key ca connections_instance k \<mapsto> (Sorted z, e))) =
     (keyspace_view ca de now K)\<lparr>v_conns := (v_conns (keyspace_view ca de now K))(k := members_after (unix_milli now) (map_of z))\<rparr>"
  "keyspace_view ca de now (K(store_key ca connections_instance k := None)) =
     (keyspace_view ca de now K)\<lparr>v_conns := (v_conns (keyspace_view ca de now K))(k := {})\<rparr>"
  by (simp_all add: keyspace_view_def instance_names fun_eq_iff members_after_def)

lemma view_parts:
  "v_flows (keyspace_view ca de now K) k = value_at (de_flow de) (store_key ca flow_instance k) K"
  "v_codes (keyspace_view ca de now K) k = value_at (de_code de) (store_key ca code_instance k) K"
  "v_sessions (keyspace_view ca de now K) k = entry_at (de_session de) empty_session (store_key ca session_instance k) K"
  "v_refresh (keyspace_view ca de now K) k = value_at (de_refresh de) (store_key ca refresh_instance k) K"
  "v_shared (keyspace_view ca de now K) k = entry_at (de_shared de) empty_shared (store_key ca shared_instance k) K"
  "v_apps (keyspace_view ca de now K) k = hash_at (store_key ca shared_apps_instance k) K"
  "v_conns (keyspace_view ca de now K) k = members_after (unix_milli now) (sorted_at (store_key ca connections_instance k) K)"
  by (simp_all add: keyspace_view_def)

subsection \<open>Single values\<close>

text \<open>What the typed cache's operations do to the view, whichever instance they are of.\<close>

lemmas typed_set_law = typed_laws_def[THEN iffD1, THEN conjunct1, rule_format]
lemmas typed_add_law = typed_laws_def[THEN iffD1, THEN conjunct2, THEN conjunct1, rule_format]
lemmas typed_get_law = typed_laws_def[THEN iffD1, THEN conjunct2, THEN conjunct2, THEN conjunct1, rule_format]
lemmas typed_pop_law = typed_laws_def[THEN iffD1, THEN conjunct2, THEN conjunct2, THEN conjunct2, THEN conjunct1, rule_format]
lemmas typed_delete_law = typed_laws_def[THEN iffD1, THEN conjunct2, THEN conjunct2, THEN conjunct2, THEN conjunct2, rule_format]

lemma failed_run: "unless_failed m c = (r, c') \<longleftrightarrow>
    (\<exists>x. m c = (Inr x, c') \<and> r = Inr x) \<or> (\<exists>e. m c = (Inl e, c') \<and> r = Inl Unavailable)"
  by (auto simp: unless_failed_def recover_def split: prod.splits sum.splits)

lemma typed_set_refines:
  assumes laws: "typed_laws K key dec inst" and ttl: "0 < ttl"
    and put: "\<And>t e K. dec t = Some x \<Longrightarrow> F (K(key k \<mapsto> (Text t, e))) = f (F K)"
  shows "refines (\<lambda>c. F (K now c)) (unless_failed (tc_set inst k x ttl now)) (spec_put f)"
  unfolding refines_def
proof (intro allI impI)
  fix c r c' assume "unless_failed (tc_set inst k x ttl now) c = (r, c')"
  then obtain q where q: "tc_set inst k x ttl now c = (q, c')" "r = (case q of Inr u \<Rightarrow> Inr u | Inl _ \<Rightarrow> Inl Unavailable)"
    unfolding failed_run by auto
  from typed_set_law[OF laws ttl q(1)] q(2) put
  show "spec_put f (F (K now c)) r (F (K now c')) \<or>
     r = Inl Unavailable \<and> (F (K now c') = F (K now c) \<or> (\<exists>q. spec_put f (F (K now c)) q (F (K now c'))))"
    by (cases q) (auto simp: stored_as_def spec_defs)
qed

lemma typed_delete_refines:
  assumes laws: "typed_laws K key dec inst"
    and gone: "\<And>K. F (K(key k := None)) = f (F K)"
  shows "refines (\<lambda>c. F (K now c)) (unless_failed (tc_delete inst k now)) (spec_put f)"
  unfolding refines_def
proof (intro allI impI)
  fix c r c' assume "unless_failed (tc_delete inst k now) c = (r, c')"
  then obtain q where q: "tc_delete inst k now c = (q, c')" "r = (case q of Inr u \<Rightarrow> Inr u | Inl _ \<Rightarrow> Inl Unavailable)"
    unfolding failed_run by auto
  from typed_delete_law[OF laws q(1)] q(2) gone
  show "spec_put f (F (K now c)) r (F (K now c')) \<or>
     r = Inl Unavailable \<and> (F (K now c') = F (K now c) \<or> (\<exists>q. spec_put f (F (K now c)) q (F (K now c'))))"
    by (cases q) (auto simp: spec_defs)
qed

lemma typed_take_refines:
  assumes laws: "typed_laws K key dec inst"
    and gone: "\<And>K. F (K(key k := None)) = f (F K)" and get: "\<And>K. g (F K) = value_at dec (key k) K"
    and same: "\<And>v. g v = None \<Longrightarrow> f v = v"
  shows "refines (\<lambda>c. F (K now c)) (take_entry inst k now) (spec_take g f)"
  unfolding refines_def
proof (intro allI impI)
  fix c r c' assume "take_entry inst k now c = (r, c')"
  then obtain q where q: "tc_pop inst k now c = (q, c')"
    "r = (case q of Inr (Some x) \<Rightarrow> Inr x | Inr None \<Rightarrow> Inl Not_Found | Inl Key_Missing \<Rightarrow> Inl Not_Found | Inl Cache_Failed \<Rightarrow> Inl Unavailable)"
    by (auto simp: take_entry_def andthen_def recover_def from_option_def split: prod.splits sum.splits option.splits if_splits cache_error.splits)
  note law = typed_pop_law[OF laws q(1)]
  show "spec_take g f (F (K now c)) r (F (K now c')) \<or>
     r = Inl Unavailable \<and> (F (K now c') = F (K now c) \<or> (\<exists>q. spec_take g f (F (K now c)) q (F (K now c'))))"
  proof (cases "g (F (K now c))")
    case None
    then show ?thesis using law q(2) gone get same[OF None]
      by (auto simp: spec_defs split: sum.splits option.splits cache_error.splits)
  next
    case (Some x)
    then show ?thesis using law q(2) gone get
      by (auto simp: spec_defs split: sum.splits option.splits cache_error.splits)
  qed
qed

lemma typed_get_refines:
  assumes laws: "typed_laws K key dec inst" and get: "\<And>K. g (F K) = Option.bind (value_at dec (key k) K) live"
  shows "refines (\<lambda>c. F (K now c)) (andthen (unless_failed (tc_get inst k now)) (\<lambda>v. from_option (Option.bind v live) (stop Not_Found))) (spec_get g)"
  unfolding refines_def
proof (intro allI impI)
  fix c r c' assume "andthen (unless_failed (tc_get inst k now)) (\<lambda>v. from_option (Option.bind v live) (stop Not_Found)) c = (r, c')"
  then obtain q where q: "tc_get inst k now c = (q, c')"
    "r = (case q of Inr v \<Rightarrow> (case Option.bind v live of Some x \<Rightarrow> Inr x | None \<Rightarrow> Inl Not_Found) | Inl _ \<Rightarrow> Inl Unavailable)"
    by (auto simp: unless_failed_def andthen_def recover_def from_option_def split: prod.splits sum.splits option.splits)
  from typed_get_law[OF laws q(1)] q(2) get
  show "spec_get g (F (K now c)) r (F (K now c')) \<or>
     r = Inl Unavailable \<and> (F (K now c') = F (K now c) \<or> (\<exists>q. spec_get g (F (K now c)) q (F (K now c'))))"
    by (cases q) (auto simp: spec_defs split: option.splits)
qed

lemma typed_add_refines:
  assumes laws: "typed_laws K key dec inst" and ttl: "0 < ttl"
    and put: "\<And>t e K. dec t = Some x \<Longrightarrow> F (K(key k \<mapsto> (Text t, e))) = f (F K)"
    and there: "\<And>K. g (F K) = None \<longleftrightarrow> K (key k) = None"
  shows "refines (\<lambda>c. F (K now c)) (andthen (unless_failed (tc_add inst k x ttl now)) (\<lambda>added. if \<not> added then stop Already_Exists else ret y))
     (does (\<lambda>v. if g v \<noteq> None then (Inl Already_Exists, v) else (Inr y, f v)))"
  unfolding refines_def
proof (intro allI impI)
  fix c r c'
  assume "andthen (unless_failed (tc_add inst k x ttl now)) (\<lambda>added. if \<not> added then stop Already_Exists else ret y) c = (r, c')"
  then obtain q where q: "tc_add inst k x ttl now c = (q, c')"
    "r = (case q of Inr b \<Rightarrow> if b then Inr y else Inl Already_Exists | Inl _ \<Rightarrow> Inl Unavailable)"
    by (auto simp: unless_failed_def andthen_def recover_def split: prod.splits sum.splits if_splits)
  from typed_add_law[OF laws ttl q(1)] q(2) put there[of "K now c"]
  show "does (\<lambda>v. if g v \<noteq> None then (Inl Already_Exists, v) else (Inr y, f v)) (F (K now c)) r (F (K now c'))
     \<or> r = Inl Unavailable \<and> (F (K now c') = F (K now c) \<or>
         (\<exists>q. does (\<lambda>v. if g v \<noteq> None then (Inl Already_Exists, v) else (Inr y, f v)) (F (K now c)) q (F (K now c'))))"
    by (cases q) (auto simp: stored_as_def does_def split: if_splits)
qed

subsection \<open>Commands and scripts\<close>

text \<open>A request answered is the one the server ran; one that failed may have been run.\<close>

lemma ask_refines:
  assumes "delivered (K now) m served"
    and run: "\<And>c r c'. served c = (r, c') \<Longrightarrow>
      (case r of Inl _ \<Rightarrow> F (K now c') = F (K now c) \<or> (\<exists>q. S (F (K now c)) q (F (K now c')))
       | Inr x \<Rightarrow> (case read x of Some y \<Rightarrow> S (F (K now c)) (Inr y) (F (K now c')) | None \<Rightarrow> F (K now c') = F (K now c) \<or> (\<exists>q. S (F (K now c)) q (F (K now c')))))"
  shows "refines (\<lambda>c. F (K now c)) (ask ca m read) S"
  unfolding refines_def
proof (intro allI impI)
  fix c r c' assume a: "ask ca m read c = (r, c')"
  let ?ok = "\<lambda>c'. F (K now c') = F (K now c) \<or> (\<exists>q. S (F (K now c)) q (F (K now c')))"
  show "S (F (K now c)) r (F (K now c')) \<or> r = Inl Unavailable \<and> ?ok c'"
  proof (cases "ca_connected ca")
    case False
    then show ?thesis using a by (simp add: ask_def)
  next
    case True
    obtain q d where q: "m c = (q, d)" by fastforce
    obtain t u where t: "served c = (t, u)" by fastforce
    have law: "case q of Inr x \<Rightarrow> t = Inr x \<and> K now d = K now u | Inl _ \<Rightarrow> K now d = K now c \<or> K now d = K now u"
      using assms(1)[unfolded delivered_def, rule_format, OF q] t by (auto split: sum.splits)
    note ran = run[OF t]
    show ?thesis
    proof (cases q)
      case (Inl e)
      then have "r = Inl Unavailable" "c' = d" using a q True by (auto simp: ask_def unless_failed_def andthen_def recover_def)
      moreover have "?ok u" using ran by (auto split: sum.splits option.splits)
      ultimately show ?thesis using law Inl by auto
    next
      case (Inr x)
      then have "c' = d" "r = (case read x of Some y \<Rightarrow> Inr y | None \<Rightarrow> Inl Unavailable)"
        using a q True by (auto simp: ask_def unless_failed_def andthen_def recover_def from_option_def split: option.splits)
      then show ?thesis using law Inr ran by (auto split: option.splits)
    qed
  qed
qed

lemma call_law: "cache_laws ca de K \<Longrightarrow> ca_call ca now cmd c = (r, c') \<Longrightarrow> documented now cmd (K now c) r (K now c')"
  unfolding cache_laws_def by (metis fst_conv snd_conv)


lemma fields_read: "field_pairs (concat (map (\<lambda>(f, v). [f, v]) ps)) = Some ps"
  by (induction ps) auto

text \<open>The commands, in terms of what a key holds.\<close>

lemma h_get_run:
  "documented now (H_Get k f) K r K' \<Longrightarrow>
     K' = K \<and> (r = Inl () \<or> r = Inr (case hash_at k K f of Some v \<Rightarrow> R_Text v | None \<Rightarrow> R_Nil))"
  by (auto simp: documented_hash_def typed_error_def hash_at_def split: option.splits datum.splits)

lemma h_set_run:
  "documented now (H_Set k f v) K r K' \<Longrightarrow>
     K' = K \<and> r = Inl () \<or> (\<exists>n h e. r = Inr (R_Int n) \<and> map_of h = (hash_at k K)(f \<mapsto> v) \<and> K' = K(k \<mapsto> (Hash h, e)))"
  by (cases "K k"; cases "fst (the (K k))"; cases "the (K k)") (auto simp: documented_hash_def typed_error_def hash_at_def)

lemma h_get_all_run:
  "documented now (H_Get_All k) K r K' \<Longrightarrow>
     K' = K \<and> (r = Inl () \<or> (\<exists>ps. r = Inr (R_List (concat (map (\<lambda>(f, v). [f, v]) ps))) \<and> distinct (map fst ps) \<and> map_of ps = hash_at k K))"
  by (auto simp: documented_hash_def typed_error_def hash_at_def split: option.splits datum.splits)

lemma p_expire_run:
  "documented now (P_Expire k ms) K r K' \<Longrightarrow> K k = Some (d, e) \<Longrightarrow>
     (\<exists>x. r = Inr x) \<and> K' = K(k := if ms \<le> 0 then None else Some (d, Some (now + ms * millisecond)))"
  by simp

lemma p_ttl_run: "documented now (P_TTL k) K r K' \<Longrightarrow> K' = K \<and> (\<exists>n\<ge>- 2. r = Inr (R_Int n))"
  by (auto split: option.splits)

definition sorted_left :: "string \<Rightarrow> (string \<rightharpoonup> int) \<Rightarrow> 'j keyspace \<Rightarrow> 'j keyspace \<Rightarrow> bool" where
  "sorted_left k m K K' \<longleftrightarrow> m = Map.empty \<and> K' = K(k := None) \<or> (\<exists>z e. map_of z = m \<and> K' = K(k \<mapsto> (Sorted z, e)))"

lemma sorted_left_at: "sorted_left k m K K' \<Longrightarrow> sorted_at k K' = m"
  by (auto simp: sorted_left_def)

lemma sorted_leftI: "map_of z = m \<Longrightarrow> K' = put_sorted k e z K \<Longrightarrow> sorted_left k m K K'"
  by (cases "z = []") (auto simp: sorted_left_def put_sorted_def)

lemma z_add_run:
  "documented now (Z_Add k score x) K r K' \<Longrightarrow>
     K' = K \<and> r = Inl () \<or> (\<exists>n. r = Inr (R_Int n)) \<and> (\<exists>z e. map_of z = (sorted_at k K)(x \<mapsto> score) \<and> K' = K(k \<mapsto> (Sorted z, e)))"
  by (auto simp: documented_sorted_def typed_error_def sorted_at_def put_sorted_def Let_def split: option.splits datum.splits if_splits)
    (metis map_of.simps(1) map_upd_nonempty)+

lemma z_remove_run:
  "documented now (Z_Remove_Up_To k n) K r K' \<Longrightarrow>
     K' = K \<and> r = Inl () \<or> (\<exists>i. r = Inr (R_Int i)) \<and>
       sorted_left k (\<lambda>x. case sorted_at k K x of Some score \<Rightarrow> if score \<le> n then None else Some score | None \<Rightarrow> None) K K'"
  by (auto simp: documented_sorted_def typed_error_def sorted_at_def Let_def intro: sorted_leftI split: option.splits datum.splits)

lemma z_rem_run:
  "documented now (Z_Rem k x) K r K' \<Longrightarrow>
     K' = K \<and> r = Inl () \<or> (\<exists>i. r = Inr (R_Int i)) \<and> sorted_left k ((sorted_at k K)(x := None)) K K'"
  by (auto simp: documented_sorted_def typed_error_def sorted_at_def Let_def intro: sorted_leftI split: option.splits datum.splits)

lemma z_range_run:
  "documented now (Z_Range_All k) K r K' \<Longrightarrow> K' = K \<and> (r = Inl () \<or> (\<exists>xs. r = Inr (R_List xs) \<and> set xs = dom (sorted_at k K)))"
  by (auto simp: documented_sorted_def typed_error_def sorted_at_def split: option.splits datum.splits)

text \<open>The scripts.\<close>

lemma put_script_run:
  assumes "cache_laws ca de K" "put_shared_app_script (ca_call ca now) k client sid ms c = (r, c')"
  shows "K now c' = K now c \<and> r = Inl ()
    \<or> r = Inr (R_Text (case hash_at k (K now c) client of Some old \<Rightarrow> old | None \<Rightarrow> []))
      \<and> (\<exists>h e. map_of h = (hash_at k (K now c))(client \<mapsto> sid) \<and> K now c' = (K now c)(k := if ms \<le> 0 then None else Some (Hash h, e)))"
proof -
  note law = call_law[OF assms(1), of now]
  obtain r1 c1 where 1: "ca_call ca now (H_Get k client) c = (r1, c1)" by fastforce
  obtain r2 c2 where 2: "ca_call ca now (H_Set k client sid) c1 = (r2, c2)" by fastforce
  obtain r3 c3 where 3: "ca_call ca now (P_Expire k ms) c2 = (r3, c3)" by fastforce
  note get = h_get_run[OF law[OF 1]]
  show ?thesis
  proof (cases "r1 = Inl () \<or> r2 = Inl ()")
    case True
    then show ?thesis using get h_set_run[OF law[OF 2]] assms(2) 1 2 by (auto simp: put_shared_app_script_def andthen_def)
  next
    case False
    then obtain n h e where set: "r2 = Inr (R_Int n)" "map_of h = (hash_at k (K now c))(client \<mapsto> sid)" "K now c2 = (K now c)(k \<mapsto> (Hash h, e))"
      using h_set_run[OF law[OF 2]] get by auto
    have "K now c2 k = Some (Hash h, e)" using set(3) by simp
    from p_expire_run[OF law[OF 3] this] obtain x where x: "r3 = Inr x"
      and left: "K now c3 = (K now c)(k := if ms \<le> 0 then None else Some (Hash h, Some (now + ms * millisecond)))"
      unfolding set(3) fun_upd_upd by blast
    have "r = Inr (R_Text (case hash_at k (K now c) client of Some old \<Rightarrow> old | None \<Rightarrow> [])) \<and> c' = c3"
      using x set(1) get assms(2) 1 2 3 False by (auto simp: put_shared_app_script_def andthen_def split: option.splits)
    with left set(2) show ?thesis by blast
  qed
qed

lemma take_script_run:
  assumes "cache_laws ca de K" "take_shared_apps_script (ca_call ca now) k c = (r, c')"
  shows "K now c' = K now c \<and> r = Inl ()
    \<or> (\<exists>ps. r = Inr (R_List (concat (map (\<lambda>(f, v). [f, v]) ps))) \<and> distinct (map fst ps) \<and> map_of ps = hash_at k (K now c)
        \<and> K now c' = (K now c)(k := None))"
proof -
  note law = call_law[OF assms(1), of now]
  obtain r1 c1 where 1: "ca_call ca now (H_Get_All k) c = (r1, c1)" by fastforce
  obtain r2 c2 where 2: "ca_call ca now (Del k) c1 = (r2, c2)" by fastforce
  show ?thesis
    using h_get_all_run[OF law[OF 1]] law[OF 2] assms(2) 1 2 by (auto simp: take_shared_apps_script_def andthen_def)
qed

lemma add_script_run:
  assumes "cache_laws ca de K" "add_connection_script (ca_call ca now) k score m ms c = (r, c')"
  shows "K now c' = K now c \<and> r = Inl ()
    \<or> r = Inr (R_Int 1) \<and> ((\<exists>z e. map_of z = (sorted_at k (K now c))(m \<mapsto> score) \<and> K now c' = (K now c)(k \<mapsto> (Sorted z, e)))
        \<or> ms \<le> 0 \<and> K now c' = (K now c)(k := None))"
proof -
  note law = call_law[OF assms(1), of now]
  obtain r1 c1 where 1: "ca_call ca now (Z_Add k score m) c = (r1, c1)" by fastforce
  obtain r2 c2 where 2: "ca_call ca now (P_TTL k) c1 = (r2, c2)" by fastforce
  obtain r3 c3 where 3: "ca_call ca now (P_Expire k ms) c2 = (r3, c3)" by fastforce
  show ?thesis
  proof (cases "r1 = Inl ()")
    case True
    then show ?thesis using z_add_run[OF law[OF 1]] assms(2) 1 by (auto simp: add_connection_script_def andthen_def)
  next
    case False
    then obtain n z e where set: "r1 = Inr (R_Int n)" "map_of z = (sorted_at k (K now c))(m \<mapsto> score)" "K now c1 = (K now c)(k \<mapsto> (Sorted z, e))"
      using z_add_run[OF law[OF 1]] by auto
    obtain t where t: "r2 = Inr (R_Int t)" "K now c2 = K now c1" using p_ttl_run[OF law[OF 2]] by auto
    show ?thesis
    proof (cases "t < ms")
      case True
      have "K now c2 k = Some (Sorted z, e)" using set(3) t(2) by simp
      from p_expire_run[OF law[OF 3] this] obtain x where x: "r3 = Inr x"
        and left: "K now c3 = (K now c)(k := if ms \<le> 0 then None else Some (Sorted z, Some (now + ms * millisecond)))"
        unfolding t(2) set(3) fun_upd_upd by blast
      have "r = Inr (R_Int 1) \<and> c' = c3"
        using x set(1) t(1) True assms(2) 1 2 3 by (auto simp: add_connection_script_def andthen_def)
      with left set(2) show ?thesis by (cases "ms \<le> 0") auto
    next
      case F: False
      then show ?thesis using set t assms(2) 1 2 by (auto simp: add_connection_script_def andthen_def)
    qed
  qed
qed

lemma live_script_run:
  assumes "cache_laws ca de K" "live_connections_script (ca_call ca now) k n c = (r, c')"
  shows "(K now c' = K now c \<or> sorted_left k (\<lambda>x. case sorted_at k (K now c) x of Some score \<Rightarrow> if score \<le> n then None else Some score | None \<Rightarrow> None) (K now c) (K now c'))
    \<and> (r = Inl () \<or> (\<exists>xs. r = Inr (R_List xs) \<and> set xs = {m. \<exists>score. sorted_at k (K now c) m = Some score \<and> n < score}))"
proof -
  note law = call_law[OF assms(1), of now]
  obtain r1 c1 where 1: "ca_call ca now (Z_Remove_Up_To k n) c = (r1, c1)" by fastforce
  show ?thesis
  proof (cases "r1 = Inl ()")
    case True
    then show ?thesis using z_remove_run[OF law[OF 1]] assms(2) 1 by (auto simp: live_connections_script_def andthen_def)
  next
    case False
    then have left: "sorted_left k (\<lambda>x. case sorted_at k (K now c) x of Some score \<Rightarrow> if score \<le> n then None else Some score | None \<Rightarrow> None) (K now c) (K now c1)"
      and call: "ca_call ca now (Z_Range_All k) c1 = (r, c')"
      using z_remove_run[OF law[OF 1]] assms(2) 1 by (auto simp: live_connections_script_def andthen_def)
    have after: "dom (\<lambda>x. case f x of Some score \<Rightarrow> if score \<le> n then None else Some score | None \<Rightarrow> None)
        = {m. \<exists>score. f m = Some score \<and> n < score}" for f :: "string \<rightharpoonup> int"
    proof (rule set_eqI)
      fix x show "x \<in> dom (\<lambda>x. case f x of Some score \<Rightarrow> if score \<le> n then None else Some score | None \<Rightarrow> None)
          \<longleftrightarrow> x \<in> {m. \<exists>score. f m = Some score \<and> n < score}"
        by (cases "f x") (auto split: if_splits)
    qed
    show ?thesis
      using z_range_run[OF law[OF call]] left unfolding sorted_left_at[OF left] after by (elim conjE disjE exE) simp_all
  qed
qed


subsection \<open>The operations\<close>

lemma cache_lawsD:
  assumes "cache_laws ca de K"
  shows "now \<le> now' \<Longrightarrow> K now' c \<subseteq>\<^sub>m K now c"
    "typed_laws K (store_key ca flow_instance) (de_flow de) (ca_flows ca)"
    "typed_laws K (store_key ca code_instance) (de_code de) (ca_codes ca)"
    "typed_laws K (store_key ca session_instance) (de_session de) (ca_sessions ca)"
    "typed_laws K (store_key ca refresh_instance) (de_refresh de) (ca_refresh ca)"
    "typed_laws K (store_key ca shared_instance) (de_shared de) (ca_shared ca)"
    "delivered (K now) (ca_do ca now cmd) (ca_call ca now cmd)"
    "delivered (K now) (ca_eval ca now script) script"
    "ca_session_json ca s = Some t \<Longrightarrow> de_session de t = Some s"
    "ca_shared_json ca sh = Some t \<Longrightarrow> de_shared de t = Some sh"
  using assms unfolding cache_laws_def by blast+

lemma left_ms: "millisecond \<le> d \<Longrightarrow> 0 < whole_ms d"
  by (simp add: whole_ms_def millisecond_def pos_imp_zdiv_pos_iff)

lemma vk_replace_refines:
  assumes laws: "cache_laws ca de K"
    and put: "\<And>e K t. json = Some t \<Longrightarrow> F (K(k \<mapsto> (Text t, e))) = f (F K)" and there: "\<And>K. g (F K) = None \<longleftrightarrow> K k = None"
  shows "refines (\<lambda>c. F (K now c)) (vk_replace ca k json left now)
     (does (\<lambda>v. if g v = None then (Inl Not_Found, v) else (Inr (), f v)))"
  unfolding refines_def
proof (intro allI impI)
  fix c r c' assume run: "vk_replace ca k json left now c = (r, c')"
  let ?S = "does (\<lambda>v. if g v = None then (Inl Not_Found, v) else (Inr (), f v))"
  show "?S (F (K now c)) r (F (K now c')) \<or> r = Inl Unavailable \<and> (F (K now c') = F (K now c) \<or> (\<exists>q. ?S (F (K now c)) q (F (K now c'))))"
  proof (cases "ca_connected ca \<and> json \<noteq> None")
    case False
    then have "r = Inl Unavailable \<and> c' = c" using run by (auto simp: vk_replace_def split: option.splits if_splits)
    then show ?thesis by simp
  next
    case True
    then obtain t where t: "json = Some t" "ca_connected ca" by auto
    let ?cmd = "Set_If_There k t (whole_ms left)"
    obtain q d where q: "ca_do ca now ?cmd c = (q, d)" by fastforce
    obtain a u where a: "ca_call ca now ?cmd c = (a, u)" by fastforce
    have law: "case q of Inr x \<Rightarrow> a = Inr x \<and> K now d = K now u | Inl _ \<Rightarrow> K now d = K now c \<or> K now d = K now u"
      using cache_lawsD(7)[OF laws, of now ?cmd, unfolded delivered_def, rule_format, OF q] a by (auto split: sum.splits)
    have r: "c' = d \<and> r = (case q of Inr x \<Rightarrow> if x = R_Nil then Inl Not_Found else Inr () | Inl _ \<Rightarrow> Inl Unavailable)"
      using run t q by (auto simp: vk_replace_def andthen_def unless_failed_def recover_def split: sum.splits)
    from call_law[OF laws a] have ran: "K now u = K now c \<and> (\<exists>e. a = Inl e)
        \<or> K now c k = None \<and> a = Inr R_Nil \<and> K now u = K now c
        \<or> K now c k \<noteq> None \<and> (\<exists>x. a = Inr (R_Text x)) \<and> F (K now u) = f (F (K now c))"
      using put[OF t(1)] by (auto simp: typed_error_def split: if_splits)
    show ?thesis using law r ran there[of "K now c"] by (cases q) (auto simp: does_def)
  qed
qed

lemma valkey_views: "valkey_view ca de K now = (\<lambda>c. keyspace_view ca de now (K now c))"
  by (simp add: valkey_view_def fun_eq_iff)

lemma vk_single_refines:
  assumes laws: "cache_laws ca de K"
  shows "0 < ttl \<Longrightarrow> refines (valkey_view ca de K now) (vk_save_flow ca k f ttl now) (spec_put (\<lambda>v. v\<lparr>v_flows := (v_flows v)(k \<mapsto> f)\<rparr>))"
    "0 < ttl \<Longrightarrow> refines (valkey_view ca de K now) (vk_save_app_code ca k x ttl now) (spec_put (\<lambda>v. v\<lparr>v_codes := (v_codes v)(k \<mapsto> x)\<rparr>))"
    "refines (valkey_view ca de K now) (vk_consume_flow ca k now) (spec_take (\<lambda>v. v_flows v k) (\<lambda>v. v\<lparr>v_flows := (v_flows v)(k := None)\<rparr>))"
    "refines (valkey_view ca de K now) (vk_consume_app_code ca k now) (spec_take (\<lambda>v. v_codes v k) (\<lambda>v. v\<lparr>v_codes := (v_codes v)(k := None)\<rparr>))"
    "refines (valkey_view ca de K now) (vk_take_refresh ca k now) (spec_take (\<lambda>v. v_refresh v k) (\<lambda>v. v\<lparr>v_refresh := (v_refresh v)(k := None)\<rparr>))"
    "refines (valkey_view ca de K now) (vk_delete_session ca k now) (spec_put (\<lambda>v. v\<lparr>v_sessions := (v_sessions v)(k := None)\<rparr>))"
    "refines (valkey_view ca de K now) (vk_delete_refresh ca k now) (spec_put (\<lambda>v. v\<lparr>v_refresh := (v_refresh v)(k := None)\<rparr>))"
proof -
  note laws = cache_lawsD[OF laws] and defs = valkey_views vk_save_flow_def vk_save_app_code_def vk_consume_flow_def
    vk_consume_app_code_def vk_take_refresh_def vk_delete_session_def vk_delete_refresh_def
  show "0 < ttl \<Longrightarrow> refines (valkey_view ca de K now) (vk_save_flow ca k f ttl now) (spec_put (\<lambda>v. v\<lparr>v_flows := (v_flows v)(k \<mapsto> f)\<rparr>))"
    unfolding defs by (rule typed_set_refines[OF laws(2)]) (simp_all only: view_text)
  show "0 < ttl \<Longrightarrow> refines (valkey_view ca de K now) (vk_save_app_code ca k x ttl now) (spec_put (\<lambda>v. v\<lparr>v_codes := (v_codes v)(k \<mapsto> x)\<rparr>))"
    unfolding defs by (rule typed_set_refines[OF laws(3)]) (simp_all only: view_text)
  show "refines (valkey_view ca de K now) (vk_consume_flow ca k now) (spec_take (\<lambda>v. v_flows v k) (\<lambda>v. v\<lparr>v_flows := (v_flows v)(k := None)\<rparr>))"
    unfolding defs by (rule typed_take_refines[OF laws(2)]) (simp only: view_gone, simp only: view_parts, simp add: fun_upd_idem)
  show "refines (valkey_view ca de K now) (vk_consume_app_code ca k now) (spec_take (\<lambda>v. v_codes v k) (\<lambda>v. v\<lparr>v_codes := (v_codes v)(k := None)\<rparr>))"
    unfolding defs by (rule typed_take_refines[OF laws(3)]) (simp only: view_gone, simp only: view_parts, simp add: fun_upd_idem)
  show "refines (valkey_view ca de K now) (vk_take_refresh ca k now) (spec_take (\<lambda>v. v_refresh v k) (\<lambda>v. v\<lparr>v_refresh := (v_refresh v)(k := None)\<rparr>))"
    unfolding defs by (rule typed_take_refines[OF laws(5)]) (simp only: view_gone, simp only: view_parts, simp add: fun_upd_idem)
  show "refines (valkey_view ca de K now) (vk_delete_session ca k now) (spec_put (\<lambda>v. v\<lparr>v_sessions := (v_sessions v)(k := None)\<rparr>))"
    unfolding defs by (rule typed_delete_refines[OF laws(4)]) (simp only: view_gone)
  show "refines (valkey_view ca de K now) (vk_delete_refresh ca k now) (spec_put (\<lambda>v. v\<lparr>v_refresh := (v_refresh v)(k := None)\<rparr>))"
    unfolding defs by (rule typed_delete_refines[OF laws(5)]) (simp only: view_gone)
qed

lemma vk_save_refresh_refines:
  assumes laws: "cache_laws ca de K"
  shows "refines (valkey_view ca de K now) (vk_save_refresh ca k g till now) (spec_put_until (till \<le> now) (\<lambda>v. v\<lparr>v_refresh := (v_refresh v)(k \<mapsto> g)\<rparr>))"
proof (cases "till \<le> now")
  case True
  then show ?thesis by (auto intro!: refinesI simp: vk_save_refresh_def spec_defs)
next
  case False
  then have left: "0 < time_sub till now" by (simp add: not_le[symmetric])
  have "refines (valkey_view ca de K now) (unless_failed (tc_set (ca_refresh ca) k g (time_sub till now) now)) (spec_put (\<lambda>v. v\<lparr>v_refresh := (v_refresh v)(k \<mapsto> g)\<rparr>))"
    unfolding valkey_views by (rule typed_set_refines[OF cache_lawsD(5)[OF laws] left]) (simp only: view_text)
  with False show ?thesis by (simp add: vk_save_refresh_def spec_put_until_def spec_put_def)
qed

lemma live_session_bind: "live_session v now k = Option.bind (v_sessions v k) (\<lambda>s. if session_expired s now then None else Some s)"
  by (simp add: live_session_def split: option.split)

lemma live_shared_bind: "live_shared v now k = Option.bind (v_shared v k) (\<lambda>s. if shared_expired s now then None else Some s)"
  by (simp add: live_shared_def split: option.split)

lemma vk_get_refines:
  assumes laws: "cache_laws ca de K"
  shows "refines (valkey_view ca de K now) (vk_load_refresh ca k now) (spec_get (\<lambda>v. v_refresh v k))"
    "refines (valkey_view ca de K now) (vk_load_session ca k now) (spec_get (\<lambda>v. live_session v now k))"
    "refines (valkey_view ca de K now) (vk_load_shared ca k now) (spec_get (\<lambda>v. live_shared v now k))"
proof -
  note laws = cache_lawsD[OF laws]
  have *: "vk_load_refresh ca k now = andthen (unless_failed (tc_get (ca_refresh ca) k now)) (\<lambda>v. from_option (Option.bind v Some) (stop Not_Found))"
    by (simp add: vk_load_refresh_def)
  show "refines (valkey_view ca de K now) (vk_load_refresh ca k now) (spec_get (\<lambda>v. v_refresh v k))"
    unfolding valkey_views * by (rule typed_get_refines[OF laws(5)]) (simp add: view_parts)
  let ?live = "\<lambda>s. if session_expired s now then None else Some s"
  have *: "vk_load_session ca k now = andthen (unless_failed (tc_get (ca_sessions ca) k now)) (\<lambda>v. from_option (Option.bind v ?live) (stop Not_Found))"
    unfolding vk_load_session_def
    by (rule arg_cong[of _ _ "andthen _"]) (auto simp: fun_eq_iff from_option_def split: option.splits)
  have ended: "?live empty_session = None" by (simp add: session_expired_def empty_session_def)
  show "refines (valkey_view ca de K now) (vk_load_session ca k now) (spec_get (\<lambda>v. live_session v now k))"
    unfolding valkey_views * by (rule typed_get_refines[OF laws(4)])
      (simp only: live_session_bind view_parts live_entry[of ?live, OF ended])
  let ?live = "\<lambda>s. if shared_expired s now then None else Some s"
  have *: "vk_load_shared ca k now = andthen (unless_failed (tc_get (ca_shared ca) k now)) (\<lambda>v. from_option (Option.bind v ?live) (stop Not_Found))"
    unfolding vk_load_shared_def
    by (rule arg_cong[of _ _ "andthen _"]) (auto simp: fun_eq_iff from_option_def split: option.splits)
  have ended: "?live empty_shared = None" by (simp add: shared_expired_def empty_shared_def)
  show "refines (valkey_view ca de K now) (vk_load_shared ca k now) (spec_get (\<lambda>v. live_shared v now k))"
    unfolding valkey_views * by (rule typed_get_refines[OF laws(6)])
      (simp only: live_shared_bind view_parts live_entry[of ?live, OF ended])
qed


lemma time_sub_pos [simp]: "0 < time_sub a b \<longleftrightarrow> b < a"
  by (auto simp: time_sub_def)

lemma vk_create_refines:
  assumes laws: "cache_laws ca de K"
  shows "0 < life \<Longrightarrow> refines (valkey_view ca de K now) (vk_create_session ca sid s life now) (spec_create_session sid s life now)"
    "0 \<le> now \<Longrightarrow> refines (valkey_view ca de K now) (vk_create_shared ca i sh now) (spec_create_shared i sh now)"
proof -
  let ?s = "s\<lparr>s_expires_at := now + life\<rparr>"
  have *: "spec_create_session sid s life now = does (\<lambda>v. if v_sessions v sid \<noteq> None then (Inl Already_Exists, v)
      else (Inr ?s, v\<lparr>v_sessions := (v_sessions v)(sid \<mapsto> ?s)\<rparr>))"
    by (simp add: spec_create_session_def Let_def)
  show "0 < life \<Longrightarrow> refines (valkey_view ca de K now) (vk_create_session ca sid s life now) (spec_create_session sid s life now)"
    unfolding valkey_views vk_create_session_def Let_def *
    by (rule typed_add_refines[OF cache_lawsD(4)[OF laws]]) (assumption, simp only: view_text option.case, simp only: view_parts entry_at_None)
  assume now: "0 \<le> now"
  show "refines (valkey_view ca de K now) (vk_create_shared ca i sh now) (spec_create_shared i sh now)"
  proof (cases "sh_expires_at sh \<le> now")
    case True
    then show ?thesis by (auto intro!: refinesI simp: vk_create_shared_def spec_defs shared_expired_def)
  next
    case False
    then have left: "0 < time_sub (sh_expires_at sh) now" and late: "\<not> time_sub (sh_expires_at sh) now \<le> 0" by simp_all
    have "refines (valkey_view ca de K now) (vk_create_shared ca i sh now)
       (does (\<lambda>v. if v_shared v i \<noteq> None then (Inl Already_Exists, v) else (Inr (), v\<lparr>v_shared := (v_shared v)(i \<mapsto> sh)\<rparr>)))"
      unfolding valkey_views vk_create_shared_def Let_def if_not_P[OF late]
      by (rule typed_add_refines[OF cache_lawsD(6)[OF laws] left]) (simp only: view_text option.case, simp only: view_parts entry_at_None)
    moreover have "\<not> shared_expired sh now" using False now by (simp add: shared_expired_def)
    ultimately show ?thesis by (simp add: spec_create_shared_def)
  qed
qed

lemma vk_replace_ops_refines:
  assumes laws: "cache_laws ca de K" and now: "0 \<le> now"
  shows "refines (valkey_view ca de K now) (vk_replace_session ca sid s now) (spec_replace_session sid s now)"
    "refines (valkey_view ca de K now) (vk_replace_shared ca i sh now) (spec_replace_shared i sh now)"
proof -
  show "refines (valkey_view ca de K now) (vk_replace_session ca sid s now) (spec_replace_session sid s now)"
  proof (cases "session_expired s now")
    case True
    then show ?thesis by (auto intro!: refinesI simp: vk_replace_session_def spec_defs session_expired_def Let_def)
  next
    case False
    have "refines (valkey_view ca de K now) (vk_replace ca (store_key ca session_instance sid) (ca_session_json ca s) (time_sub (s_expires_at s) now) now)
      (does (\<lambda>v. if v_sessions v sid = None then (Inl Not_Found, v) else (Inr (), v\<lparr>v_sessions := (v_sessions v)(sid \<mapsto> s)\<rparr>)))"
      unfolding valkey_views
      by (rule vk_replace_refines[OF laws]) (simp only: view_text cache_lawsD(9)[OF laws] option.case, simp only: view_parts entry_at_None)
    with False show ?thesis by (simp add: vk_replace_session_def spec_replace_session_def session_expired_def)
  qed
  show "refines (valkey_view ca de K now) (vk_replace_shared ca i sh now) (spec_replace_shared i sh now)"
  proof (cases "shared_expired sh now")
    case True
    then show ?thesis using now by (auto intro!: refinesI simp: vk_replace_shared_def spec_defs shared_expired_def Let_def)
  next
    case False
    have "refines (valkey_view ca de K now) (vk_replace ca (store_key ca shared_instance i) (ca_shared_json ca sh) (time_sub (sh_expires_at sh) now) now)
      (does (\<lambda>v. if v_shared v i = None then (Inl Not_Found, v) else (Inr (), v\<lparr>v_shared := (v_shared v)(i \<mapsto> sh)\<rparr>)))"
      unfolding valkey_views
      by (rule vk_replace_refines[OF laws]) (simp only: view_text cache_lawsD(10)[OF laws] option.case, simp only: view_parts entry_at_None)
    with False show ?thesis by (simp add: vk_replace_shared_def spec_replace_shared_def shared_expired_def)
  qed
qed

lemma short_life: "whole_ms (time_sub till now) \<le> 0 \<Longrightarrow> till < now + millisecond"
  using left_ms[of "time_sub till now"] by (auto simp: time_sub_def millisecond_def not_le[symmetric])

lemma vk_put_shared_app_refines:
  assumes laws: "cache_laws ca de K"
  shows "refines (valkey_view ca de K now) (vk_put_shared_app ca i client sid till now) (spec_put_shared_app i client sid till now)"
proof (cases "till \<le> now")
  case True
  then show ?thesis by (auto intro!: refinesI simp: vk_put_shared_app_def spec_defs)
next
  case False
  let ?k = "store_key ca shared_apps_instance i" and ?ms = "whole_ms (time_sub till now)"
  let ?script = "put_shared_app_script (ca_call ca now) ?k client sid ?ms"
  have "refines (valkey_view ca de K now) (ask ca (ca_eval ca now ?script) as_text) (spec_put_shared_app i client sid till now)"
    unfolding valkey_views
  proof (rule ask_refines[where served = ?script])
    show "delivered (K now) (ca_eval ca now ?script) ?script" by (rule cache_lawsD(8)[OF laws])
    fix c r c' assume run: "?script c = (r, c')"
    let ?F = "keyspace_view ca de now" and ?S = "spec_put_shared_app i client sid till now"
    from put_script_run[OF laws run]
    show "case r of Inl _ \<Rightarrow> ?F (K now c') = ?F (K now c) \<or> (\<exists>q. ?S (?F (K now c)) q (?F (K now c')))
       | Inr x \<Rightarrow> (case as_text x of Some y \<Rightarrow> ?S (?F (K now c)) (Inr y) (?F (K now c'))
           | None \<Rightarrow> ?F (K now c') = ?F (K now c) \<or> (\<exists>q. ?S (?F (K now c)) q (?F (K now c'))))"
    proof (elim disjE conjE exE)
      fix h e assume r: "r = Inr (R_Text (case hash_at ?k (K now c) client of Some old \<Rightarrow> old | None \<Rightarrow> []))"
        and h: "map_of h = (hash_at ?k (K now c))(client \<mapsto> sid)" and K': "K now c' = (K now c)(?k := if ?ms \<le> 0 then None else Some (Hash h, e))"
      have "?S (?F (K now c)) (Inr (case hash_at ?k (K now c) client of Some old \<Rightarrow> old | None \<Rightarrow> [])) (?F (K now c'))"
      proof (cases "?ms \<le> 0")
        case True
        from short_life[OF this] have "\<not> now + millisecond \<le> till" by simp
        with True False K' show ?thesis
          by (auto simp: spec_put_shared_app_def view_gone view_parts intro!: exI[of _ Map.empty])
      next
        case F: False
        with False K' h show ?thesis
          by (auto simp: spec_put_shared_app_def view_hash view_parts intro!: exI[of _ "map_of h"])
      qed
      then show ?thesis using r by (simp add: as_text_def)
    qed (simp add: as_text_def)
  qed
  with False show ?thesis by (simp add: vk_put_shared_app_def)
qed


text \<open>A request that was asked, and what became of it.\<close>

lemma ask_outcome:
  assumes "delivered (K now) m served" "ask ca m read c = (r, c')"
  shows "r = Inl Unavailable \<and> (K now c' = K now c \<or> K now c' = K now (snd (served c)))
    \<or> (\<exists>x y. fst (served c) = Inr x \<and> read x = Some y \<and> r = Inr y \<and> K now c' = K now (snd (served c)))"
proof (cases "ca_connected ca")
  case True
  obtain q d where q: "m c = (q, d)" by fastforce
  have law: "case q of Inr x \<Rightarrow> fst (served c) = Inr x \<and> K now d = K now (snd (served c)) | Inl _ \<Rightarrow> K now d = K now c \<or> K now d = K now (snd (served c))"
    using assms(1) q unfolding delivered_def by auto
  show ?thesis
  proof (cases q)
    case (Inl e)
    then show ?thesis using law assms(2) q True by (auto simp: ask_def unless_failed_def andthen_def recover_def)
  next
    case (Inr x)
    then show ?thesis
      using law assms(2) q True by (cases "read x") (auto simp: ask_def unless_failed_def andthen_def recover_def from_option_def)
  qed
qed (use assms(2) in \<open>auto simp: ask_def\<close>)

lemma vk_end_shared_refines:
  assumes laws: "cache_laws ca de K"
  shows "refines (valkey_view ca de K now) (vk_end_shared ca i now) (spec_end_shared i)"
  unfolding refines_def valkey_views
proof (intro allI impI)
  fix c r c' assume run: "vk_end_shared ca i now c = (r, c')"
  let ?F = "keyspace_view ca de now" and ?k = "store_key ca shared_instance i" and ?ka = "store_key ca shared_apps_instance i"
  let ?del = "ask ca (ca_do ca now (Del ?k)) as_int64"
  let ?script = "take_shared_apps_script (ca_call ca now) ?ka"
  obtain q d where q: "?del c = (q, d)" by fastforce
  obtain a u where a: "ca_call ca now (Del ?k) c = (a, u)" by fastforce
  have del: "a = Inr (R_Int (if K now c ?k = None then 0 else 1))" "K now u = (K now c)(?k := None)"
    using call_law[OF laws a] by simp_all
  note first = ask_outcome[of K now, OF cache_lawsD(7)[OF laws] q, unfolded a fst_conv snd_conv]
  have there: "v_shared (?F (K now c)) i = None \<longleftrightarrow> K now c ?k = None" by (simp add: view_parts)
  show "spec_end_shared i (?F (K now c)) r (?F (K now c')) \<or> r = Inl Unavailable
      \<and> (?F (K now c') = ?F (K now c) \<or> (\<exists>q. spec_end_shared i (?F (K now c)) q (?F (K now c'))))"
  proof (cases "q = Inl Unavailable")
    case True
    then have c': "c' = d" "r = Inl Unavailable" using run q by (simp_all add: vk_end_shared_def andthen_def)
    from first have "K now d = K now c \<or> K now d = (K now c)(?k := None)" using True del(2) by auto
    then show ?thesis
    proof
      assume gone: "K now d = (K now c)(?k := None)"
      show ?thesis
      proof (cases "K now c ?k = None")
        case True
        then have "K now d = K now c" using gone by (simp add: fun_upd_idem)
        with c' show ?thesis by simp
      next
        case F: False
        then have "v_shared (?F (K now c)) i \<noteq> None" using there by simp
        moreover have "?F (K now c') = (?F (K now c))\<lparr>v_shared := (v_shared (?F (K now c)))(i := None)\<rparr>"
          by (simp only: c' gone view_gone)
        ultimately show ?thesis using c'(2) unfolding spec_end_shared_def by (simp only: if_False) blast
      qed
    qed (use c' in simp)
  next
    case False
    then have q': "q = Inr (if K now c ?k = None then 0 else 1)" and d: "K now d = (K now c)(?k := None)"
      using first del by (auto simp: as_int64_def)
    show ?thesis
    proof (cases "K now c ?k = None")
      case True
      then have "K now d = K now c" using d by (simp add: fun_upd_idem)
      then show ?thesis using run q q' True there by (simp add: vk_end_shared_def andthen_def spec_end_shared_def)
    next
      case F: False
      then have take: "ask ca (ca_eval ca now ?script) as_str_map d = (r, c')"
        using run q unfolding q'[unfolded if_not_P[OF F]] by (simp add: vk_end_shared_def andthen_def)
      obtain b v where b: "?script d = (b, v)" by fastforce
      note second = ask_outcome[of K now, OF cache_lawsD(8)[OF laws] take, unfolded b fst_conv snd_conv]
      have apps: "hash_at ?ka (K now d) = v_apps (?F (K now c)) i" using d by (simp add: view_parts instance_names)
      have mid: "?F (K now d) = (?F (K now c))\<lparr>v_shared := (v_shared (?F (K now c)))(i := None)\<rparr>" unfolding d view_gone ..
      have both: "?F ((K now d)(?ka := None)) = (?F (K now c))\<lparr>v_shared := (v_shared (?F (K now c)))(i := None), v_apps := (v_apps (?F (K now c)))(i := Map.empty)\<rparr>"
        unfolding view_gone mid by simp
      have F': "v_shared (?F (K now c)) i \<noteq> None" using F there by simp
      have ended: "spec_end_shared i (?F (K now c)) (Inl Unavailable) (?F (K now d))" unfolding mid spec_end_shared_def if_not_P[OF F'] by blast
      from take_script_run[OF laws b] show ?thesis
      proof (elim disjE conjE exE)
        assume "K now v = K now d" "b = Inl ()"
        then have "r = Inl Unavailable" "?F (K now c') = ?F (K now d)" using second by auto
        then show ?thesis using ended by simp
      next
        fix ps assume ps: "b = Inr (R_List (concat (map (\<lambda>(f, v). [f, v]) ps)))" "distinct (map fst ps)"
          "map_of ps = hash_at ?ka (K now d)" "K now v = (K now d)(?ka := None)"
        have end': "spec_end_shared i (?F (K now c)) (Inr ps) (?F (K now v))"
          unfolding spec_end_shared_def ps(4) both if_not_P[OF F'] using ps(2,3) apps by auto
        have "r = Inl Unavailable \<and> (K now c' = K now d \<or> K now c' = K now v) \<or> r = Inr ps \<and> K now c' = K now v"
          using second ps(1) by (auto simp: as_str_map_def fields_read)
        then show ?thesis
          using end' ended by (elim disjE conjE) (simp_all, blast+)
      qed
    qed
  qed
qed

subsection \<open>Connections\<close>

lemma member_connection_iff: "member_connection m = Some c \<longleftrightarrow> m = conn_member c \<and> CHR '' '' \<notin> set (con_id c)"
proof -
  have "member_connection m = Some c \<longleftrightarrow> cut (CHR '' '') m = (con_id c, con_session c, True)"
    by (cases c) (auto simp: member_connection_def split: prod.splits)
  then show ?thesis by (simp add: cut_found conn_member_def)
qed

lemma conn_member_inj: "CHR '' '' \<notin> set (con_id c) \<Longrightarrow> CHR '' '' \<notin> set (con_id d) \<Longrightarrow> conn_member c = conn_member d \<longleftrightarrow> c = d"
  by (metis member_connection_iff option.inject)

lemma vk_add_connection_refines:
  assumes laws: "cache_laws ca de K"
  shows "refines (valkey_view ca de K now) (vk_add_connection ca t a c till now) (spec_add_connection t a c till now)"
proof (cases "till \<le> now")
  case True
  then show ?thesis by (auto intro!: refinesI simp: vk_add_connection_def spec_defs)
next
  case False
  let ?k = "store_key ca connections_instance (conn_key t a)" and ?ms = "whole_ms (time_sub till now)"
  let ?script = "add_connection_script (ca_call ca now) ?k (unix_milli till) (conn_member c) ?ms"
  have "refines (valkey_view ca de K now) (ask ca (ca_eval ca now ?script) (\<lambda>_. Some ())) (spec_add_connection t a c till now)"
    unfolding valkey_views
  proof (rule ask_refines[where served = ?script])
    show "delivered (K now) (ca_eval ca now ?script) ?script" by (rule cache_lawsD(8)[OF laws])
    fix d r d' assume run: "?script d = (r, d')"
    let ?F = "keyspace_view ca de now" and ?S = "spec_add_connection t a c till now"
    let ?old = "v_conns (?F (K now d)) (conn_key t a)"
    have put: "?S (?F (K now d)) (Inr ()) (?F (K now d'))"
      if "?F (K now d') = (?F (K now d))\<lparr>v_conns := (v_conns (?F (K now d)))(conn_key t a := S)\<rparr>"
        "CHR '' '' \<notin> set (con_id c) \<Longrightarrow> S \<subseteq> insert c ?old" "CHR '' '' \<notin> set (con_id c) \<Longrightarrow> now + millisecond \<le> till \<Longrightarrow> S = insert c ?old" for S
      using that False unfolding spec_add_connection_def by (simp only: if_False) (intro conjI exI[of _ S] impI; blast)
    from add_script_run[OF laws run]
    show "case r of Inl _ \<Rightarrow> ?F (K now d') = ?F (K now d) \<or> (\<exists>q. ?S (?F (K now d)) q (?F (K now d')))
       | Inr x \<Rightarrow> (case Some () of Some y \<Rightarrow> ?S (?F (K now d)) (Inr y) (?F (K now d'))
           | None \<Rightarrow> ?F (K now d') = ?F (K now d) \<or> (\<exists>q. ?S (?F (K now d)) q (?F (K now d'))))"
    proof (elim disjE conjE exE)
      assume "?ms \<le> 0" "r = Inr (R_Int 1)" "K now d' = (K now d)(?k := None)"
      with short_life[OF this(1)] put[of "{}"] show ?thesis by (simp add: view_sorted)
    next
      fix z e assume r: "r = Inr (R_Int 1)" and z: "map_of z = (sorted_at ?k (K now d))(conn_member c \<mapsto> unix_milli till)"
        and K': "K now d' = (K now d)(?k \<mapsto> (Sorted z, e))"
      let ?S' = "members_after (unix_milli now) (map_of z)"
      have sub: "?S' \<subseteq> insert c ?old" and more: "now + millisecond \<le> till \<Longrightarrow> insert c ?old \<subseteq> ?S'" if "CHR '' '' \<notin> set (con_id c)"
        using that unix_milli_apart[of now till]
        by (auto simp: z view_parts members_after_def member_connection_iff conn_member_inj split: if_splits)
      have "?S (?F (K now d)) (Inr ()) (?F (K now d'))"
        by (rule put[of ?S']) (use sub more K' in \<open>simp_all add: view_sorted subset_antisym\<close>)
      then show ?thesis using r by simp
    qed simp
  qed
  with False show ?thesis by (simp add: vk_add_connection_def connection_key_def conn_key_def)
qed

lemma ask_map: "andthen (ask ca m read) (\<lambda>x. ret (f x)) = ask ca m (\<lambda>r. map_option f (read r))"
  by (auto simp: fun_eq_iff ask_def andthen_def unless_failed_def recover_def from_option_def split: prod.splits sum.splits option.splits)

lemma left_view:
  assumes "sorted_left (store_key ca connections_instance k) m K K'"
  shows "keyspace_view ca de now K' = (keyspace_view ca de now K)\<lparr>v_conns := (v_conns (keyspace_view ca de now K))(k := members_after (unix_milli now) m)\<rparr>"
  using assms unfolding sorted_left_def by (elim disjE conjE exE) (simp_all add: view_sorted members_after_def)

lemma vk_connections_refines:
  assumes laws: "cache_laws ca de K"
  shows "refines (valkey_view ca de K now) (vk_connections ca t a now) (spec_connections t a)"
  unfolding valkey_views vk_connections_def ask_map
proof (rule ask_refines[where served = "live_connections_script (ca_call ca now) (connection_key ca t a) (unix_milli now)"])
  let ?k = "store_key ca connections_instance (conn_key t a)"
  have k: "connection_key ca t a = ?k" by (simp add: connection_key_def conn_key_def)
  show "delivered (K now) (ca_eval ca now (live_connections_script (ca_call ca now) (connection_key ca t a) (unix_milli now)))
     (live_connections_script (ca_call ca now) (connection_key ca t a) (unix_milli now))"
    by (rule cache_lawsD(8)[OF laws])
  fix c r c' assume "live_connections_script (ca_call ca now) (connection_key ca t a) (unix_milli now) c = (r, c')"
  note ran = live_script_run[OF laws this[unfolded k]]
  let ?F = "keyspace_view ca de now" and ?S = "spec_connections t a"
  have same: "?F (K now c') = ?F (K now c)"
    using ran[THEN conjunct1]
  proof
    assume left: "sorted_left ?k (\<lambda>x. case sorted_at ?k (K now c) x of Some score \<Rightarrow> if score \<le> unix_milli now then None else Some score | None \<Rightarrow> None)
      (K now c) (K now c')"
    have "members_after (unix_milli now) (\<lambda>x. case sorted_at ?k (K now c) x of Some score \<Rightarrow> if score \<le> unix_milli now then None else Some score | None \<Rightarrow> None)
        = members_after (unix_milli now) (sorted_at ?k (K now c))"
      by (fastforce simp: members_after_def split: option.splits if_splits)
    then show ?thesis unfolding left_view[OF left] by (simp add: view_parts(7)[of ca de now "K now c", symmetric])
  qed simp
  have "set (List.map_filter member_connection xs) = v_conns (?F (K now c)) (conn_key t a)"
    if "set xs = {m. \<exists>score. sorted_at ?k (K now c) m = Some score \<and> unix_milli now < score}" for xs
    using that by (force simp: List.map_filter_def view_parts members_after_def)
  with ran[THEN conjunct2] same
  show "case r of Inl _ \<Rightarrow> ?F (K now c') = ?F (K now c) \<or> (\<exists>q. ?S (?F (K now c)) q (?F (K now c')))
     | Inr x \<Rightarrow> (case map_option (List.map_filter member_connection) (as_str_slice x) of Some y \<Rightarrow> ?S (?F (K now c)) (Inr y) (?F (K now c'))
         | None \<Rightarrow> ?F (K now c') = ?F (K now c) \<or> (\<exists>q. ?S (?F (K now c)) q (?F (K now c'))))"
    by (elim disjE exE conjE) (simp_all add: as_str_slice_def spec_connections_def)
qed

lemma vk_remove_connection_refines:
  assumes laws: "cache_laws ca de K"
  shows "refines (valkey_view ca de K now) (vk_remove_connection ca t a c now) (spec_remove_connection t a c)"
  unfolding valkey_views vk_remove_connection_def
proof (rule ask_refines[where served = "ca_call ca now (Z_Rem (connection_key ca t a) (conn_member c))"])
  let ?k = "store_key ca connections_instance (conn_key t a)"
  have k: "connection_key ca t a = ?k" by (simp add: connection_key_def conn_key_def)
  show "delivered (K now) (ca_do ca now (Z_Rem (connection_key ca t a) (conn_member c))) (ca_call ca now (Z_Rem (connection_key ca t a) (conn_member c)))"
    by (rule cache_lawsD(7)[OF laws])
  fix d r d' assume run: "ca_call ca now (Z_Rem (connection_key ca t a) (conn_member c)) d = (r, d')"
  let ?F = "keyspace_view ca de now" and ?S = "spec_remove_connection t a c"
  from z_rem_run[OF call_law[OF laws run, unfolded k]]
  show "case r of Inl _ \<Rightarrow> ?F (K now d') = ?F (K now d) \<or> (\<exists>q. ?S (?F (K now d)) q (?F (K now d')))
     | Inr x \<Rightarrow> (case Some () of Some y \<Rightarrow> ?S (?F (K now d)) (Inr y) (?F (K now d'))
         | None \<Rightarrow> ?F (K now d') = ?F (K now d) \<or> (\<exists>q. ?S (?F (K now d)) q (?F (K now d'))))"
  proof (elim disjE conjE exE)
    fix i assume r: "r = Inr (R_Int i)" and left: "sorted_left ?k ((sorted_at ?k (K now d))(conn_member c := None)) (K now d) (K now d')"
    have gone: "members_after (unix_milli now) ((sorted_at ?k (K now d))(conn_member c := None)) = v_conns (?F (K now d)) (conn_key t a) - {c}"
      if "CHR '' '' \<notin> set (con_id c)"
      using that by (auto simp: members_after_def view_parts member_connection_iff conn_member_inj)
    have "?S (?F (K now d)) (Inr ()) (?F (K now d'))"
      unfolding left_view[OF left] spec_remove_connection_def using gone by blast
    then show ?thesis using r by simp
  qed simp
qed

lemma valkey_later:
  fixes K :: "time \<Rightarrow> 'c \<Rightarrow> 'j keyspace"
  assumes laws: "cache_laws ca de K" and le: "now \<le> now'"
  shows "view_le (valkey_view ca de K now' c) (valkey_view ca de K now c)"
proof -
  note fewer = cache_lawsD(1)[OF laws le, of c]
  have same: "K now c k = Some x" if "K now' c k = Some x" for k x
    using fewer that by (auto simp: map_le_def dom_def)
  have v: "value_at dec k (K now' c) = Some x \<Longrightarrow> value_at dec k (K now c) = Some x" for dec :: "'j \<Rightarrow> 'b option" and k x
    by (cases "K now' c k") (auto simp: value_at_def dest!: same)
  have e: "entry_at dec y k (K now' c) = Some x \<Longrightarrow> entry_at dec y k (K now c) = Some x" for dec :: "'j \<Rightarrow> 'b option" and y k x
    by (cases "K now' c k") (auto simp: entry_at_def dest!: same)
  have h: "hash_at k (K now' c) f = Some x \<Longrightarrow> hash_at k (K now c) f = Some x" for k f x
    by (cases "K now' c k") (auto simp: hash_at_def dest!: same)
  have z: "sorted_at k (K now' c) f = Some x \<Longrightarrow> sorted_at k (K now c) f = Some x" for k f x
    by (cases "K now' c k") (auto simp: sorted_at_def dest!: same)
  have "members_after (unix_milli now') (sorted_at k (K now' c)) \<subseteq> members_after (unix_milli now) (sorted_at k (K now c))" for k
    using unix_milli_mono[OF le] z by (fastforce simp: members_after_def)
  moreover have leI: "f \<subseteq>\<^sub>m g" if "\<And>k x. f k = Some x \<Longrightarrow> g k = Some x" for f g :: "string \<rightharpoonup> 'b"
    using that by (force simp: map_le_def dom_def)
  ultimately show ?thesis
    unfolding view_le_def valkey_view_def by (intro conjI allI leI) (auto simp: view_parts v e h)
qed


lemmas vk_refines = vk_single_refines vk_save_refresh_refines vk_get_refines vk_create_refines vk_replace_ops_refines
  vk_put_shared_app_refines vk_end_shared_refines vk_add_connection_refines vk_connections_refines vk_remove_connection_refines

lemma valkey_ops_laws: "cache_laws ca de K \<Longrightarrow> session_store (valkey_ops ca) (valkey_view ca de K)"
  by unfold_locales (simp_all add: valkey_ops_def valkey_later vk_refines)

text \<open>
  C40. The production store keeps the store contract. Over a cache that does what it is documented to do,
  whose requests may fail having been carried out or not, every operation of the Valkey store does to the
  live flows, codes, sessions, grants, shared sessions and connections what the contract every handler
  relies on says, or answers that it could not: values are taken once, a session that ended is never
  written over, and the scripts' steps are seen whole.
\<close>

theorem valkey_keeps_contract:
  assumes "cache_laws ca de K"
  shows "session_store (valkey_ops ca) (valkey_view ca de K)"
  using assms by (rule valkey_ops_laws)


section \<open>A cache that does as documented\<close>

text \<open>One process's map of keys, whose documents are the values themselves.\<close>

datatype doc = Flow_D flow | Code_D app_code | Session_D session | Refresh_D refresh_grant | Shared_D shared

fun flow_of :: "doc \<Rightarrow> flow option" where "flow_of (Flow_D x) = Some x" | "flow_of _ = None"
fun code_of :: "doc \<Rightarrow> app_code option" where "code_of (Code_D x) = Some x" | "code_of _ = None"
fun session_of :: "doc \<Rightarrow> session option" where "session_of (Session_D x) = Some x" | "session_of _ = None"
fun refresh_of :: "doc \<Rightarrow> refresh_grant option" where "refresh_of (Refresh_D x) = Some x" | "refresh_of _ = None"
fun shared_of :: "doc \<Rightarrow> shared option" where "shared_of (Shared_D x) = Some x" | "shared_of _ = None"

definition present_keys :: "time \<Rightarrow> 'j keyspace \<Rightarrow> 'j keyspace" where
  "present_keys now c k = (case c k of Some (d, Some t) \<Rightarrow> if now < t then Some (d, Some t) else None | x \<Rightarrow> x)"

definition hash_there :: "'j datum \<times> time option \<Rightarrow> ((string \<times> string) list \<times> time option) option" where
  "hash_there x = (case x of (Hash h, e) \<Rightarrow> Some (h, e) | _ \<Rightarrow> None)"

definition sorted_there :: "'j datum \<times> time option \<Rightarrow> ((string \<times> int) list \<times> time option) option" where
  "sorted_there x = (case x of (Sorted z, e) \<Rightarrow> Some (z, e) | _ \<Rightarrow> None)"

definition on_kind :: "('j datum \<times> time option \<Rightarrow> ('b list \<times> time option) option) \<Rightarrow> time \<Rightarrow> string
    \<Rightarrow> ('b list \<Rightarrow> time option \<Rightarrow> resp \<times> 'j keyspace) \<Rightarrow> 'j keyspace \<Rightarrow> (unit + resp) \<times> 'j keyspace" where
  "on_kind get now k f c =
     (case present_keys now c k of
        None \<Rightarrow> (case f [] None of (r, c') \<Rightarrow> (Inr r, c'))
      | Some x \<Rightarrow> (case get x of Some (xs, e) \<Rightarrow> (case f xs e of (r, c') \<Rightarrow> (Inr r, c')) | None \<Rightarrow> (Inl (), c)))"

fun run_command :: "time \<Rightarrow> 'j command \<Rightarrow> 'j keyspace \<Rightarrow> (unit + resp) \<times> 'j keyspace" where
  "run_command now (Set_If_There k t ms) c =
     (if ms \<le> 0 then (Inl (), c) else if present_keys now c k = None then (Inr R_Nil, c)
      else (Inr (R_Text ''OK''), c(k \<mapsto> (Text t, Some (now + ms * millisecond)))))"
| "run_command now (Del k) c = (Inr (R_Int (if present_keys now c k = None then 0 else 1)), c(k := None))"
| "run_command now (P_Expire k ms) c =
     (case present_keys now c k of
        None \<Rightarrow> (Inr (R_Int 0), c)
      | Some (d, _) \<Rightarrow> (Inr (R_Int 1), c(k := if ms \<le> 0 then None else Some (d, Some (now + ms * millisecond)))))"
| "run_command now (P_TTL k) c =
     (case present_keys now c k of
        None \<Rightarrow> (Inr (R_Int (- 2)), c)
      | Some (_, None) \<Rightarrow> (Inr (R_Int (- 1)), c)
      | Some (_, Some t) \<Rightarrow> (Inr (R_Int ((t - now) div millisecond)), c))"
| "run_command now (H_Get k f) c =
     on_kind hash_there now k (\<lambda>h e. (case map_of h f of Some v \<Rightarrow> R_Text v | None \<Rightarrow> R_Nil, c)) c"
| "run_command now (H_Set k f v) c =
     on_kind hash_there now k (\<lambda>h e. (R_Int 1, c(k \<mapsto> (Hash (AList.update f v h), e)))) c"
| "run_command now (H_Get_All k) c =
     on_kind hash_there now k (\<lambda>h e. (R_List (concat (map (\<lambda>(f, v). [f, v]) (AList.clearjunk h))), c)) c"
| "run_command now (Z_Add k score x) c =
     on_kind sorted_there now k (\<lambda>z e. (R_Int 1, put_sorted k e (AList.update x score z) c)) c"
| "run_command now (Z_Remove_Up_To k n) c =
     on_kind sorted_there now k (\<lambda>z e. (R_Int 1, put_sorted k e (filter (\<lambda>p. \<not> snd p \<le> n) (AList.clearjunk z)) c)) c"
| "run_command now (Z_Range_All k) c =
     on_kind sorted_there now k (\<lambda>z e. (R_List (map fst z), c)) c"
| "run_command now (Z_Rem k x) c =
     on_kind sorted_there now k (\<lambda>z e. (R_Int 1, put_sorted k e (AList.delete x z) c)) c"

definition example_typed :: "string \<Rightarrow> ('a \<Rightarrow> 'j) \<Rightarrow> ('j \<Rightarrow> 'a option) \<Rightarrow> ('j keyspace, 'a) typed" where
  "example_typed inst enc dec =
     \<lparr>tc_set = (\<lambda>k x ttl now c. (Inr (), c(inst @ '':'' @ k \<mapsto> (Text (enc x), Some (now + ttl))))),
      tc_add = (\<lambda>k x ttl now c. if present_keys now c (inst @ '':'' @ k) = None
        then (Inr True, c(inst @ '':'' @ k \<mapsto> (Text (enc x), Some (now + ttl)))) else (Inr False, c)),
      tc_get = (\<lambda>k now c. (Inr (value_at dec (inst @ '':'' @ k) (present_keys now c)), c)),
      tc_pop = (\<lambda>k now c. (Inr (value_at dec (inst @ '':'' @ k) (present_keys now c)), c(inst @ '':'' @ k := None))),
      tc_delete = (\<lambda>k now c. (Inr (), c(inst @ '':'' @ k := None)))\<rparr>"

definition lift_error :: "('c, unit, 'a) act \<Rightarrow> ('c, cache_error, 'a) act" where
  "lift_error m = recover m (\<lambda>_. stop Cache_Failed)"

definition example_cache :: "(doc keyspace, doc) cache" where
  "example_cache =
     \<lparr>ca_in_memory = False, ca_prefix = [], ca_connected = True,
      ca_flows = example_typed flow_instance Flow_D flow_of, ca_codes = example_typed code_instance Code_D code_of,
      ca_sessions = example_typed session_instance Session_D session_of, ca_refresh = example_typed refresh_instance Refresh_D refresh_of,
      ca_shared = example_typed shared_instance Shared_D shared_of,
      ca_do = (\<lambda>now cmd. lift_error (run_command now cmd)), ca_eval = (\<lambda>now script. lift_error script), ca_call = run_command,
      ca_session_json = Some \<circ> Session_D, ca_shared_json = Some \<circ> Shared_D\<rparr>"

definition example_decoders :: "doc decoders" where
  "example_decoders = \<lparr>de_flow = flow_of, de_code = code_of, de_session = session_of, de_refresh = refresh_of, de_shared = shared_of\<rparr>"

lemma present_keys_update [simp]:
  "present_keys now (c(k := None)) = (present_keys now c)(k := None)"
  "present_keys now (c(k \<mapsto> (d, None))) = (present_keys now c)(k \<mapsto> (d, None))"
  "now < t \<Longrightarrow> present_keys now (c(k \<mapsto> (d, Some t))) = (present_keys now c)(k \<mapsto> (d, Some t))"
  by (auto simp: present_keys_def fun_eq_iff)

lemma present_keys_there: "present_keys now c k = Some (d, Some t) \<Longrightarrow> now < t"
  by (auto simp: present_keys_def split: option.splits if_splits)

lemma put_there:
  assumes "e = None \<or> (\<exists>t. e = Some t \<and> now < t)"
  shows "present_keys now (c(k \<mapsto> (d, e))) = (present_keys now c)(k \<mapsto> (d, e))"
    "present_keys now (put_sorted k e z c) = put_sorted k e z (present_keys now c)"
  using assms by (auto simp: put_sorted_def)

lemma map_of_filter_above:
  fixes n :: int
  assumes "distinct (map fst z)"
  shows "map_of (filter (\<lambda>p. \<not> snd p \<le> n) z) x = (case map_of z x of Some score \<Rightarrow> if score \<le> n then None else Some score | None \<Rightarrow> None)"
  using assms
proof (induction z)
  case (Cons p z)
  then have "map_of z (fst p) = None" by (simp add: map_of_eq_None_iff)
  with Cons show ?case by (cases p) auto
qed simp

lemma live_ending: "present_keys now c k = Some (d, e) \<Longrightarrow> e = None \<or> (\<exists>t. e = Some t \<and> now < t)"
  by (auto simp: present_keys_def split: option.splits if_splits)

lemma later_ms: "0 < ms \<Longrightarrow> now < now + ms * millisecond" for ms :: int
  by (simp add: millisecond_def)

lemma example_keys: "documented now cmd (present_keys now c) (fst (run_command now cmd c)) (present_keys now (snd (run_command now cmd c)))"
  if "cmd = Set_If_There k t ms \<or> cmd = Del k \<or> cmd = P_Expire k ms \<or> cmd = P_TTL k"
  using that
proof (elim disjE)
  show ?thesis if "cmd = Set_If_There k t ms"
    unfolding that using later_ms[of ms now] by (cases "0 < ms") (auto simp: typed_error_def)
  show ?thesis if "cmd = Del k" unfolding that by simp
  show ?thesis if "cmd = P_Expire k ms"
    unfolding that using later_ms[of ms now] by (cases "0 < ms") (auto split: option.splits)
  have "0 \<le> (t - now) div millisecond" if "present_keys now c k = Some (d, Some t)" for d t
    using present_keys_there[OF that] by (simp add: millisecond_def pos_imp_zdiv_nonneg_iff)
  then show ?thesis if "cmd = P_TTL k"
    unfolding that by (auto split: option.splits)
qed

lemma example_hash: "documented now cmd (present_keys now c) (fst (run_command now cmd c)) (present_keys now (snd (run_command now cmd c)))"
  if "cmd = H_Get k f \<or> cmd = H_Set k f v \<or> cmd = H_Get_All k"
proof -
  have all: "\<exists>ps. distinct (map fst ps) \<and> map_of ps = map_of h \<and> concat (map (\<lambda>(f, v). [f, v]) (AList.clearjunk h)) = concat (map (\<lambda>(f, v). [f, v]) ps)"
    for h :: "(string \<times> string) list"
    by (rule exI[of _ "AList.clearjunk h"]) (simp add: map_of_clearjunk)
  show ?thesis
  proof (cases "present_keys now c k")
    case None
    then show ?thesis
      using that all[of "[]"]
      by (auto simp: on_kind_def documented_hash_def update_conv' intro!: exI[of _ "[(f, v)]"])
  next
    case (Some x)
    obtain d e where x: "x = (d, e)" by fastforce
    note put = put_there[OF live_ending[OF Some[unfolded x]]]
    show ?thesis
      using that Some x all
      by (cases d) (auto simp: on_kind_def hash_there_def documented_hash_def typed_error_def update_conv' put(1),
        rule exI, rule conjI[OF _ refl], simp add: update_conv')
  qed
qed

lemma example_sorted: "documented now cmd (present_keys now c) (fst (run_command now cmd c)) (present_keys now (snd (run_command now cmd c)))"
  if "cmd = Z_Add k n x \<or> cmd = Z_Remove_Up_To k n \<or> cmd = Z_Range_All k \<or> cmd = Z_Rem k x"
proof (cases "present_keys now c k")
  case None
  then show ?thesis
    using that by (auto simp: on_kind_def documented_sorted_def Let_def put_there(2) intro: exI[of _ "[]"])
      (rule exI[of _ "[(x, n)]"], simp)
next
  case (Some y)
  obtain d e where y: "y = (d, e)" by fastforce
  have del: "map_of (AList.delete x z) = (map_of z)(x := None)" for z :: "(string \<times> int) list" by (rule ext) (simp add: delete_conv')
  have above: "map_of (filter (\<lambda>p. \<not> snd p \<le> n) (AList.clearjunk z)) =
     (\<lambda>x. case map_of z x of Some score \<Rightarrow> if score \<le> n then None else Some score | None \<Rightarrow> None)" for z :: "(string \<times> int) list"
    by (rule ext) (simp add: map_of_filter_above map_of_clearjunk)
  note put = put_there(2)[OF live_ending[OF Some[unfolded y]]]
  show ?thesis
  proof (cases d)
    case (Sorted z)
    have kept: "\<exists>z'. map_of z' = m \<and> put_sorted k e zs (present_keys now c) = put_sorted k e z' (present_keys now c)" if "map_of zs = m" for zs m
      using that by blast
    show ?thesis
      using that Some y Sorted
      by (auto simp: on_kind_def sorted_there_def documented_sorted_def Let_def dom_map_of_conv_image_fst put update_conv' above del intro!: kept)
  qed (use that Some y in \<open>auto simp: on_kind_def sorted_there_def typed_error_def\<close>)
qed

lemma example_documented: "documented now cmd (present_keys now c) (fst (run_command now cmd c)) (present_keys now (snd (run_command now cmd c)))"
  by (cases cmd) (blast intro: example_keys example_hash example_sorted)+

lemma example_typed_laws:
  assumes "\<And>x. dec (enc x) = Some x"
  shows "typed_laws present_keys (store_key example_cache inst) dec (example_typed inst enc dec)"
  using assms unfolding typed_laws_def
  by (auto simp: example_typed_def store_key_def example_cache_def stored_as_def)

lemma example_delivered: "delivered (present_keys now) (lift_error m) m"
  by (auto simp: delivered_def lift_error_def recover_def split: prod.splits sum.splits)

lemma example_cache_laws: "cache_laws example_cache example_decoders present_keys"
proof -
  have "present_keys now' c \<subseteq>\<^sub>m present_keys now c" if "now \<le> now'" for now now' :: time and c :: "doc keyspace"
    using that by (auto simp: map_le_def present_keys_def split: option.splits if_splits)
  then show ?thesis
    unfolding cache_laws_def
    by (auto simp: example_cache_def example_decoders_def example_delivered example_documented
        intro!: example_typed_laws[unfolded example_cache_def])
qed

theorem valkey_keeps_contract_witness: "session_store (valkey_ops example_cache) (valkey_view example_cache example_decoders present_keys)"
  by (rule valkey_keeps_contract[OF example_cache_laws])

text \<open>A list's time to live is set anew by each sign-in recorded in it, so one whose shared session was read
  before it was prolonged shortens the list: an app recorded until later is forgotten while its session
  and its shared session live, and a sign-out then does not reach it.\<close>

lemma shorter_list_forgets_an_app:
  "let ca = example_cache; long = 20 * second; short = 10 * second; at = 15 * second;
       c1 = snd (vk_put_shared_app ca ''i'' ''shop'' ''S1'' long 1 Map.empty);
       c2 = snd (vk_put_shared_app ca ''i'' ''portal'' ''S2'' short 2 c1)
   in v_apps (valkey_view ca example_decoders present_keys at c1) ''i'' ''shop'' = Some ''S1''
    \<and> v_apps (valkey_view ca example_decoders present_keys at c2) ''i'' ''shop'' = None"
  by (simp add: vk_put_shared_app_def example_cache_def ask_def unless_failed_def lift_error_def put_shared_app_script_def
      store_key_def instance_names on_kind_def present_keys_def hash_there_def whole_ms_def time_sub_def second_def millisecond_def
      andthen_def recover_def from_option_def as_text_def valkey_view_def keyspace_view_def hash_at_def Let_def)

end
