(* ===== verification/App_Start.thy ===== *)
theory App_Start
  imports Configuration Valkey_Store Rolebyte Audit_Records
begin

text \<open>
  The service's start, \<open>src/app.go\<close> (\<open>init\<close>) and \<open>src/routes/router.go\<close> (\<open>Init\<close>): from the settings to the parts
  every request finds, in the code's order, and the routes they are served on; each refusal is one the start ends
  with.

  Outside: the platform's set-up, the nonce issuer, the database pool, the authentication library's clients (each
  holding a key of its own, named by its thumbprint) and the access-records client either come up or do not; the
  cache, the providers, the register and the card engine are reached over HTTP.
\<close>

section \<open>A client's secret\<close>

definition upper_char :: "char \<Rightarrow> char" where
  "upper_char c = (let n = of_char c in if 97 \<le> n \<and> n \<le> (122 :: nat) then char_of (n - 32) else c)"

text \<open>Each run of other characters becomes one \<open>_\<close>; the flag says a run is under way.\<close>

fun underscored :: "bool \<Rightarrow> string \<Rightarrow> string" where
  "underscored run [] = []"
| "underscored run (c # s) =
     (if alnum c then c # underscored False s else if run then underscored True s else CHR ''_'' # underscored True s)"

definition secret_name :: "string \<Rightarrow> string" where
  "secret_name cid = ''AUTHBYTE_CLIENT_SECRET_'' @ map upper_char (underscored False cid)"

definition given_text :: "string \<Rightarrow> string option" where
  "given_text s = (if s = [] then None else Some s)"

text \<open>The value the reference itself names, if it does.\<close>

definition named_secret :: "environment \<Rightarrow> string \<Rightarrow> string option" where
  "named_secret ev ref =
     (if has_prefix ref ''literal:'' then given_text (trim_prefix ref ''literal:'')
      else if has_prefix ref ''env:'' then given_text (ev_variables ev (trim_prefix ref ''env:''))
      else if has_prefix ref ''file:''
        then Option.bind (ev_files ev (trim_prefix ref ''file:'')) (\<lambda>b. given_text (trim_space b))
      else None)"

definition client_secret_resolver :: "environment \<Rightarrow> secret_resolver" where
  "client_secret_resolver ev cid ref =
     (case named_secret ev ref of
        Some v \<Rightarrow> Inr v
      | None \<Rightarrow>
          (case given_text (ev_variables ev (secret_name cid)) of
             Some v \<Rightarrow> Inr v
           | None \<Rightarrow>
               (case Option.bind (ev_secrets ev (secret_name cid)) given_text of
                  Some v \<Rightarrow> Inr v
                | None \<Rightarrow> Inl (''no secret resolved for client '' @ cid @ '' (ref ''
                    @ (if has_prefix ref ''literal:'' then ''literal:<redacted>'' else ref) @ '')''))))"

section \<open>Steps that may refuse\<close>

definition sbind :: "'e + 'a \<Rightarrow> ('a \<Rightarrow> 'e + 'b) \<Rightarrow> 'e + 'b" where
  "sbind r f = (case r of Inl e \<Rightarrow> Inl e | Inr x \<Rightarrow> f x)"

definition error_as :: "('e \<Rightarrow> 'f) \<Rightarrow> 'e + 'a \<Rightarrow> 'f + 'a" where
  "error_as g r = map_sum g id r"

definition unless :: "bool \<Rightarrow> 'e \<Rightarrow> 'e + unit" where
  "unless b e = (if b then Inl e else Inr ())"

definition or_refuse :: "'e \<Rightarrow> 'a option \<Rightarrow> 'e + 'a" where
  "or_refuse e r = (case r of Some x \<Rightarrow> Inr x | None \<Rightarrow> Inl e)"

named_theorems start_simps \<open>a start that did not refuse took every step\<close>

lemma sbind_Inr [start_simps]: "sbind r f = Inr y \<longleftrightarrow> (\<exists>x. r = Inr x \<and> f x = Inr y)"
  by (simp add: sbind_def split: sum.splits)

lemma error_as_Inr [start_simps]: "error_as g r = Inr y \<longleftrightarrow> r = Inr y"
  by (cases r) (simp_all add: error_as_def)

lemma unless_Inr [start_simps]: "unless b e = Inr u \<longleftrightarrow> \<not> b"
  by (simp add: unless_def)

lemma or_refuse_Inr [start_simps]: "or_refuse e r = Inr y \<longleftrightarrow> r = Some y"
  by (simp add: or_refuse_def split: option.splits)

section \<open>The parts\<close>

record ('c, 'j) platform =
  pl_environment :: environment
  pl_setup :: bool
  pl_crypto :: crypto
  pl_generated :: "string option"
  pl_decode :: "string \<Rightarrow> document option"
  pl_idp :: idp
  pl_nonce :: "duration \<Rightarrow> bool"
  pl_cache :: "('c, 'j) cache"
  pl_instances :: bool
  pl_database :: "string \<Rightarrow> bool"
  pl_auth_client :: "auth_config \<Rightarrow> string option"
  pl_outbox :: "string \<Rightarrow> bool"
  pl_gdpr :: "gdpr_config \<Rightarrow> bool"
  pl_engine :: "string \<Rightarrow> string \<Rightarrow> string \<Rightarrow> string \<Rightarrow> string \<Rightarrow> card_subject option"
  pl_certificate :: "string \<Rightarrow> string"
  pl_register :: "nat \<Rightarrow> door_call \<Rightarrow> door_answer option"

record adapter =
  ad_validate_url :: string
  ad_audience :: string
  ad_scope :: string

definition new_adapter :: "string \<Rightarrow> string \<Rightarrow> string \<Rightarrow> adapter" where
  "new_adapter base audience scope =
     \<lparr>ad_validate_url = trim_suffix base ''/'' @ ''/auth/validate'', ad_audience = audience, ad_scope = scope\<rparr>"

record 'c app =
  ap_config :: settings
  ap_issuer :: issuer
  ap_registry :: registry
  ap_upstreams :: "up_entry list"
  ap_nonce :: bool
  ap_session :: "'c store_ops"
  ap_auth_client :: auth_config
  ap_audit_client :: "string option"
  ap_audit :: recorder
  ap_webeid :: "adapter option"
  ap_scope_resolver :: "rolebyte option"

datatype start_error =
    Settings_Refused config_error
  | Setup_Failed
  | Signing_Key_Refused key_error
  | Ephemeral_Key
  | Registry_Refused registry_error
  | Register_Needed
  | Baselines_Unused "string list"
  | Provider_Refused up_error
  | Providers_Refused set_error
  | Nonce_Failed
  | Store_In_Memory
  | Cache_Failed
  | Database_Refused
  | Auth_Client_Refused
  | Audit_Client_Refused
  | Outbox_Failed
  | Access_Client_Refused
  | Card_Client_Refused
  | Register_Client_Refused
  | Mark_Unreadable
  | Return_Path_Taken string string

section \<open>The start\<close>

definition start_keys :: "('c, 'j) platform \<Rightarrow> settings \<Rightarrow> start_error + manager" where
  "start_keys pl s =
     sbind (error_as Signing_Key_Refused (new_manager (pl_crypto pl) (pl_generated pl) (st_token_signing_key s))) (\<lambda>km.
     sbind (unless (km_ephemeral km \<and> \<not> st_allow_ephemeral_signing_key s) Ephemeral_Key) (\<lambda>_. Inr km))"

definition start_registry :: "('c, 'j) platform \<Rightarrow> settings \<Rightarrow> start_error + registry" where
  "start_registry pl s =
     sbind (error_as Registry_Refused
       (load (pl_decode pl) (st_service_client_registry s) (Some (client_secret_resolver (pl_environment pl))))) (\<lambda>r.
     sbind (unless (requires_membership_somewhere r \<and> \<not> rolebyte_enabled s) Register_Needed) (\<lambda>_.
     sbind (unless (baselines_never_minted r (rolebyte_enabled s) \<noteq> [])
       (Baselines_Unused (baselines_never_minted r (rolebyte_enabled s)))) (\<lambda>_. Inr r)))"

text \<open>The providers the composing program passed, or the one the settings describe.\<close>

definition start_providers :: "('c, 'j) platform \<Rightarrow> up_entry list option \<Rightarrow> settings \<Rightarrow> start_error + up_entry list" where
  "start_providers pl given s =
     sbind (case given of
         Some es \<Rightarrow> Inr es
       | None \<Rightarrow> sbind (error_as Provider_Refused (new_provider (pl_idp pl) (upstream_config s))) (\<lambda>p. Inr [upstream_entry s p])) (\<lambda>es.
     error_as Providers_Refused (new_set es))"

definition start_store :: "('c, 'j) platform \<Rightarrow> settings \<Rightarrow> start_error + 'c store_ops" where
  "start_store pl s =
     sbind (or_refuse Store_In_Memory (new_store (pl_cache pl))) (\<lambda>ops.
     sbind (unless (\<not> pl_instances pl) Cache_Failed) (\<lambda>_.
     sbind (unless (\<not> pl_database pl (st_postgres_dsn s)) Database_Refused) (\<lambda>_. Inr ops)))"

definition inbound_auth_config :: "settings \<Rightarrow> registry \<Rightarrow> auth_config" where
  "inbound_auth_config s r =
     (case audiences r of
        [] \<Rightarrow> auth_client_config s
      | a # as \<Rightarrow> (auth_client_config s)\<lparr>aa_audience := a, aa_also_audiences := as\<rparr>)"

text \<open>The access-records client, when its service is named: the outbound client's thumbprint.\<close>

definition start_audit :: "('c, 'j) platform \<Rightarrow> settings \<Rightarrow> start_error + string option" where
  "start_audit pl s =
     (if access_audit_enabled s then
        sbind (or_refuse Audit_Client_Refused (pl_auth_client pl (audit_auth_client_config s))) (\<lambda>oc.
        sbind (unless (st_access_audit_outbox_dir s \<noteq> [] \<and> \<not> pl_outbox pl (st_access_audit_outbox_dir s)) Outbox_Failed) (\<lambda>_.
        sbind (unless (\<not> pl_gdpr pl (gdpr_configuration s)) Access_Client_Refused) (\<lambda>_. Inr (Some oc))))
      else Inr None)"

text \<open>The outbound client: the one there is, or a new one.\<close>

definition outbound_client :: "('c, 'j) platform \<Rightarrow> settings \<Rightarrow> start_error \<Rightarrow> string option \<Rightarrow> start_error + string" where
  "outbound_client pl s err oc =
     (case oc of Some t \<Rightarrow> Inr t | None \<Rightarrow> or_refuse err (pl_auth_client pl (audit_auth_client_config s)))"

definition start_card_door :: "('c, 'j) platform \<Rightarrow> settings \<Rightarrow> string option \<Rightarrow> start_error + adapter option" where
  "start_card_door pl s oc =
     (if webeid_enabled s then
        sbind (outbound_client pl s Card_Client_Refused oc) (\<lambda>_.
        Inr (Some (new_adapter (st_webeid_engine_url s) (st_webeid_audience s) (st_webeid_scope s))))
      else Inr None)"

definition start_resolver :: "('c, 'j) platform \<Rightarrow> settings \<Rightarrow> string option \<Rightarrow> start_error + rolebyte option" where
  "start_resolver pl s oc =
     (if rolebyte_enabled s then
        sbind (outbound_client pl s Register_Client_Refused oc) (\<lambda>thumbprint.
        Inr (Some (new_rolebyte (st_rolebyte_url s) (st_rolebyte_audience s) (st_audit_client_id s) thumbprint (pl_register pl))))
      else Inr None)"

definition init :: "('c, 'j) platform \<Rightarrow> up_entry list option \<Rightarrow> settings \<Rightarrow> start_error + 'c app" where
  "init pl given s =
     sbind (unless (\<not> pl_setup pl) Setup_Failed) (\<lambda>_.
     sbind (start_keys pl s) (\<lambda>km.
     sbind (start_registry pl s) (\<lambda>r.
     sbind (start_providers pl given s) (\<lambda>es.
     sbind (unless (st_dpop_nonce_enabled s \<and> \<not> pl_nonce pl (st_dpop_nonce_ttl s)) Nonce_Failed) (\<lambda>_.
     sbind (start_store pl s) (\<lambda>ops.
     sbind (unless (pl_auth_client pl (inbound_auth_config s r) = None) Auth_Client_Refused) (\<lambda>_.
     sbind (start_audit pl s) (\<lambda>oc.
     sbind (start_card_door pl s oc) (\<lambda>card.
     sbind (start_resolver pl s oc) (\<lambda>register.
     Inr \<lparr>ap_config = s,
       ap_issuer = \<lparr>is_keys = km, is_url = st_issuer_url s, is_user_ttl = st_user_token_ttl s, is_service_ttl = st_service_token_ttl s\<rparr>,
       ap_registry = r, ap_upstreams = es, ap_nonce = st_dpop_nonce_enabled s, ap_session = ops,
       ap_auth_client = inbound_auth_config s r, ap_audit_client = oc,
       ap_audit = \<lparr>rec_security = True, rec_access = access_audit_enabled s\<rparr>,
       ap_webeid = card, ap_scope_resolver = register\<rparr>))))))))))"

text \<open>\<open>New\<close>: the settings are read and validated before anything is built.\<close>

definition new_app :: "('c, 'j) platform \<Rightarrow> (string \<Rightarrow> bool) \<Rightarrow> bool \<Rightarrow> string \<Rightarrow> up_entry list option \<Rightarrow> start_error + 'c app" where
  "new_app pl url base_ok cache_password given =
     sbind (or_refuse (Settings_Refused Unreadable_Setting) (load_settings (pl_environment pl))) (\<lambda>s.
     sbind (error_as Settings_Refused (validate (pl_environment pl) url base_ok cache_password (given \<noteq> None) s)) (\<lambda>s'.
     init pl given s'))"

text \<open>Whether the deployment offers a method, and the sign-in clients none of whose methods it offers.\<close>

definition offers_method :: "'c app \<Rightarrow> string \<Rightarrow> bool" where
  "offers_method a m \<longleftrightarrow> by_method (ap_upstreams a) m \<noteq> None \<or> m = login_webeid \<and> ap_webeid a \<noteq> None"

definition clients_offered_nothing :: "registry \<Rightarrow> (string \<Rightarrow> bool) \<Rightarrow> string list" where
  "clients_offered_nothing r offered = map si_id (filter (\<lambda>c. \<not> list_ex offered (si_methods c)) (enabled_sign_ins r))"

section \<open>The signing key's reloads\<close>

text \<open>Each tick of the reloader asks the secret store for the key; no answer, or an empty one, changes nothing.\<close>

definition reload_tick :: "crypto \<Rightarrow> manager \<Rightarrow> string option \<Rightarrow> manager" where
  "reload_tick cr m answer =
     (case answer of Some pem \<Rightarrow> if pem = [] then m else snd (maybe_rotate cr pem m) | None \<Rightarrow> m)"

definition signing_key_rotation :: "settings \<Rightarrow> crypto \<Rightarrow> string option list \<Rightarrow> manager \<Rightarrow> manager" where
  "signing_key_rotation s cr answers m =
     (if st_signing_key_reload_interval s \<le> 0 then m else foldl (reload_tick cr) m answers)"

text \<open>The ticks' work is the key manager's reloads of the keys that were answered.\<close>

lemma ticks_reload:
  "foldl (reload_tick cr) m answers = reloads cr (filter (\<lambda>p. p \<noteq> []) (List.map_filter id answers)) m"
  by (induction answers arbitrary: m) (auto simp: reload_tick_def map_filter_simps split: option.splits)

section \<open>The routes\<close>

datatype http_method = GET | POST | DELETE

datatype endpoint =
    Healthz | Readyz | Jwks | Discovery | Authorize_Route | Choose | Choose_Assistant | Card_Answer | Choose_Language | Signin_Asset
  | Callback_Route string | Logout_Route | Token_Route | Revoke_Route | Identity_Route | Register_Person_Route | Person_Lines | Person_Code
  | Own_Connections | Sign_Out_Own | Assistant_Connections | Sign_Out_Assistants | End_Assistants | Demo

type_synonym route = "http_method \<times> string \<times> endpoint"

definition core_paths :: "string list" where
  "core_paths = [''/healthz'', ''/readyz'', ''/.well-known'', ''/authorize'', ''/signin'', ''/logout'', ''/token'',
     ''/revoke'', ''/identity'', ''/demo'']"

definition core_route :: "string \<Rightarrow> bool" where
  "core_route path \<longleftrightarrow> list_ex (\<lambda>p. path = p \<or> has_prefix path (p @ ''/'')) core_paths"

fun callback_routes :: "up_entry list \<Rightarrow> start_error + route list" where
  "callback_routes [] = Inr []"
| "callback_routes (e # es) =
     (if core_route (ue_return_path e) then Inl (Return_Path_Taken (ue_name e) (ue_return_path e))
      else sbind (callback_routes es) (\<lambda>rs. Inr ((GET, ue_return_path e, Callback_Route (ue_name e)) # rs)))"

definition sign_in_routes :: "settings \<Rightarrow> route list" where
  "sign_in_routes s =
     [(GET, ''/healthz'', Healthz), (GET, ''/readyz'', Readyz), (GET, ''/.well-known/jwks.json'', Jwks),
      (GET, ''/.well-known/openid-configuration'', Discovery),
      (GET, ''/authorize'', Authorize_Route), (POST, ''/authorize'', Authorize_Route), (POST, ''/authorize/choice'', Choose),
      (POST, ''/authorize/assistant'', Choose_Assistant)]
     @ (if webeid_enabled s then [(POST, ''/authorize/card'', Card_Answer)] else [])
     @ [(GET, ''/signin/language'', Choose_Language), (GET, ''/signin/{name}'', Signin_Asset)]"

definition service_routes :: "settings \<Rightarrow> route list" where
  "service_routes s =
     [(GET, ''/logout'', Logout_Route), (POST, ''/token'', Token_Route), (POST, ''/revoke'', Revoke_Route), (GET, ''/identity'', Identity_Route),
      (POST, ''/identity/persons'', Register_Person_Route), (POST, ''/identity/persons/lines'', Person_Lines),
      (GET, ''/identity/persons/{personSub}/code'', Person_Code), (GET, ''/identity/connections'', Own_Connections),
      (DELETE, ''/identity/connections/{id}'', Sign_Out_Own),
      (GET, ''/identity/assistants/{assistant}/connections'', Assistant_Connections),
      (DELETE, ''/identity/assistants/{assistant}/connections/{id}'', Sign_Out_Assistants),
      (DELETE, ''/identity/assistants/{assistant}/connections'', End_Assistants)]
     @ (if st_demo_dir s \<noteq> [] then [(GET, ''/demo'', Demo), (GET, ''/demo/{path:*}'', Demo)] else [])"

definition init_routes :: "('c, 'j) platform \<Rightarrow> 'c app \<Rightarrow> start_error + route list" where
  "init_routes pl a =
     (let s = ap_config a; mark = st_sign_in_operator_mark_file s in
      sbind (unless (mark \<noteq> [] \<and> ev_files (pl_environment pl) mark = None) Mark_Unreadable) (\<lambda>_.
      sbind (callback_routes (ap_upstreams a)) (\<lambda>cs.
      Inr (sign_in_routes s @ cs @ service_routes s))))"

section \<open>What a request finds\<close>

definition reader_of :: "('c, 'j) platform \<Rightarrow> adapter \<Rightarrow> card_reader" where
  "reader_of pl ad =
     \<lparr>cr_validate = pl_engine pl (ad_audience ad) (ad_scope ad) (ad_validate_url ad), cr_certificate = pl_certificate pl\<rparr>"

text \<open>The service's parts, put into an environment that is otherwise the outside's.\<close>

definition serve :: "('c, 'j) platform \<Rightarrow> bool \<Rightarrow> 'c app \<Rightarrow> 'c env \<Rightarrow> 'c env" where
  "serve pl development a e = e\<lparr>
     en_config := handler_config development (ap_config a), en_registry := ap_registry a, en_issuer := ap_issuer a,
     en_crypto := pl_crypto pl, en_ops := ap_session a, en_register := ap_scope_resolver a,
     en_upstreams := ap_upstreams a, en_card := map_option (reader_of pl) (ap_webeid a)\<rparr>"

section \<open>A service that starts\<close>

lemma validate_rules:
  assumes "validate ev url base_ok pw given s = Inr s'"
  shows "\<forall>(n, ok)\<in>set (field_rules url s). ok" "s' = s\<lparr>st_issuer_url := issuer_identifier (st_issuer_url s)\<rparr>"
    "given \<or> validate_upstream s' = None"
  using assms by (auto simp: validate_def invalid_fields_def Let_def filter_empty_conv split: option.splits if_splits)

lemma validated:
  assumes "validate ev url base_ok pw given s = Inr s'"
  shows "0 < st_session_ttl s' \<and> 0 < st_app_token_ttl s' \<and> 0 < st_user_token_ttl s' \<and> 0 < st_service_token_ttl s'
     \<and> 0 < st_dpop_proof_max_age s' \<and> 0 \<le> st_token_clock_skew_leeway s'"
  using validate_rules(1)[OF assms] by (simp add: validate_rules(2)[OF assms] field_rules_def)

lemma start_manager:
  "start_keys pl s = Inr km \<Longrightarrow> manager_ok (pl_crypto pl) km \<and> (km_ephemeral km \<longrightarrow> st_allow_ephemeral_signing_key s)"
  by (auto simp: start_keys_def start_simps intro: new_manager_ok)

lemma started_registry:
  "start_registry pl s = Inr r \<Longrightarrow>
     registry_ok r \<and> (requires_membership_somewhere r \<longrightarrow> rolebyte_enabled s) \<and> baselines_never_minted r (rolebyte_enabled s) = []"
  by (auto simp: start_registry_def start_simps dest: load_inv(1))

lemma started_parts:
  assumes "init pl given s = Inr a"
  shows "ap_config a = s" "start_keys pl s = Inr (is_keys (ap_issuer a))" "start_registry pl s = Inr (ap_registry a)"
    "start_providers pl given s = Inr (ap_upstreams a)" "start_store pl s = Inr (ap_session a)"
    "start_card_door pl s (ap_audit_client a) = Inr (ap_webeid a)"
    "start_resolver pl s (ap_audit_client a) = Inr (ap_scope_resolver a)"
    "is_url (ap_issuer a) = st_issuer_url s" "is_user_ttl (ap_issuer a) = st_user_token_ttl s"
    "is_service_ttl (ap_issuer a) = st_service_token_ttl s" "ap_auth_client a = inbound_auth_config s (ap_registry a)"
  using assms by (auto simp: init_def start_simps)

section \<open>Its routes\<close>

lemma callback_routes_Inr:
  "callback_routes es = Inr rs \<longleftrightarrow> (\<forall>e\<in>set es. \<not> core_route (ue_return_path e))
     \<and> rs = map (\<lambda>e. (GET, ue_return_path e, Callback_Route (ue_name e))) es"
  by (induction es arbitrary: rs) (auto simp: start_simps)

definition place :: "route \<Rightarrow> http_method \<times> string" where
  "place r = (fst r, fst (snd r))"

lemma own_routes_core: "(m, p, h) \<in> set (sign_in_routes s @ service_routes s) \<Longrightarrow> core_route p"
  by (auto simp: sign_in_routes_def service_routes_def split: if_splits) (code_simp+)

lemma own_routes_apart: "distinct (map place (sign_in_routes s @ service_routes s))"
  by (auto simp: sign_in_routes_def service_routes_def place_def)

lemma routes_apart:
  assumes "init_routes pl a = Inr rs" "distinct (map ue_return_path (ap_upstreams a))"
  shows "distinct (map place rs) \<and> (\<forall>u\<in>set (ap_upstreams a). (GET, ue_return_path u, Callback_Route (ue_name u)) \<in> set rs)"
proof -
  let ?s = "ap_config a" and ?cs = "map (\<lambda>e. (GET, ue_return_path e, Callback_Route (ue_name e))) (ap_upstreams a)"
  have rs: "rs = sign_in_routes ?s @ ?cs @ service_routes ?s" and free: "\<forall>e\<in>set (ap_upstreams a). \<not> core_route (ue_return_path e)"
    using assms(1) by (auto simp: init_routes_def Let_def start_simps callback_routes_Inr)
  have cs: "distinct (map place ?cs)" using assms(2) by (auto simp: place_def comp_def distinct_map inj_on_def)
  have "place c \<noteq> place r" if "c \<in> set ?cs" "r \<in> set (sign_in_routes ?s @ service_routes ?s)" for c r
    using that free own_routes_core[of "fst r" "fst (snd r)" "snd (snd r)" ?s] by (auto simp: place_def)
  then have "place ` set ?cs \<inter> place ` set (sign_in_routes ?s @ service_routes ?s) = {}" by blast
  then show ?thesis using own_routes_apart[of ?s] cs unfolding rs by (auto simp: image_Un)
qed

section \<open>A start\<close>

definition example_variables :: "(string \<times> string) list" where
  "example_variables =
     [(''AUTH_ISSUER_URL'', ''https://auth.test/''), (''BASE_URL'', ''https://auth.test''), (''POSTGRES_DSN'', ''postgres://db''),
      (''TOKEN_SIGNING_KEY'', ''K1''), (''ROLEBYTE_URL'', ''https://register.test''), (''AUTHBYTE_CLIENT_SECRET_EDGE'', ''e''), (''AUTHBYTE_CLIENT_SECRET_SHOP_APP'', ''s'')]"

definition example_environment :: environment where
  "example_environment =
     \<lparr>ev_variables = (\<lambda>n. with_default [] (map_of example_variables n)), ev_secrets = (\<lambda>_. None), ev_files = (\<lambda>_. None),
      ev_flag = (\<lambda>_. None), ev_count = (\<lambda>_. None), ev_duration = (\<lambda>_. None)\<rparr>"

definition example_platform :: "(doc keyspace, doc) platform" where
  "example_platform =
     \<lparr>pl_environment = example_environment, pl_setup = True, pl_crypto = example_crypto, pl_generated = None,
      pl_decode = example_decode, pl_idp = quiet_idp, pl_nonce = (\<lambda>_. True), pl_cache = example_cache, pl_instances = True,
      pl_database = (\<lambda>_. True), pl_auth_client = (\<lambda>_. Some ''K''), pl_outbox = (\<lambda>_. True), pl_gdpr = (\<lambda>_. True),
      pl_engine = (\<lambda>_ _ _ _ _. None), pl_certificate = (\<lambda>_. []), pl_register = (\<lambda>_ _. None)\<rparr>"

definition example_settings :: settings where
  "example_settings =
     (let s = read_settings example_environment in s\<lparr>st_issuer_url := issuer_identifier (st_issuer_url s)\<rparr>)"

lemma example_platform_parts [simp]:
  "pl_environment example_platform = example_environment" "pl_setup example_platform" "pl_crypto example_platform = example_crypto"
  "pl_generated example_platform = None" "pl_decode example_platform = example_decode" "pl_idp example_platform = quiet_idp"
  "pl_nonce example_platform d" "pl_cache example_platform = example_cache" "pl_instances example_platform"
  "pl_database example_platform t" "pl_auth_client example_platform c = Some ''K''"
  by (simp_all add: example_platform_def)

lemma example_settings_valid:
  "load_settings example_environment = Some (read_settings example_environment)"
  "validate example_environment (\<lambda>_. True) True [] True (read_settings example_environment) = Inr example_settings"
proof -
  have *: "(\<forall>k\<in>set flag_keys. flag_read example_environment k \<noteq> None)
    \<and> (\<forall>k\<in>set count_keys. count_read example_environment k \<noteq> None)
    \<and> (\<forall>k\<in>set duration_keys. duration_read example_environment k \<noteq> None)" by code_simp
  then show "load_settings example_environment = Some (read_settings example_environment)"
    unfolding load_settings_def by simp
  have fields: "text_setting example_environment ''issuer_url'' = ''https://auth.test/''" "text_setting example_environment ''base_url'' \<noteq> []"
    "text_setting example_environment ''token_signing_alg'' = es256" "text_setting example_environment ''postgres_dsn'' \<noteq> []"
    by code_simp+
  have zero: "0 \<le> duration_setting example_environment ''signing_key_reload_interval''"
    "0 \<le> duration_setting example_environment ''token_clock_skew_leeway''" "0 \<le> count_setting example_environment ''sign_in_rate_limit''"
    by code_simp+
  have times: "0 < duration_setting example_environment ''user_token_ttl''" "0 < duration_setting example_environment ''service_token_ttl''"
    "0 < duration_setting example_environment ''app_token_ttl''" "0 < duration_setting example_environment ''dpop_proof_max_age''"
    "0 < duration_setting example_environment ''session_ttl''" "0 < duration_setting example_environment ''dpop_nonce_ttl''"
    "0 < duration_setting example_environment ''sign_in_rate_window''"
    by code_simp+
  have "invalid_fields (\<lambda>_. True) (read_settings example_environment) = []"
    using times by (simp add: invalid_fields_def field_rules_def read_settings_def fields zero es256_def)
  moreover have "refuse_empty_file_secret example_environment ''CACHE_PASSWORD'' [] = None" by code_simp
  ultimately show "validate example_environment (\<lambda>_. True) True [] True (read_settings example_environment) = Inr example_settings"
    by (simp add: validate_def example_settings_def Let_def)
qed

text \<open>What the start reads of them.\<close>

lemma example_start_reads:
  "st_token_signing_key example_settings = ''K1''" "st_service_client_registry example_settings = []"
  "st_rolebyte_url example_settings = ''https://register.test''" "st_access_audit_url example_settings = []"
  "st_webeid_engine_url example_settings = []" "st_sign_in_operator_mark_file example_settings = []"
  "st_issuer_url example_settings = ''https://auth.test''"
  by (simp_all add: example_settings_def read_settings_def Let_def) code_simp+

lemma example_starts:
  "\<exists>km. start_keys example_platform example_settings = Inr km"
  "\<exists>r. start_registry example_platform example_settings = Inr r"
  "\<exists>es. start_providers example_platform (Some example_set) example_settings = Inr es
     \<and> map ue_return_path es = [''/callback/national'', ''/callback/office'']"
proof -
  have "case new_manager example_crypto None ''K1'' of Inr km \<Rightarrow> \<not> km_ephemeral km | Inl _ \<Rightarrow> False" by code_simp
  then show "\<exists>km. start_keys example_platform example_settings = Inr km"
    by (auto simp: start_keys_def start_simps example_start_reads split: sum.splits)
next
  have "case load example_decode [] (Some (client_secret_resolver example_environment)) of
      Inr r \<Rightarrow> baselines_never_minted r True = [] | Inl _ \<Rightarrow> False" by code_simp
  moreover have "rolebyte_enabled example_settings" unfolding rolebyte_enabled_def example_start_reads by code_simp
  ultimately show "\<exists>r. start_registry example_platform example_settings = Inr r"
    by (auto simp: start_registry_def start_simps example_start_reads split: sum.splits)
next
  have "case new_set example_set of Inr es \<Rightarrow> map ue_return_path es = [''/callback/national'', ''/callback/office''] | Inl _ \<Rightarrow> False"
    by code_simp
  then show "\<exists>es. start_providers example_platform (Some example_set) example_settings = Inr es
     \<and> map ue_return_path es = [''/callback/national'', ''/callback/office'']"
    by (auto simp: start_providers_def start_simps split: sum.splits)
qed

lemma example_start:
  "\<exists>a rs. new_app example_platform (\<lambda>_. True) True [] (Some example_set) = Inr a \<and> init_routes example_platform a = Inr rs
     \<and> is_url (ap_issuer a) = ''https://auth.test''"
proof -
  obtain km r es where k: "start_keys example_platform example_settings = Inr km"
    and r: "start_registry example_platform example_settings = Inr r"
    and p: "start_providers example_platform (Some example_set) example_settings = Inr es"
      "map ue_return_path es = [''/callback/national'', ''/callback/office'']"
    using example_starts by (elim exE conjE) (rule that)
  have off: "\<not> access_audit_enabled example_settings" "\<not> webeid_enabled example_settings"
    unfolding access_audit_enabled_def webeid_enabled_def example_start_reads by code_simp+
  have store: "start_store example_platform example_settings = Inr (valkey_ops example_cache)"
    by (simp add: start_store_def new_store_def example_cache_def sbind_def or_refuse_def unless_def)
  obtain reg where reg: "start_resolver example_platform example_settings None = Inr reg"
    by (cases "rolebyte_enabled example_settings") (simp_all add: start_resolver_def outbound_client_def sbind_def or_refuse_def)
  obtain a where a: "init example_platform (Some example_set) example_settings = Inr a"
    by (simp add: init_def sbind_def k r p store reg unless_def start_audit_def start_card_door_def off)
  then have parts: "ap_config a = example_settings" "ap_upstreams a = es" "is_url (ap_issuer a) = ''https://auth.test''"
    using started_parts[OF a] p by (simp_all add: example_start_reads)
  have "set (map ue_return_path es) = {''/callback/national'', ''/callback/office''}" using p(2) by simp
  moreover have "\<not> core_route ''/callback/national''" "\<not> core_route ''/callback/office''" by code_simp+
  ultimately have "\<forall>e\<in>set es. \<not> core_route (ue_return_path e)"
    unfolding set_map by (metis image_eqI insert_iff singletonD)
  then have "\<exists>rs. init_routes example_platform a = Inr rs"
    by (simp add: init_routes_def parts example_start_reads Let_def start_simps callback_routes_Inr)
  moreover have "new_app example_platform (\<lambda>_. True) True [] (Some example_set) = Inr a"
    by (simp add: new_app_def sbind_def or_refuse_def error_as_def example_settings_valid a)
  ultimately show ?thesis using parts by blast
qed


end
