(* ===== verification/Well_Known.thy ===== *)
theory Well_Known
  imports App_Start Token Sign_In
begin

text \<open>
  What the service says of itself, \<open>src/routes/wellknown.go\<close>: the metadata a client discovers it by. The keys'
  document is the key manager's (\<open>jwks\<close>).
\<close>

record metadata =
  md_issuer :: string
  md_authorization_endpoint :: string
  md_token_endpoint :: string
  md_jwks_uri :: string
  md_userinfo_endpoint :: string
  md_response_types :: "string list"
  md_grant_types :: "string list"
  md_token_auth_methods :: "string list"
  md_code_challenge_methods :: "string list"
  md_dpop_algs :: "string list"
  md_revocation_endpoint :: string
  md_revocation_auth_methods :: "string list"
  md_scopes :: "string list"
  md_subject_types :: "string list"
  md_id_token_algs :: "string list"
  md_claims :: "string list"
  md_acr_values :: "string list"
  md_ui_locales :: "string list"
  md_iss_parameter :: bool
  md_request_uri_parameter :: bool

definition claims_supported :: "string list" where
  "claims_supported =
     [''sub'', ''iss'', ''aud'', ''exp'', ''iat'', ''auth_time'', ''nonce'', ''acr'', ''amr'', ''sid'',
      ''name'', ''given_name'', ''family_name'', ''serial_number'']"

definition client_auth_methods :: "string list" where
  "client_auth_methods = [''client_secret_basic'', ''client_secret_post'', ''none'']"

definition offered_methods :: "'c app \<Rightarrow> string list" where
  "offered_methods a = all_methods (ap_upstreams a) @ (if webeid_enabled (ap_config a) then [login_webeid] else [])"

definition discovery :: "'c app \<Rightarrow> metadata" where
  "discovery a =
     (let base = trim_suffix (st_issuer_url (ap_config a)) ''/'' in
      \<lparr>md_issuer = base, md_authorization_endpoint = base @ ''/authorize'', md_token_endpoint = base @ ''/token'',
       md_jwks_uri = base @ ''/.well-known/jwks.json'', md_userinfo_endpoint = base @ ''/identity'',
       md_response_types = [''code''],
       md_grant_types = [''authorization_code'', ''client_credentials'', ''refresh_token'', grant_token_exchange],
       md_token_auth_methods = client_auth_methods, md_code_challenge_methods = [''S256''], md_dpop_algs = [''ES256''],
       md_revocation_endpoint = base @ ''/revoke'', md_revocation_auth_methods = client_auth_methods,
       md_scopes = [scope_openid], md_subject_types = [''public''], md_id_token_algs = [alg (is_keys (ap_issuer a))],
       md_claims = claims_supported, md_acr_values = offered_methods a, md_ui_locales = languages,
       md_iss_parameter = True, md_request_uri_parameter = False\<rparr>)"

section \<open>One issuer\<close>

text \<open>The issuer that is discovered is the one tokens name, unless the configured address ends in two slashes:
  the settings take one off, and the metadata another.\<close>

lemma one_issuer:
  assumes "\<not> has_suffix (trim_space raw) ''//''"
  shows "trim_suffix (issuer_identifier raw) ''/'' = issuer_identifier raw"
proof -
  have no: "\<not> has_suffix t ''/''" if "trim_space raw = t @ ''/''" for t
    using assms that by (auto simp: has_suffix_def)
  show ?thesis
  proof (cases "has_suffix (trim_space raw) ''/''")
    case True
    then obtain t where t: "trim_space raw = t @ ''/''"
      by (auto simp: has_suffix_def has_prefix_iff rev_swap)
    then show ?thesis using no[OF t] by (simp add: issuer_identifier_def trim_suffix_def has_suffix_def)
  qed (simp add: issuer_identifier_def trim_suffix_def)
qed

lemma two_slashes_two_issuers:
  "issuer_identifier ''https://auth.test//'' = ''https://auth.test/''"
  "trim_suffix (issuer_identifier ''https://auth.test//'') ''/'' = ''https://auth.test''"
  by code_simp+

text \<open>Every method that is offered is one a sign-in may ask for, and no method is offered twice.\<close>

lemma offered_methods_are_offered:
  assumes "init pl given s = Inr a"
  shows "set (offered_methods a) = {m. offers_method a m} \<and> distinct (offered_methods a)"
proof -
  have up: "entries_apart (ap_upstreams a)"
    using started_parts(4)[OF assms] by (auto simp: start_providers_def start_simps intro: new_set_apart)
  have card: "webeid_enabled (ap_config a) \<longleftrightarrow> ap_webeid a \<noteq> None"
    using started_parts(1,6)[OF assms] by (cases "ap_webeid a") (auto simp: start_simps start_card_door_def split: if_splits)
  have "m \<in> set (all_methods (ap_upstreams a)) \<longleftrightarrow> by_method (ap_upstreams a) m \<noteq> None" for m
    by (cases "by_method (ap_upstreams a) m") (auto simp: all_methods_def by_method_def dest: first_SomeD)
  then show ?thesis
    using up by (auto simp: offered_methods_def offers_method_def card entries_apart_def)
qed

end
